theory Spec2Isabelle
  imports Main
begin

section \<open>The ECMAScript built-ins that app.js calls\<close>

text \<open>
  The page script \<^verbatim>\<open>frontend/app.js\<close> keeps its state in two globals
  (\<^verbatim>\<open>window._prevDataJSON\<close>, \<^verbatim>\<open>window._selectedCells\<close>), one module variable
  (\<^verbatim>\<open>_isLoading\<close>) and the DOM. The embedding below follows the script function by
  function. This first section gives the built-ins the script relies on:
  \<^verbatim>\<open>String.prototype.trim\<close>, \<^verbatim>\<open>parseInt(s, 10)\<close>, \<^verbatim>\<open>Number(s)\<close> and
  \<^verbatim>\<open>String(n)\<close>, each after its definition in the ECMAScript standard.

  A finite number is written as a decimal \<open>m * 10 ^ e\<close>. \<^verbatim>\<open>parseInt\<close> rounds the
  integer it reads to the nearest IEEE-754 double, as the standard says. \<^verbatim>\<open>Number\<close>
  and \<^verbatim>\<open>String\<close> are exact on decimals: the rounding of a decimal literal of more
  than 15 significant digits is outside the model. Characters are bytes, so only the
  ASCII white space characters are recognised as white space.
\<close>

definition is_ws :: "char \<Rightarrow> bool" where
  "is_ws c = (c \<in> set [CHR '' '', CHR 0x09, CHR 0x0A, CHR 0x0B, CHR 0x0C, CHR 0x0D])"

definition js_trim :: "string \<Rightarrow> string" where
  "js_trim s = rev (dropWhile is_ws (rev (dropWhile is_ws s)))"

definition is_digit :: "char \<Rightarrow> bool" where
  "is_digit c = (c \<in> set ''0123456789'')"

definition digit_val :: "char \<Rightarrow> nat" where
  "digit_val c = of_char c - 48"

definition digits_val :: "string \<Rightarrow> nat" where
  "digits_val ds = foldl (\<lambda>acc c. 10 * acc + digit_val c) 0 ds"

text \<open>JavaScript numbers: NaN, the finite decimals \<open>m * 10 ^ e\<close>, and the two infinities.\<close>

datatype js_number = NaN | Decimal int int | Infinity | Neg_Infinity

text \<open>The number of binary digits of a natural number.\<close>

fun bitlen :: "nat \<Rightarrow> nat" where
  "bitlen n = (if n = 0 then 0 else Suc (bitlen (n div 2)))"

declare bitlen.simps [simp del]

text \<open>
  The double nearest to an integer (round to nearest, ties to even): the integer
  itself while it has at most 53 binary digits; otherwise its leading 53 binary digits,
  rounded, times the power of two cut off; an infinity when the rounded magnitude has
  more than 1024 binary digits, that is, when it reaches \<open>2 ^ 1024\<close>.
\<close>

definition round_to_double :: "int \<Rightarrow> js_number" where
  "round_to_double n =
     (let a = nat \<bar>n\<bar>;
          e = bitlen a - 53;
          q = a div 2 ^ e;
          r = a mod 2 ^ e;
          half = 2 ^ e div 2;
          q' = (if e = 0 then q
                else if half < r \<or> (r = half \<and> odd q) then q + 1 else q);
          m = q' * 2 ^ e
      in if 1024 < bitlen m then (if n < 0 then Neg_Infinity else Infinity)
         else Decimal (if n < 0 then - int m else int m) 0)"

text \<open>
  \<^verbatim>\<open>parseInt(s, 10)\<close>: skip leading white space, read an optional sign, then the
  longest prefix of decimal digits; NaN when there is no digit at that place, otherwise
  the double nearest to the integer read. With the radix given as 10 no \<^verbatim>\<open>0x\<close>
  prefix is recognised. (Beyond 20 significant digits the standard lets an engine read
  zeros for the further digits; the model reads them all.)
\<close>

definition js_parseInt10 :: "string \<Rightarrow> js_number" where
  "js_parseInt10 s =
     (let t = dropWhile is_ws s;
          neg = (case t of [] \<Rightarrow> False | c # _ \<Rightarrow> c = CHR ''-'');
          u = (case t of [] \<Rightarrow> t | c # r \<Rightarrow> if c = CHR ''+'' \<or> c = CHR ''-'' then r else t);
          z = takeWhile is_digit u
      in if z = [] then NaN
         else round_to_double (if neg then - int (digits_val z) else int (digits_val z)))"

definition is_zero :: "js_number \<Rightarrow> bool" where
  "is_zero n = (case n of Decimal m e \<Rightarrow> m = 0 | _ \<Rightarrow> False)"

definition is_positive :: "js_number \<Rightarrow> bool" where
  "is_positive n = (case n of Decimal m e \<Rightarrow> 0 < m | Infinity \<Rightarrow> True | _ \<Rightarrow> False)"

text \<open>\<^verbatim>\<open>x || 0\<close> on a number: NaN and zero are falsy.\<close>

definition or_zero :: "js_number \<Rightarrow> js_number" where
  "or_zero n = (case n of NaN \<Rightarrow> Decimal 0 0
                | Decimal m e \<Rightarrow> if m = 0 then Decimal 0 0 else Decimal m e
                | Infinity \<Rightarrow> Infinity
                | Neg_Infinity \<Rightarrow> Neg_Infinity)"

definition radix_digit :: "char \<Rightarrow> nat" where
  "radix_digit c =
     (if is_digit c then digit_val c
      else if c \<in> set ''abcdef'' then of_char c - 87
      else if c \<in> set ''ABCDEF'' then of_char c - 55
      else 99)"

definition radix_literal :: "nat \<Rightarrow> string \<Rightarrow> js_number" where
  "radix_literal r ds =
     (if ds \<noteq> [] \<and> list_all (\<lambda>c. radix_digit c < r) ds
      then Decimal (int (foldl (\<lambda>acc c. r * acc + radix_digit c) 0 ds)) 0
      else NaN)"

text \<open>
  The exponent part of a decimal literal: nothing, or \<^verbatim>\<open>e\<close>/\<^verbatim>\<open>E\<close>, an optional sign
  and at least one digit, up to the end of the text. \<open>None\<close>: not an exponent part.
\<close>

definition exponent_part :: "string \<Rightarrow> int option" where
  "exponent_part r =
     (case r of
        [] \<Rightarrow> Some 0
      | c # r1 \<Rightarrow>
          if c = CHR ''e'' \<or> c = CHR ''E'' then
            (let neg = (case r1 of [] \<Rightarrow> False | d # _ \<Rightarrow> d = CHR ''-'');
                 ds = (case r1 of [] \<Rightarrow> r1
                       | d # r2 \<Rightarrow> if d = CHR ''+'' \<or> d = CHR ''-'' then r2 else r1)
             in if ds \<noteq> [] \<and> list_all is_digit ds
                then Some (if neg then - int (digits_val ds) else int (digits_val ds))
                else None)
          else None)"

text \<open>
  StrDecimalLiteral without the \<^verbatim>\<open>Infinity\<close> alternative: an optional sign, then
  digits with an optional fraction, or a fraction alone, then an optional exponent.
\<close>

definition str_decimal :: "string \<Rightarrow> js_number" where
  "str_decimal t =
     (let neg = (case t of [] \<Rightarrow> False | c # _ \<Rightarrow> c = CHR ''-'');
          u = (case t of [] \<Rightarrow> t | c # r \<Rightarrow> if c = CHR ''+'' \<or> c = CHR ''-'' then r else t);
          ip = takeWhile is_digit u;
          r1 = dropWhile is_digit u;
          dot = (case r1 of [] \<Rightarrow> False | c # _ \<Rightarrow> c = CHR ''.'');
          fp = (if dot then takeWhile is_digit (tl r1) else []);
          r2 = (if dot then dropWhile is_digit (tl r1) else r1)
      in if ip = [] \<and> fp = [] then NaN
         else case exponent_part r2 of
                None \<Rightarrow> NaN
              | Some ex \<Rightarrow>
                  let m = int (digits_val (ip @ fp))
                  in Decimal (if neg then - m else m) (ex - int (length fp)))"

text \<open>
  \<^verbatim>\<open>Number(s)\<close> on a string (StringToNumber): white space is trimmed, the empty text is
  0, then \<^verbatim>\<open>Infinity\<close>, the unsigned \<^verbatim>\<open>0x\<close>, \<^verbatim>\<open>0o\<close>, \<^verbatim>\<open>0b\<close> literals and the
  decimal literals; anything else is NaN.
\<close>

definition js_Number :: "string \<Rightarrow> js_number" where
  "js_Number s =
     (let t = js_trim s in
      if t = [] then Decimal 0 0
      else if t = ''Infinity'' \<or> t = ''+Infinity'' then Infinity
      else if t = ''-Infinity'' then Neg_Infinity
      else if take 2 t = ''0x'' \<or> take 2 t = ''0X'' then radix_literal 16 (drop 2 t)
      else if take 2 t = ''0o'' \<or> take 2 t = ''0O'' then radix_literal 8 (drop 2 t)
      else if take 2 t = ''0b'' \<or> take 2 t = ''0B'' then radix_literal 2 (drop 2 t)
      else str_decimal t)"

fun digits_of :: "nat \<Rightarrow> string" where
  "digits_of n = (if n < 10 then [''0123456789'' ! n]
                  else digits_of (n div 10) @ [''0123456789'' ! (n mod 10)])"

declare digits_of.simps [simp del]

text \<open>
  \<^verbatim>\<open>String(n)\<close> (Number::toString, radix 10). For a finite non-zero number the
  standard takes the digits \<open>s\<close> (\<open>k\<close> of them, no trailing zero) and the position \<open>n\<close>
  of the decimal point, and prints plain digits, a decimal point, leading zeros or the
  exponent form depending on \<open>n\<close>.
\<close>

definition js_String :: "js_number \<Rightarrow> string" where
  "js_String x =
     (case x of
        NaN \<Rightarrow> ''NaN''
      | Infinity \<Rightarrow> ''Infinity''
      | Neg_Infinity \<Rightarrow> ''-Infinity''
      | Decimal m e \<Rightarrow>
          if m = 0 then ''0''
          else
            (let ds = digits_of (nat \<bar>m\<bar>);
                 n = int (length ds) + e;
                 s = rev (dropWhile (\<lambda>c. c = CHR ''0'') (rev ds));
                 k = int (length s);
                 ex = n - 1;
                 exs = (if ex < 0 then ''-'' else ''+'') @ digits_of (nat \<bar>ex\<bar>)
             in (if m < 0 then ''-'' else '''') @
                (if k \<le> n \<and> n \<le> 21 then s @ replicate (nat (n - k)) (CHR ''0'')
                 else if 0 < n \<and> n \<le> 21 then take (nat n) s @ ''.'' @ drop (nat n) s
                 else if - 6 < n \<and> n \<le> 0 then ''0.'' @ replicate (nat (- n)) (CHR ''0'') @ s
                 else if k = 1 then s @ ''e'' @ exs
                 else take 1 s @ ''.'' @ drop 1 s @ ''e'' @ exs)))"

text \<open>\<^verbatim>\<open>e || d\<close> on an optional string: an absent or empty string is falsy.\<close>

definition or_default :: "string option \<Rightarrow> string \<Rightarrow> string" where
  "or_default e d = (case e of None \<Rightarrow> d | Some m \<Rightarrow> if m = [] then d else m)"

section \<open>The page state\<close>

text \<open>
  A snapshot as \<^verbatim>\<open>GET /api/positions/{product}\<close> returns it: contract ids and rows,
  a row having a name and its lots. A field that is absent (or falsy) in the decoded
  body is \<open>None\<close>; the script replaces it by the empty array
  (\<^verbatim>\<open>data.contracts || []\<close>, \<^verbatim>\<open>data.rows || []\<close>, \<^verbatim>\<open>row.lots || []\<close>).
  Lot counts are integers. \<open>row_rest\<close> is what else the JSON text of the row object
  depends on and the script does not read: further members, the order of the members,
  and what stands where the lots array is missing (nothing, or \<^verbatim>\<open>null\<close>).
\<close>

record row =
  row_name :: string
  row_lots :: "int list option"
  row_rest :: string

record positions_data =
  data_contracts :: "string list option"
  data_rows :: "row list option"

text \<open>
  The fingerprint is \<^verbatim>\<open>JSON.stringify({ contracts, rows })\<close>, compared with
  \<^verbatim>\<open>===\<close>. The serialisation is injective on what it prints, so the text is
  represented by that: the contracts, and of each row its name, its lots and the rest.
\<close>

datatype fingerprint = Fingerprint "string list" "row list"

definition JSON_stringify :: "string list \<Rightarrow> row list \<Rightarrow> fingerprint" where
  "JSON_stringify contracts rows = Fingerprint contracts rows"

text \<open>
  A grid cell (\<^verbatim>\<open>div.cell.total-cell\<close>): its data attributes, the text and class
  of its \<^verbatim>\<open>span\<close>, whether it carries the classes \<^verbatim>\<open>selected\<close> and
  \<^verbatim>\<open>total-row-disabled\<close>, and whether a click listener is attached to it.
\<close>

datatype css_class = CSS_zero | CSS_positive | CSS_negative

record cell =
  dataset_structure :: string
  dataset_contract :: string
  span_text :: string
  span_class :: css_class
  selected :: bool
  total_row_disabled :: bool
  click_handler :: bool

text \<open>
  An entry of \<^verbatim>\<open>window._selectedCells\<close>. The field \<^verbatim>\<open>element\<close> is a reference
  to a DOM element: here the address of the cell in \<open>elements\<close>, the store of all
  cell elements built so far. An element that is no longer in the document stays in the
  store, as it stays alive in the browser while an entry refers to it.
\<close>

record selected_cell =
  s_key :: string
  s_structure :: string
  s_contract :: string
  s_element :: nat
  s_value :: string

record grid_table =
  headers :: "string list"
  body_rows :: "(string \<times> nat list) list"
  scrollLeft :: nat

text \<open>What \<^verbatim>\<open>#positions-grid\<close> holds.\<close>

datatype container_view =
    Initial_markup
  | Loading_placeholder
  | No_positions string
  | Error_loading string
  | Grid grid_table

text \<open>
  What \<^verbatim>\<open>#selection-panel\<close> holds: one item per entry (label, number input, remove
  button) and, when there is one, the label of the apply button.
\<close>

record panel_item =
  item_structure :: string
  item_contract :: string
  input_value :: string

datatype panel_view = Panel "panel_item list" "string option"

text \<open>
  The outcome of \<^verbatim>\<open>await fetch(...)\<close> followed by \<^verbatim>\<open>await resp.json()\<close>: the
  fetch is rejected (with a message), or there is a response with its \<^verbatim>\<open>ok\<close> flag
  and a body that decodes or does not (with the decoder's message). A decoded body is a
  JSON object.
\<close>

datatype 'a body = Undecodable string | Decoded 'a

datatype 'a http = Rejected string | Response bool "'a body"

text \<open>
  Values of JavaScript, as far as a strategy pattern is concerned: what the operator's
  text evaluates to, and what the backend sends as the expected pattern. \<open>JCycle\<close>
  stands, inside an array or object, for a reference back to an enclosing one.
\<close>

datatype js_value =
    JUndefined
  | JNull
  | JBool bool
  | JNum int
  | JBigInt int
  | JStr string
  | JArr "js_value list"
  | JObj "(string \<times> js_value) list"
  | JCycle

text \<open>
  The body of a response of \<^verbatim>\<open>POST /api/implement_hedge\<close>, by the fields the
  script reads: \<^verbatim>\<open>error\<close>, \<^verbatim>\<open>missing\<close> (present when it is an array),
  \<^verbatim>\<open>payload.pattern\<close> (present when \<^verbatim>\<open>payload\<close> is truthy), and the three facts
  of an applied hedge.
\<close>

record hedge_data =
  hd_error :: "string option"
  hd_missing :: "string list option"
  hd_payload_pattern :: "js_value option"
  hedged_name :: string
  base_contract :: string
  hedged_lots :: int

record create_data =
  cd_error :: "string option"

record hedge_payload =
  hp_product :: string
  lis_structure_names :: "string list"
  lis_starting_contracts :: "string list"
  lis_num_lots :: "js_number list"

datatype request =
    Get_positions string
  | Implement_hedge hedge_payload
  | Create_strategy string js_value

text \<open>Who started a snapshot fetch that is in flight.\<close>

datatype origin = Initial_load | Timer_tick | Product_change | After_hedge hedge_data

text \<open>
  The page. \<open>product_select\<close>, \<open>positions_grid\<close> and \<open>selection_panel\<close> are \<open>None\<close>
  when the document has no such element (the script tests for each).
  \<^verbatim>\<open>window._prevDataJSON\<close> is \<open>None\<close> while it is \<^verbatim>\<open>undefined\<close> or \<^verbatim>\<open>null\<close>.
  \<^verbatim>\<open>window._selectedCells\<close> is \<open>[]\<close> also while it is \<^verbatim>\<open>undefined\<close>: the script
  reads it through \<^verbatim>\<open>|| []\<close> or after a test, and pushes to it only from a click
  listener, which exists only after the array was assigned.
  \<open>in_flight\<close> are the snapshot fetches awaiting their response, each with its origin
  and the product it asked for; \<open>timers\<close> counts the interval timers set.
  \<open>alerts\<close>, \<open>console\<close> and \<open>requests\<close> record, in order, what the page showed
  through \<^verbatim>\<open>alert\<close>, wrote to the console and sent to the backend.
\<close>

record page =
  product_select :: "string option"
  positions_grid :: "container_view option"
  selection_panel :: "panel_view option"
  elements :: "cell list"
  prevDataJSON :: "fingerprint option"
  selectedCells :: "selected_cell list"
  isLoading :: bool
  in_flight :: "(origin \<times> string) list"
  timers :: nat
  alerts :: "string list"
  console :: "string list"
  requests :: "request list"

section \<open>Selection: clearSelection, renderSelectionPanel, toggleCellSelection\<close>

definition update_element :: "nat \<Rightarrow> (cell \<Rightarrow> cell) \<Rightarrow> cell list \<Rightarrow> cell list" where
  "update_element a f es = (if a < length es then es[a := f (es ! a)] else es)"

definition panel_items :: "selected_cell list \<Rightarrow> panel_item list" where
  "panel_items ss =
     map (\<lambda>s. \<lparr>item_structure = s_structure s, item_contract = s_contract s,
               input_value = s_value s\<rparr>) ss"

text \<open>
  \<^verbatim>\<open>renderSelectionPanel\<close>: nothing without the panel; the panel is emptied; with a
  non-empty selection the items and the apply button are appended at the end. Reading
  the product for the button's label throws when there is no selector, which leaves the
  panel empty.
\<close>

definition renderSelectionPanel :: "page \<Rightarrow> page" where
  "renderSelectionPanel p =
     (case selection_panel p of
        None \<Rightarrow> p
      | Some _ \<Rightarrow>
          if selectedCells p = [] then p\<lparr>selection_panel := Some (Panel [] None)\<rparr>
          else (case product_select p of
                  None \<Rightarrow> p\<lparr>selection_panel := Some (Panel [] None)\<rparr>
                | Some product \<Rightarrow>
                    p\<lparr>selection_panel :=
                         Some (Panel (panel_items (selectedCells p))
                                 (Some (''Apply Hedge ('' @ product @ '')'')))\<rparr>))"

text \<open>\<^verbatim>\<open>clearSelection\<close>: every entry's element loses \<^verbatim>\<open>selected\<close>, the array is
  replaced by an empty one, the panel (if any) is emptied.\<close>

definition clearSelection :: "page \<Rightarrow> page" where
  "clearSelection p =
     p\<lparr>elements := fold (\<lambda>s es. update_element (s_element s) (\<lambda>c. c\<lparr>selected := False\<rparr>) es)
                      (selectedCells p) (elements p),
       selectedCells := [],
       selection_panel := (case selection_panel p of None \<Rightarrow> None
                           | Some _ \<Rightarrow> Some (Panel [] None))\<rparr>"

text \<open>\<^verbatim>\<open>findIndex\<close>: the first index whose entry satisfies the test, if any.\<close>

fun findIndex :: "('a \<Rightarrow> bool) \<Rightarrow> 'a list \<Rightarrow> nat option" where
  "findIndex P [] = None"
| "findIndex P (x # xs) =
     (if P x then Some 0 else map_option Suc (findIndex P xs))"

definition remove_nth :: "nat \<Rightarrow> 'a list \<Rightarrow> 'a list" where
  "remove_nth i xs = take i xs @ drop (Suc i) xs"

text \<open>
  \<^verbatim>\<open>toggleCellSelection(cell)\<close>, the cell given by its address \<open>a\<close>. The key is
  \<^verbatim>\<open>`${structure}||${contract}`\<close>; an entry with that key is removed and its element
  deselected, otherwise a new entry is pushed with the displayed text as its value and
  the cell is marked selected. The panel is rendered again.
\<close>

definition toggleCellSelection :: "nat \<Rightarrow> page \<Rightarrow> page" where
  "toggleCellSelection a p =
     (case selection_panel p of
        None \<Rightarrow> p
      | Some _ \<Rightarrow>
          let c = elements p ! a;
              displayed = js_trim (span_text c);
              k = dataset_structure c @ ''||'' @ dataset_contract c
          in renderSelectionPanel
               (case findIndex (\<lambda>s. s_key s = k) (selectedCells p) of
                  Some idx \<Rightarrow>
                    p\<lparr>elements := update_element (s_element (selectedCells p ! idx))
                                     (\<lambda>c. c\<lparr>selected := False\<rparr>) (elements p),
                      selectedCells := remove_nth idx (selectedCells p)\<rparr>
                | None \<Rightarrow>
                    p\<lparr>elements := update_element a (\<lambda>c. c\<lparr>selected := True\<rparr>) (elements p),
                      selectedCells := selectedCells p @
                        [\<lparr>s_key = k, s_structure = dataset_structure c,
                          s_contract = dataset_contract c, s_element = a,
                          s_value = displayed\<rparr>]\<rparr>))"

text \<open>The click listener attached to a cell: a click without Ctrl clears the selection
  first.\<close>

definition cell_onclick :: "nat \<Rightarrow> bool \<Rightarrow> page \<Rightarrow> page" where
  "cell_onclick a ctrlKey p =
     toggleCellSelection a (if \<not> ctrlKey then clearSelection p else p)"

text \<open>
  The \<^verbatim>\<open>oninput\<close> listener of the \<open>i\<close>-th panel item, for the text \<open>v\<close> of the input:
  the entry's value becomes \<open>v\<close>, and the entry's cell shows
  \<^verbatim>\<open>Number(s.value) || 0\<close>: blank with class zero, or the number with class positive
  or negative.
\<close>

definition oninput_valNum :: "string \<Rightarrow> js_number" where
  "oninput_valNum v = or_zero (js_Number v)"

definition oninput :: "nat \<Rightarrow> string \<Rightarrow> page \<Rightarrow> page" where
  "oninput i v p =
     (let s = selectedCells p ! i;
          valNum = oninput_valNum v
      in p\<lparr>selectedCells := (selectedCells p)[i := s\<lparr>s_value := v\<rparr>],
           elements := update_element (s_element s)
             (\<lambda>c. c\<lparr>span_text := (if is_zero valNum then '''' else js_String valNum),
                    span_class := (if is_zero valNum then CSS_zero
                                   else if is_positive valNum then CSS_positive
                                   else CSS_negative)\<rparr>)
             (elements p),
           selection_panel :=
             (case selection_panel p of
                None \<Rightarrow> None
              | Some (Panel items button) \<Rightarrow>
                  Some (Panel (items[i := (items ! i)\<lparr>input_value := v\<rparr>]) button))\<rparr>)"

text \<open>The \<^verbatim>\<open>onclick\<close> listener of the remove button of the \<open>i\<close>-th panel item.\<close>

definition remove_onclick :: "nat \<Rightarrow> page \<Rightarrow> page" where
  "remove_onclick i p =
     (let s = selectedCells p ! i
      in renderSelectionPanel
           (p\<lparr>elements := update_element (s_element s) (\<lambda>c. c\<lparr>selected := False\<rparr>) (elements p),
              selectedCells := filter (\<lambda>x. s_key x \<noteq> s_key s) (selectedCells p)\<rparr>))"

section \<open>Rendering: attachCellSelectionHandlers, buildGrid, loadPositions\<close>

text \<open>The cells in the document (\<^verbatim>\<open>.grid .cell.total-cell\<close>), in document order.\<close>

definition displayed_cells :: "page \<Rightarrow> nat list" where
  "displayed_cells p =
     (case positions_grid p of
        Some (Grid g) \<Rightarrow> concat (map snd (body_rows g))
      | _ \<Rightarrow> [])"

text \<open>
  \<^verbatim>\<open>attachCellSelectionHandlers\<close>: nothing without the panel. Otherwise the panel is
  emptied, the selection is replaced by an empty array, and every cell in the document
  either is in the row named Total, and gets the class \<^verbatim>\<open>total-row-disabled\<close> and no
  listener, or gets the click listener.
\<close>

definition attach_cell :: "cell \<Rightarrow> cell" where
  "attach_cell c =
     (if dataset_structure c = ''Total'' then c\<lparr>total_row_disabled := True\<rparr>
      else c\<lparr>click_handler := True\<rparr>)"

definition attachCellSelectionHandlers :: "page \<Rightarrow> page" where
  "attachCellSelectionHandlers p =
     (case selection_panel p of
        None \<Rightarrow> p
      | Some _ \<Rightarrow>
          p\<lparr>selection_panel := Some (Panel [] None),
            selectedCells := [],
            elements := fold (\<lambda>a es. update_element a attach_cell es)
                          (displayed_cells p) (elements p)\<rparr>)"

definition lots_of :: "row \<Rightarrow> int list" where
  "lots_of r = (case row_lots r of None \<Rightarrow> [] | Some ls \<Rightarrow> ls)"

text \<open>One cell of \<^verbatim>\<open>buildGrid\<close>: the lot \<open>l\<close> at index \<open>idx\<close> of the row named
  \<open>rname\<close>. \<^verbatim>\<open>contracts[idx] || ''\<close> is the empty text beyond the contracts.\<close>

definition make_cell :: "string list \<Rightarrow> string \<Rightarrow> nat \<Rightarrow> int \<Rightarrow> cell" where
  "make_cell contracts rname idx l =
     \<lparr>dataset_structure = rname,
      dataset_contract = (if idx < length contracts then contracts ! idx else ''''),
      span_text = (if l = 0 then '''' else js_String (Decimal l 0)),
      span_class = (if l = 0 then CSS_zero else if 0 < l then CSS_positive else CSS_negative),
      selected = False,
      total_row_disabled = False,
      click_handler = False\<rparr>"

definition row_cells :: "string list \<Rightarrow> row \<Rightarrow> cell list" where
  "row_cells contracts r =
     map (\<lambda>(idx, l). make_cell contracts (row_name r) idx l) (enumerate 0 (lots_of r))"

text \<open>The rows of the new grid: each label with the addresses of its cells, the cells
  being stored from address \<open>base\<close> on, row after row.\<close>

fun place_rows :: "nat \<Rightarrow> row list \<Rightarrow> (string \<times> nat list) list" where
  "place_rows base [] = []"
| "place_rows base (r # rs) =
     (row_name r, [base ..< base + length (lots_of r)])
       # place_rows (base + length (lots_of r)) rs"

text \<open>
  \<^verbatim>\<open>buildGrid(contracts, rows, restoreScrollLeft)\<close>: the container gets a new grid
  of new cells, its horizontal scroll offset is \<open>restoreScrollLeft\<close> (0 when that is 0),
  and the listeners are attached. It is called by \<open>loadPositions\<close> only, after the
  container was found.
\<close>

definition buildGrid :: "string list \<Rightarrow> row list \<Rightarrow> nat \<Rightarrow> page \<Rightarrow> page" where
  "buildGrid contracts rows restoreScrollLeft p =
     attachCellSelectionHandlers
       (p\<lparr>elements := elements p @ concat (map (row_cells contracts) rows),
          positions_grid :=
            Some (Grid \<lparr>headers = contracts,
                        body_rows = place_rows (length (elements p)) rows,
                        scrollLeft = restoreScrollLeft\<rparr>)\<rparr>)"

text \<open>The \<^verbatim>\<open>catch\<close> block of \<open>loadPositions\<close>: the error is logged and shown in the
  container, or through \<^verbatim>\<open>alert\<close> when there is no container.\<close>

definition loading_failed :: "string \<Rightarrow> page \<Rightarrow> page" where
  "loading_failed msg p =
     (case positions_grid p of
        Some _ \<Rightarrow> p\<lparr>console := console p @ [msg],
                    positions_grid := Some (Error_loading msg)\<rparr>
      | None \<Rightarrow> p\<lparr>console := console p @ [msg],
                  alerts := alerts p @ [''Error loading data: '' @ msg]\<rparr>)"

text \<open>
  \<open>loadPositions\<close> once the body is decoded: without the container, a console error
  and nothing else. The fingerprint of the (defaulted) contracts and rows is compared
  with \<^verbatim>\<open>window._prevDataJSON\<close>: when equal, return. Otherwise the scroll offset of
  the present grid (0 when there is none) is read, and either the snapshot is empty, the
  placeholder is shown and the fingerprint stored, or the grid is built and the
  fingerprint stored.
\<close>

definition contracts_or_empty :: "positions_data \<Rightarrow> string list" where
  "contracts_or_empty data = (case data_contracts data of None \<Rightarrow> [] | Some cs \<Rightarrow> cs)"

definition rows_or_empty :: "positions_data \<Rightarrow> row list" where
  "rows_or_empty data = (case data_rows data of None \<Rightarrow> [] | Some rs \<Rightarrow> rs)"

definition snapshot_fingerprint :: "positions_data \<Rightarrow> fingerprint" where
  "snapshot_fingerprint data = JSON_stringify (contracts_or_empty data) (rows_or_empty data)"

definition render_positions :: "string \<Rightarrow> positions_data \<Rightarrow> page \<Rightarrow> page" where
  "render_positions product data p =
     (case positions_grid p of
        None \<Rightarrow> p\<lparr>console := console p @ [''positions-grid container not found in DOM'']\<rparr>
      | Some view \<Rightarrow>
          let contracts = contracts_or_empty data;
              rows = rows_or_empty data;
              dataJSON = snapshot_fingerprint data
          in if prevDataJSON p = Some dataJSON then p
             else
               let oldScrollLeft = (case view of Grid g \<Rightarrow> scrollLeft g | _ \<Rightarrow> 0)
               in if contracts = [] \<and> rows = []
                  then p\<lparr>positions_grid := Some (No_positions product),
                         prevDataJSON := Some dataJSON\<rparr>
                  else (buildGrid contracts rows oldScrollLeft p)\<lparr>prevDataJSON := Some dataJSON\<rparr>)"

text \<open>The product a call of \<open>loadPositions\<close> asks for: the selector's value, or CL
  without a selector.\<close>

definition current_product :: "page \<Rightarrow> string" where
  "current_product p = (case product_select p of None \<Rightarrow> ''CL'' | Some v \<Rightarrow> v)"

text \<open>
  \<open>loadPositions\<close> is asynchronous. \<open>loadPositions_start\<close> is its part before the
  first \<^verbatim>\<open>await\<close>: the request leaves. \<open>loadPositions_resume\<close> is the rest, run when
  the response has come: \<open>product\<close> is the product read at the start.
\<close>

definition loadPositions_start :: "origin \<Rightarrow> page \<Rightarrow> page" where
  "loadPositions_start who p =
     p\<lparr>in_flight := in_flight p @ [(who, current_product p)],
       requests := requests p @ [Get_positions (current_product p)]\<rparr>"

definition loadPositions_resume :: "string \<Rightarrow> positions_data http \<Rightarrow> page \<Rightarrow> page" where
  "loadPositions_resume product resp p =
     (case resp of
        Rejected msg \<Rightarrow> loading_failed msg p
      | Response ok b \<Rightarrow>
          if \<not> ok then loading_failed ''Network response was not ok'' p
          else (case b of
                  Undecodable msg \<Rightarrow> loading_failed msg p
                | Decoded data \<Rightarrow> render_positions product data p))"

text \<open>\<open>await loadPositions()\<close> with nothing else running in between: the request
  leaves and the response \<open>resp\<close> is handled.\<close>

definition loadPositions :: "positions_data http \<Rightarrow> page \<Rightarrow> page" where
  "loadPositions resp p =
     loadPositions_resume (current_product p) resp
       (p\<lparr>requests := requests p @ [Get_positions (current_product p)]\<rparr>)"

section \<open>The hedge application: applyHedgeFromSelection\<close>

text \<open>
  What the world answers during one run of \<open>applyHedgeFromSelection\<close>: the response
  to the first \<^verbatim>\<open>POST /api/implement_hedge\<close>, the operator's answer to the \<open>i\<close>-th
  \<^verbatim>\<open>window.prompt\<close> (\<open>None\<close>: cancelled), the response to the \<open>i\<close>-th
  \<^verbatim>\<open>POST /api/create_strategy\<close>, and the response to the second
  \<^verbatim>\<open>POST /api/implement_hedge\<close>.

  \<open>js_eval\<close> is the built-in \<^verbatim>\<open>eval\<close> on the operator's text, given by its result:
  the value of the text, or \<open>None\<close> when evaluating it throws. The script calls
  \<^verbatim>\<open>eval\<close> directly, so the text runs with the page and the variables of the
  listener in scope; the model covers the texts that are evaluated for their value
  alone, and what a text may do besides having a value is outside it.
  \<open>stringify_error\<close> is the message of the TypeError that the engine's
  \<^verbatim>\<open>JSON.stringify\<close> throws on a value it cannot print.
\<close>

record environment =
  first_response :: "hedge_data http"
  prompt_answer :: "nat \<Rightarrow> string option"
  js_eval :: "string \<Rightarrow> js_value option"
  stringify_error :: string
  create_response :: "nat \<Rightarrow> create_data http"
  retry_response :: "hedge_data http"

text \<open>\<^verbatim>\<open>parseInt(String(s.value).trim(), 10) || 0\<close>\<close>

definition parse_lots :: "string \<Rightarrow> js_number" where
  "parse_lots v = or_zero (js_parseInt10 (js_trim v))"

text \<open>The payload: one push to each of the three arrays per entry, in the order of the
  selection. A request holds the payload as the script builds it;
  \<^verbatim>\<open>JSON.stringify\<close> then prints an infinity among the lots as \<^verbatim>\<open>null\<close>.\<close>

definition build_payload :: "string \<Rightarrow> selected_cell list \<Rightarrow> hedge_payload" where
  "build_payload product ss =
     \<lparr>hp_product = product,
      lis_structure_names = map s_structure ss,
      lis_starting_contracts = map s_contract ss,
      lis_num_lots = map (\<lambda>s. parse_lots (s_value s)) ss\<rparr>"

text \<open>
  \<^verbatim>\<open>pattern = eval(userInput); if (!Array.isArray(pattern)) throw ...\<close> inside its own
  \<^verbatim>\<open>try\<close>: \<open>None\<close> when the evaluation throws or the value is not an array.
\<close>

definition eval_pattern :: "environment \<Rightarrow> string \<Rightarrow> js_value option" where
  "eval_pattern env userInput =
     (case js_eval env userInput of
        Some (JArr xs) \<Rightarrow> Some (JArr xs)
      | _ \<Rightarrow> None)"

text \<open>
  After \<^verbatim>\<open>POST /api/create_strategy\<close>: the message of the error thrown, if any
  (the fetch or the decoding failed, or the response is not ok and the message is
  \<^verbatim>\<open>createData.error || 'Failed to create strategy ' + name\<close>).
\<close>

definition create_failure :: "create_data http \<Rightarrow> string \<Rightarrow> string option" where
  "create_failure r name =
     (case r of
        Rejected msg \<Rightarrow> Some msg
      | Response ok b \<Rightarrow>
          (case b of
             Undecodable msg \<Rightarrow> Some msg
           | Decoded d \<Rightarrow>
               if ok then None
               else Some (or_default (cd_error d) (''Failed to create strategy '' @ name))))"

text \<open>After the second \<^verbatim>\<open>POST /api/implement_hedge\<close>: the error thrown (\<open>Inl\<close>), or
  the body of the accepted hedge.\<close>

definition retry_result :: "hedge_data http \<Rightarrow> string + hedge_data" where
  "retry_result r =
     (case r of
        Rejected msg \<Rightarrow> Inl msg
      | Response ok b \<Rightarrow>
          (case b of
             Undecodable msg \<Rightarrow> Inl msg
           | Decoded d \<Rightarrow>
               if ok then Inr d
               else Inl (or_default (hd_error d) ''Implement hedge failed on retry'')))"

text \<open>
  \<^verbatim>\<open>JSON.stringify\<close> prints a value unless there is a BigInt or a cycle in it.
\<close>

fun json_printable :: "js_value \<Rightarrow> bool" where
  "json_printable (JBigInt n) = False"
| "json_printable JCycle = False"
| "json_printable (JArr xs) = list_all json_printable xs"
| "json_printable (JObj ms) = list_all (\<lambda>m. json_printable (snd m)) ms"
| "json_printable v = True"

text \<open>
  The loop \<^verbatim>\<open>for (const missingName of data.missing)\<close>, from the \<open>i\<close>-th prompt on:
  the create-strategy requests sent, and the message of the error that ended the loop,
  if one did. The body of the create request is \<^verbatim>\<open>JSON.stringify\<close> of the name and
  the pattern: on a pattern that cannot be printed it throws and no request is sent.
\<close>

fun create_missing :: "environment \<Rightarrow> nat \<Rightarrow> string list \<Rightarrow> request list \<times> string option" where
  "create_missing env i [] = ([], None)"
| "create_missing env i (missingName # rest) =
     (case prompt_answer env i of
        None \<Rightarrow> ([], Some ''Operation cancelled by user'')
      | Some userInput \<Rightarrow>
          (case eval_pattern env userInput of
             None \<Rightarrow> ([], Some (''Invalid pattern provided for '' @ missingName))
           | Some pattern \<Rightarrow>
               if \<not> json_printable pattern then ([], Some (stringify_error env))
               else
                 (case create_failure (create_response env i) missingName of
                    Some msg \<Rightarrow> ([Create_strategy missingName pattern], Some msg)
                  | None \<Rightarrow>
                      (Create_strategy missingName pattern # fst (create_missing env (Suc i) rest),
                       snd (create_missing env (Suc i) rest)))))"

text \<open>
  The \<^verbatim>\<open>try\<close> block up to the success path: the requests sent, and the error thrown
  (\<open>Inl\<close>) or the body of the accepted hedge (\<open>Inr\<close>). The body of the first response is
  decoded before its \<^verbatim>\<open>ok\<close> flag is read. The pattern of the missing-hedged-pattern
  state comes out of a decoded body and so can be printed.
\<close>

definition submit_hedge ::
  "environment \<Rightarrow> hedge_payload \<Rightarrow> request list \<times> (string + hedge_data)" where
  "submit_hedge env payload =
     (case first_response env of
        Rejected msg \<Rightarrow> ([Implement_hedge payload], Inl msg)
      | Response ok b \<Rightarrow>
          (case b of
             Undecodable msg \<Rightarrow> ([Implement_hedge payload], Inl msg)
           | Decoded data \<Rightarrow>
               if ok then ([Implement_hedge payload], Inr data)
               else if hd_error data = Some ''missing_strategies'' \<and> hd_missing data \<noteq> None then
                 (case create_missing env 0 (case hd_missing data of None \<Rightarrow> [] | Some ms \<Rightarrow> ms) of
                    (created, Some msg) \<Rightarrow> (Implement_hedge payload # created, Inl msg)
                  | (created, None) \<Rightarrow>
                      (Implement_hedge payload # created @ [Implement_hedge payload],
                       retry_result (retry_response env)))
               else if hd_error data = Some ''missing_hedged_pattern'' \<and> hd_payload_pattern data \<noteq> None then
                 (case prompt_answer env 0 of
                    None \<Rightarrow> ([Implement_hedge payload], Inl ''Operation cancelled by user'')
                  | Some suggested \<Rightarrow>
                      (let pattern = (case hd_payload_pattern data of None \<Rightarrow> JUndefined | Some v \<Rightarrow> v)
                       in case create_failure (create_response env 0) suggested of
                            Some msg \<Rightarrow>
                              ([Implement_hedge payload, Create_strategy suggested pattern], Inl msg)
                          | None \<Rightarrow>
                              ([Implement_hedge payload, Create_strategy suggested pattern,
                                Implement_hedge payload],
                               retry_result (retry_response env))))
               else ([Implement_hedge payload],
                     Inl (or_default (hd_error data) ''Implement hedge failed''))))"

text \<open>The \<^verbatim>\<open>catch\<close> block: \<^verbatim>\<open>alert('Error: ' + err.message)\<close> and a console error.\<close>

definition hedge_failed :: "string \<Rightarrow> page \<Rightarrow> page" where
  "hedge_failed msg p =
     p\<lparr>alerts := alerts p @ [''Error: '' @ msg], console := console p @ [msg]\<rparr>"

text \<open>The text of \<^verbatim>\<open>console.log\<close> after an accepted hedge.\<close>

definition hedge_confirmation :: "hedge_data \<Rightarrow> string" where
  "hedge_confirmation d =
     ''Hedge applied: '' @ hedged_name d @ '' @ '' @ base_contract d @
     '' (+'' @ js_String (Decimal (hedged_lots d) 0) @ '')''"

text \<open>
  \<open>applyHedgeFromSelection\<close>, the listener of the apply button, up to the
  \<^verbatim>\<open>await loadPositions()\<close> of the success path. Nothing happens with an empty
  selection; without a selector reading its value throws before the \<^verbatim>\<open>try\<close>.
\<close>

definition apply_onclick :: "environment \<Rightarrow> page \<Rightarrow> page" where
  "apply_onclick env p =
     (if selectedCells p = [] then p
      else case product_select p of
             None \<Rightarrow> p
           | Some product \<Rightarrow>
               (let sent = fst (submit_hedge env (build_payload product (selectedCells p)));
                    p1 = p\<lparr>requests := requests p @ sent\<rparr>
                in case snd (submit_hedge env (build_payload product (selectedCells p))) of
                     Inl msg \<Rightarrow> hedge_failed msg p1
                   | Inr data \<Rightarrow> loadPositions_start (After_hedge data) (clearSelection p1)))"

text \<open>
  \<open>applyHedgeFromSelection\<close> as one run, with nothing else running in between:
  \<open>refresh\<close> is the response to the snapshot request of the success path.
\<close>

definition applyHedgeFromSelection :: "environment \<Rightarrow> positions_data http \<Rightarrow> page \<Rightarrow> page" where
  "applyHedgeFromSelection env refresh p =
     (if selectedCells p = [] then p
      else case product_select p of
             None \<Rightarrow> p
           | Some product \<Rightarrow>
               (let sent = fst (submit_hedge env (build_payload product (selectedCells p)));
                    p1 = p\<lparr>requests := requests p @ sent\<rparr>
                in case snd (submit_hedge env (build_payload product (selectedCells p))) of
                     Inl msg \<Rightarrow> hedge_failed msg p1
                   | Inr data \<Rightarrow>
                       (let p2 = loadPositions refresh (clearSelection p1)
                        in p2\<lparr>console := console p2 @ [hedge_confirmation data]\<rparr>)))"

section \<open>Events: the poll loop, the selector, and the page as a whole\<close>

text \<open>The callback given to \<^verbatim>\<open>setInterval\<close>, up to its \<^verbatim>\<open>await\<close>: a tick while
  \<^verbatim>\<open>_isLoading\<close> returns at once; otherwise the flag is set and a fetch starts.\<close>

definition timer_callback :: "page \<Rightarrow> page" where
  "timer_callback p =
     (if isLoading p then p
      else loadPositions_start Timer_tick (p\<lparr>isLoading := True\<rparr>))"

text \<open>
  The \<^verbatim>\<open>change\<close> listener of the selector: the fingerprint is set to \<^verbatim>\<open>null\<close>, the
  container shows the loading placeholder (without a container this throws and the
  listener ends), and \<open>loadPositions\<close> is called without \<^verbatim>\<open>await\<close>.
\<close>

definition selector_onchange :: "page \<Rightarrow> page" where
  "selector_onchange p =
     (case positions_grid p of
        None \<Rightarrow> p\<lparr>prevDataJSON := None\<rparr>
      | Some _ \<Rightarrow>
          loadPositions_start Product_change
            (p\<lparr>prevDataJSON := None, positions_grid := Some Loading_placeholder\<rparr>))"

text \<open>
  A snapshot fetch in flight gets its response: \<open>loadPositions\<close> resumes, and then its
  caller does. \<open>pollLoop\<close> sets the interval timer after its first \<open>loadPositions\<close>;
  the timer callback resets \<^verbatim>\<open>_isLoading\<close> in its \<^verbatim>\<open>finally\<close>; the change listener
  does nothing more; \<open>applyHedgeFromSelection\<close> logs the confirmation.
\<close>

definition fetch_completes :: "nat \<Rightarrow> positions_data http \<Rightarrow> page \<Rightarrow> page" where
  "fetch_completes i resp p =
     (if i < length (in_flight p) then
        (let p1 = loadPositions_resume (snd (in_flight p ! i)) resp
                    (p\<lparr>in_flight := remove_nth i (in_flight p)\<rparr>)
         in case fst (in_flight p ! i) of
              Initial_load \<Rightarrow> p1\<lparr>timers := Suc (timers p1)\<rparr>
            | Timer_tick \<Rightarrow> p1\<lparr>isLoading := False\<rparr>
            | Product_change \<Rightarrow> p1
            | After_hedge data \<Rightarrow> p1\<lparr>console := console p1 @ [hedge_confirmation data]\<rparr>)
      else p)"

text \<open>\<open>pollLoop\<close> up to its first \<^verbatim>\<open>await\<close>: its \<open>loadPositions\<close> has started.
  The interval timer is set when that fetch completes (see \<open>fetch_completes\<close>).\<close>

definition pollLoop :: "page \<Rightarrow> page" where
  "pollLoop p = loadPositions_start Initial_load p"

text \<open>
  The page when the \<^verbatim>\<open>DOMContentLoaded\<close> listener has run: the change listener is
  registered if there is a selector, and \<open>pollLoop\<close> has started its first
  \<open>loadPositions\<close>. The arguments say which of the three elements the document has.
\<close>

definition DOMContentLoaded :: "string option \<Rightarrow> bool \<Rightarrow> bool \<Rightarrow> page" where
  "DOMContentLoaded selector has_grid has_panel =
     pollLoop
       \<lparr>product_select = selector,
        positions_grid = (if has_grid then Some Initial_markup else None),
        selection_panel = (if has_panel then Some (Panel [] None) else None),
        elements = [],
        prevDataJSON = None,
        selectedCells = [],
        isLoading = False,
        in_flight = [],
        timers = 0,
        alerts = [],
        console = [],
        requests = []\<rparr>"

text \<open>
  What can happen to the page afterwards: a response arrives for the \<open>i\<close>-th fetch in
  flight; the interval timer fires; the operator picks another product, clicks a cell of
  the grid (with or without Ctrl), types into the \<open>i\<close>-th input of the panel, clicks its
  remove button, or clicks the apply button (the run's network and prompt answers
  given). The run of the apply button is taken in one piece up to its snapshot request,
  with no other event between its requests and prompts. The text of
  an input is whatever the browser hands to the listener; for an input of type number
  that is a floating-point literal or the empty text.
\<close>

datatype event =
    Fetch_completes nat "positions_data http"
  | Timer_fires
  | Product_changed string
  | Cell_clicked nat bool
  | Input_edited nat string
  | Remove_clicked nat
  | Apply_clicked environment

definition shown_items :: "page \<Rightarrow> nat" where
  "shown_items p = (case selection_panel p of None \<Rightarrow> 0 | Some (Panel items button) \<Rightarrow> length items)"

definition apply_button_shown :: "page \<Rightarrow> bool" where
  "apply_button_shown p =
     (case selection_panel p of None \<Rightarrow> False | Some (Panel items button) \<Rightarrow> button \<noteq> None)"

fun step :: "event \<Rightarrow> page \<Rightarrow> page" where
  "step (Fetch_completes i resp) p = fetch_completes i resp p"
| "step Timer_fires p = (if timers p = 0 then p else timer_callback p)"
| "step (Product_changed v) p =
     (case product_select p of
        None \<Rightarrow> p
      | Some _ \<Rightarrow> selector_onchange (p\<lparr>product_select := Some v\<rparr>))"
| "step (Cell_clicked a ctrlKey) p =
     (if List.member (displayed_cells p) a \<and> a < length (elements p) \<and> click_handler (elements p ! a)
      then cell_onclick a ctrlKey p else p)"
| "step (Input_edited i v) p =
     (if i < shown_items p \<and> i < length (selectedCells p) then oninput i v p else p)"
| "step (Remove_clicked i) p =
     (if i < shown_items p \<and> i < length (selectedCells p) then remove_onclick i p else p)"
| "step (Apply_clicked env) p =
     (if apply_button_shown p then apply_onclick env p else p)"

definition run_events :: "event list \<Rightarrow> page \<Rightarrow> page" where
  "run_events es p = fold step es p"

text \<open>The events by which the operator works on the selection: clicks on cells, edits
  and removals in the panel.\<close>

definition operator_edit :: "event \<Rightarrow> bool" where
  "operator_edit e =
     (case e of
        Cell_clicked a ctrlKey \<Rightarrow> True
      | Input_edited i v \<Rightarrow> True
      | Remove_clicked i \<Rightarrow> True
      | _ \<Rightarrow> False)"

section \<open>A page to try things on\<close>

text \<open>A snapshot with two contracts, one structure and the Total row, and the page
  that shows it: the document has all three elements and the first response of the poll
  loop has been rendered.\<close>

definition example_snapshot :: positions_data where
  "example_snapshot =
     \<lparr>data_contracts = Some [''F26'', ''G26''],
      data_rows = Some [\<lparr>row_name = ''Fly'', row_lots = Some [2, - 3], row_rest = []\<rparr>,
                        \<lparr>row_name = ''Total'', row_lots = Some [2, - 3], row_rest = []\<rparr>]\<rparr>"

definition example_page :: page where
  "example_page =
     fetch_completes 0 (Response True (Decoded example_snapshot))
       (DOMContentLoaded (Some ''CL'') True True)"

text \<open>The empty result.\<close>

definition empty_snapshot :: positions_data where
  "empty_snapshot = \<lparr>data_contracts = Some [], data_rows = Some []\<rparr>"

text \<open>The example snapshot with one lot changed: every cell of the example is still
  there.\<close>

definition changed_snapshot :: positions_data where
  "changed_snapshot =
     \<lparr>data_contracts = Some [''F26'', ''G26''],
      data_rows = Some [\<lparr>row_name = ''Fly'', row_lots = Some [2, - 5], row_rest = []\<rparr>,
                        \<lparr>row_name = ''Total'', row_lots = Some [2, - 5], row_rest = []\<rparr>]\<rparr>"

text \<open>A text of 309 digits: it writes \<open>2 * 10 ^ 308\<close>, which is more than
  \<open>2 ^ 1024\<close>.\<close>

definition overflowing_text :: string where
  "overflowing_text = ''200000000000000000000000000000000000000000000000000000000000000000000000000000000000000000000000000000000000000000000000000000000000000000000000000000000000000000000000000000000000000000000000000000000000000000000000000000000000000000000000000000000000000000000000000000000000000000000000000000000000000000000''"

section \<open>Describing a run of the hedge application\<close>

text \<open>The payloads posted to \<^verbatim>\<open>/api/implement_hedge\<close>, and the names posted to
  \<^verbatim>\<open>/api/create_strategy\<close>, among some requests, in order.\<close>

definition hedge_posts :: "request list \<Rightarrow> hedge_payload list" where
  "hedge_posts rs =
     concat (map (\<lambda>r. case r of Implement_hedge pl \<Rightarrow> [pl] | _ \<Rightarrow> []) rs)"

definition created_names :: "request list \<Rightarrow> string list" where
  "created_names rs =
     concat (map (\<lambda>r. case r of Create_strategy n pat \<Rightarrow> [n] | _ \<Rightarrow> []) rs)"

text \<open>The names the script loops over in the missing-strategies state (none in any
  other state).\<close>

definition missing_names :: "hedge_data \<Rightarrow> string list" where
  "missing_names data =
     (if hd_error data = Some ''missing_strategies''
      then (case hd_missing data of None \<Rightarrow> [] | Some ms \<Rightarrow> ms)
      else [])"

text \<open>
  The rejected first response \<open>data\<close> puts the run into a recovery state and the
  recovery is resolved: in the missing-strategies state the loop over the names ends
  without an error (every prompt answered by a text that evaluates to an array that
  can be printed, every strategy created); in the missing-hedged-pattern state the prompt is answered and the
  strategy created.
\<close>

definition recovery_resolved :: "environment \<Rightarrow> hedge_data \<Rightarrow> bool" where
  "recovery_resolved env data =
     (if hd_error data = Some ''missing_strategies'' then
        (case hd_missing data of
           None \<Rightarrow> False
         | Some ms \<Rightarrow> snd (create_missing env 0 ms) = None)
      else if hd_error data = Some ''missing_hedged_pattern'' then
        (case hd_payload_pattern data of
           None \<Rightarrow> False
         | Some pat \<Rightarrow>
             (case prompt_answer env 0 of
                None \<Rightarrow> False
              | Some suggested \<Rightarrow> create_failure (create_response env 0) suggested = None))
      else False)"

text \<open>The create-strategy requests of a resolved recovery.\<close>

definition recovery_requests :: "environment \<Rightarrow> hedge_data \<Rightarrow> request list" where
  "recovery_requests env data =
     (if hd_error data = Some ''missing_strategies'' then
        fst (create_missing env 0 (missing_names data))
      else
        (case (hd_payload_pattern data, prompt_answer env 0) of
           (Some pat, Some suggested) \<Rightarrow> [Create_strategy suggested pat]
         | _ \<Rightarrow> []))"

text \<open>
  The backend accepts the submission with the body \<open>data\<close>: the first response is ok,
  or it is a rejection whose recovery is resolved and the response to the retry is ok.
\<close>

definition accepted :: "environment \<Rightarrow> hedge_data \<Rightarrow> bool" where
  "accepted env data =
     (case first_response env of
        Rejected msg \<Rightarrow> False
      | Response ok b \<Rightarrow>
          (case b of
             Undecodable msg \<Rightarrow> False
           | Decoded d0 \<Rightarrow>
               if ok then d0 = data
               else recovery_resolved env d0
                    \<and> retry_response env = Response True (Decoded data)))"

text \<open>
  The operator declines the \<open>k\<close>-th prompt of the recovery from the rejected first
  response \<open>data\<close>, the names before it having been resolved: the \<open>k\<close>-th name of
  the missing-strategies loop, or the one prompt (\<open>k = 0\<close>) of the
  missing-hedged-pattern state.
\<close>

definition declined :: "environment \<Rightarrow> hedge_data \<Rightarrow> nat \<Rightarrow> bool" where
  "declined env data k =
     (if hd_error data = Some ''missing_strategies'' then
        (case hd_missing data of
           None \<Rightarrow> False
         | Some ms \<Rightarrow>
             k < length ms \<and> snd (create_missing env 0 (take k ms)) = None
             \<and> prompt_answer env k = None)
      else if hd_error data = Some ''missing_hedged_pattern'' then
        hd_payload_pattern data \<noteq> None \<and> k = 0 \<and> prompt_answer env 0 = None
      else False)"

text \<open>
  In the missing-strategies state the operator answers the prompt for the \<open>k\<close>-th
  name, the names before it having been resolved, with a text that does not evaluate to
  an array (the evaluation throws, or its value is something else).
\<close>

definition invalid_pattern_at :: "environment \<Rightarrow> hedge_data \<Rightarrow> nat \<Rightarrow> bool" where
  "invalid_pattern_at env data k =
     (hd_error data = Some ''missing_strategies'' \<and>
      (case hd_missing data of
         None \<Rightarrow> False
       | Some ms \<Rightarrow>
           k < length ms \<and> snd (create_missing env 0 (take k ms)) = None \<and>
           (case prompt_answer env k of
              None \<Rightarrow> False
            | Some userInput \<Rightarrow>
                (case js_eval env userInput of
                   None \<Rightarrow> True
                 | Some v \<Rightarrow> (case v of JArr xs \<Rightarrow> False | _ \<Rightarrow> True)))))"

text \<open>
  In the missing-strategies state the operator answers the prompt for the \<open>k\<close>-th
  name, the names before it having been resolved, with a text that evaluates to the
  array of the elements \<open>xs\<close>.
\<close>

definition array_given_at :: "environment \<Rightarrow> hedge_data \<Rightarrow> nat \<Rightarrow> js_value list \<Rightarrow> bool" where
  "array_given_at env data k xs =
     (hd_error data = Some ''missing_strategies'' \<and>
      (case hd_missing data of
         None \<Rightarrow> False
       | Some ms \<Rightarrow>
           k < length ms \<and> snd (create_missing env 0 (take k ms)) = None \<and>
           (case prompt_answer env k of
              None \<Rightarrow> False
            | Some userInput \<Rightarrow> js_eval env userInput = Some (JArr xs))))"

text \<open>A world for the examples: the backend misses the strategy X; the operator's
  answer to the first prompt is \<open>answer\<close>; \<^verbatim>\<open>eval\<close> knows the texts used in the
  examples; strategies are created; the retry is answered by \<open>retry\<close>.\<close>

definition applied_hedge :: hedge_data where
  "applied_hedge =
     \<lparr>hd_error = None, hd_missing = None, hd_payload_pattern = None,
      hedged_name = ''Fly-hedge'', base_contract = ''F26'', hedged_lots = - 4\<rparr>"

definition missing_X :: hedge_data where
  "missing_X =
     \<lparr>hd_error = Some ''missing_strategies'', hd_missing = Some [''X''],
      hd_payload_pattern = None,
      hedged_name = [], base_contract = [], hedged_lots = 0\<rparr>"

definition example_eval :: "string \<Rightarrow> js_value option" where
  "example_eval userInput =
     (if userInput = ''[1,-1]'' then Some (JArr [JNum 1, JNum (- 1)])
      else if userInput = ''[true,null]'' then Some (JArr [JBool True, JNull])
      else if userInput = ''[1n]'' then Some (JArr [JBigInt 1])
      else if userInput = ''7'' then Some (JNum 7)
      else None)"

definition example_world :: "string option \<Rightarrow> hedge_data http \<Rightarrow> environment" where
  "example_world answer retry =
     \<lparr>first_response = Response False (Decoded missing_X),
      prompt_answer = (\<lambda>i. answer),
      js_eval = example_eval,
      stringify_error = ''Do not know how to serialize a BigInt'',
      create_response = (\<lambda>i. Response True (Decoded \<lparr>cd_error = None\<rparr>)),
      retry_response = retry\<rparr>"

text \<open>The example page with the cell of Fly at F26 selected and its value edited
  to 7.\<close>

definition example_selection :: page where
  "example_selection =
     run_events [Cell_clicked 0 False, Input_edited 0 ''7''] example_page"

text \<open>A world in which the backend accepts the first submission.\<close>

definition accepting_world :: environment where
  "accepting_world =
     (example_world None (Rejected []))\<lparr>first_response := Response True (Decoded applied_hedge)\<rparr>"

section \<open>Counting the fetches in flight\<close>

definition started_by_timer :: "origin \<times> string \<Rightarrow> bool" where
  "started_by_timer f = (case fst f of Timer_tick \<Rightarrow> True | _ \<Rightarrow> False)"

definition started_by_pollLoop :: "origin \<times> string \<Rightarrow> bool" where
  "started_by_pollLoop f = (case fst f of Initial_load \<Rightarrow> True | _ \<Rightarrow> False)"

text \<open>The fetches in flight that the timer callback started.\<close>

definition timer_fetches :: "page \<Rightarrow> nat" where
  "timer_fetches p = length (filter started_by_timer (in_flight p))"

text \<open>
  The guard of the poll loop as it stands in the script: \<^verbatim>\<open>_isLoading\<close> is set
  exactly while a fetch started by the timer callback is in flight, and there is at
  most one such fetch; the interval timer is set once, when the first fetch of
  \<open>pollLoop\<close> has completed.
\<close>

definition poll_guard :: "page \<Rightarrow> bool" where
  "poll_guard p =
     (timer_fetches p = (if isLoading p then 1 else 0)
      \<and> timers p + length (filter started_by_pollLoop (in_flight p)) = 1)"

section \<open>What holds of the selection on every page\<close>

text \<open>A cell of the row named Total has no click listener and is not marked
  selected.\<close>

definition total_cell_inert :: "cell \<Rightarrow> bool" where
  "total_cell_inert c =
     (dataset_structure c = ''Total'' \<longrightarrow> \<not> click_handler c \<and> \<not> selected c)"

text \<open>An entry of the selection is not of the row named Total, its key is made of its
  structure and contract, and it refers to a cell element of its own structure.\<close>

definition entry_of_cell :: "cell list \<Rightarrow> selected_cell \<Rightarrow> bool" where
  "entry_of_cell es s =
     (s_structure s \<noteq> ''Total''
      \<and> s_key s = s_structure s @ ''||'' @ s_contract s
      \<and> s_element s < length es
      \<and> dataset_structure (es ! s_element s) = s_structure s)"

text \<open>Without the panel element nothing is ever selected; every cell of Total is
  inert; every entry is the entry of a cell that is not of Total.\<close>

definition selection_invariant :: "page \<Rightarrow> bool" where
  "selection_invariant p =
     ((selection_panel p = None \<longrightarrow> selectedCells p = [])
      \<and> list_all total_cell_inert (elements p)
      \<and> list_all (entry_of_cell (elements p)) (selectedCells p))"

text \<open>Cell elements are updated in place or appended: from \<open>es\<close> to \<open>es'\<close> every
  element keeps its address and its structure.\<close>

definition keeps_structure :: "cell list \<Rightarrow> cell list \<Rightarrow> bool" where
  "keeps_structure es es' =
     (length es \<le> length es' \<and>
      (\<forall>i<length es. dataset_structure (es' ! i) = dataset_structure (es ! i)))"

section \<open>What each listener leaves alone\<close>

lemma renderSelectionPanel_frame [simp]:
  "prevDataJSON (renderSelectionPanel p) = prevDataJSON p"
  "positions_grid (renderSelectionPanel p) = positions_grid p"
  "elements (renderSelectionPanel p) = elements p"
  "selectedCells (renderSelectionPanel p) = selectedCells p"
  "product_select (renderSelectionPanel p) = product_select p"
  "isLoading (renderSelectionPanel p) = isLoading p"
  "in_flight (renderSelectionPanel p) = in_flight p"
  "timers (renderSelectionPanel p) = timers p"
  "alerts (renderSelectionPanel p) = alerts p"
  "console (renderSelectionPanel p) = console p"
  "requests (renderSelectionPanel p) = requests p"
  by (simp_all add: renderSelectionPanel_def split: option.splits)

lemma renderSelectionPanel_panel:
  "(selection_panel (renderSelectionPanel p) = None) = (selection_panel p = None)"
  by (simp add: renderSelectionPanel_def split: option.splits)

lemma clearSelection_frame [simp]:
  "prevDataJSON (clearSelection p) = prevDataJSON p"
  "positions_grid (clearSelection p) = positions_grid p"
  "selectedCells (clearSelection p) = []"
  "product_select (clearSelection p) = product_select p"
  "isLoading (clearSelection p) = isLoading p"
  "in_flight (clearSelection p) = in_flight p"
  "timers (clearSelection p) = timers p"
  "alerts (clearSelection p) = alerts p"
  "console (clearSelection p) = console p"
  "requests (clearSelection p) = requests p"
  by (simp_all add: clearSelection_def)

lemma clearSelection_panel:
  "(selection_panel (clearSelection p) = None) = (selection_panel p = None)"
  by (simp add: clearSelection_def split: option.splits)

lemma toggleCellSelection_frame [simp]:
  "prevDataJSON (toggleCellSelection a p) = prevDataJSON p"
  "positions_grid (toggleCellSelection a p) = positions_grid p"
  "product_select (toggleCellSelection a p) = product_select p"
  "isLoading (toggleCellSelection a p) = isLoading p"
  "in_flight (toggleCellSelection a p) = in_flight p"
  "timers (toggleCellSelection a p) = timers p"
  "alerts (toggleCellSelection a p) = alerts p"
  "console (toggleCellSelection a p) = console p"
  "requests (toggleCellSelection a p) = requests p"
  by (simp_all add: toggleCellSelection_def Let_def split: option.splits)

lemma toggleCellSelection_panel:
  "(selection_panel (toggleCellSelection a p) = None) = (selection_panel p = None)"
  by (simp add: toggleCellSelection_def Let_def renderSelectionPanel_panel split: option.splits)

lemma cell_onclick_frame [simp]:
  "prevDataJSON (cell_onclick a c p) = prevDataJSON p"
  "positions_grid (cell_onclick a c p) = positions_grid p"
  "product_select (cell_onclick a c p) = product_select p"
  "isLoading (cell_onclick a c p) = isLoading p"
  "in_flight (cell_onclick a c p) = in_flight p"
  "timers (cell_onclick a c p) = timers p"
  "alerts (cell_onclick a c p) = alerts p"
  "console (cell_onclick a c p) = console p"
  "requests (cell_onclick a c p) = requests p"
  by (simp_all add: cell_onclick_def)

lemma cell_onclick_panel:
  "(selection_panel (cell_onclick a c p) = None) = (selection_panel p = None)"
  by (simp add: cell_onclick_def toggleCellSelection_panel clearSelection_panel)

lemma oninput_frame [simp]:
  "prevDataJSON (oninput i v p) = prevDataJSON p"
  "positions_grid (oninput i v p) = positions_grid p"
  "product_select (oninput i v p) = product_select p"
  "isLoading (oninput i v p) = isLoading p"
  "in_flight (oninput i v p) = in_flight p"
  "timers (oninput i v p) = timers p"
  "alerts (oninput i v p) = alerts p"
  "console (oninput i v p) = console p"
  "requests (oninput i v p) = requests p"
  by (simp_all add: oninput_def Let_def)

lemma oninput_panel:
  "(selection_panel (oninput i v p) = None) = (selection_panel p = None)"
  by (simp add: oninput_def Let_def split: option.splits panel_view.splits)

lemma remove_onclick_frame [simp]:
  "prevDataJSON (remove_onclick i p) = prevDataJSON p"
  "positions_grid (remove_onclick i p) = positions_grid p"
  "product_select (remove_onclick i p) = product_select p"
  "isLoading (remove_onclick i p) = isLoading p"
  "in_flight (remove_onclick i p) = in_flight p"
  "timers (remove_onclick i p) = timers p"
  "alerts (remove_onclick i p) = alerts p"
  "console (remove_onclick i p) = console p"
  "requests (remove_onclick i p) = requests p"
  by (simp_all add: remove_onclick_def Let_def)

lemma remove_onclick_panel:
  "(selection_panel (remove_onclick i p) = None) = (selection_panel p = None)"
  by (simp add: remove_onclick_def Let_def renderSelectionPanel_panel)

lemma operator_edit_step_frame:
  assumes "operator_edit e"
  shows "prevDataJSON (step e p) = prevDataJSON p"
    and "positions_grid (step e p) = positions_grid p"
    and "product_select (step e p) = product_select p"
    and "isLoading (step e p) = isLoading p"
    and "in_flight (step e p) = in_flight p"
    and "timers (step e p) = timers p"
    and "alerts (step e p) = alerts p"
    and "console (step e p) = console p"
    and "requests (step e p) = requests p"
  using assms by (cases e; simp add: operator_edit_def)+

lemma operator_edits_frame:
  assumes "list_all operator_edit es"
  shows "prevDataJSON (run_events es p) = prevDataJSON p
       \<and> positions_grid (run_events es p) = positions_grid p
       \<and> product_select (run_events es p) = product_select p
       \<and> isLoading (run_events es p) = isLoading p
       \<and> in_flight (run_events es p) = in_flight p
       \<and> timers (run_events es p) = timers p
       \<and> alerts (run_events es p) = alerts p
       \<and> console (run_events es p) = console p
       \<and> requests (run_events es p) = requests p"
  using assms
proof (induction es arbitrary: p)
  case Nil
  then show ?case by (simp add: run_events_def)
next
  case (Cons e es)
  from Cons.prems have e: "operator_edit e" and es: "list_all operator_edit es" by simp_all
  have unfold: "run_events (e # es) p = run_events es (step e p)"
    by (simp add: run_events_def)
  show ?case
    unfolding unfold using Cons.IH [OF es, of "step e p"] operator_edit_step_frame [OF e, of p]
    by simp
qed

lemma attachCellSelectionHandlers_frame [simp]:
  "prevDataJSON (attachCellSelectionHandlers p) = prevDataJSON p"
  "positions_grid (attachCellSelectionHandlers p) = positions_grid p"
  "product_select (attachCellSelectionHandlers p) = product_select p"
  "isLoading (attachCellSelectionHandlers p) = isLoading p"
  "in_flight (attachCellSelectionHandlers p) = in_flight p"
  "timers (attachCellSelectionHandlers p) = timers p"
  "alerts (attachCellSelectionHandlers p) = alerts p"
  "console (attachCellSelectionHandlers p) = console p"
  "requests (attachCellSelectionHandlers p) = requests p"
  by (simp_all add: attachCellSelectionHandlers_def split: option.splits)

lemma buildGrid_frame [simp]:
  "prevDataJSON (buildGrid cs rs sl p) = prevDataJSON p"
  "positions_grid (buildGrid cs rs sl p) =
     Some (Grid \<lparr>headers = cs, body_rows = place_rows (length (elements p)) rs, scrollLeft = sl\<rparr>)"
  "product_select (buildGrid cs rs sl p) = product_select p"
  "isLoading (buildGrid cs rs sl p) = isLoading p"
  "in_flight (buildGrid cs rs sl p) = in_flight p"
  "timers (buildGrid cs rs sl p) = timers p"
  "alerts (buildGrid cs rs sl p) = alerts p"
  "console (buildGrid cs rs sl p) = console p"
  "requests (buildGrid cs rs sl p) = requests p"
  by (simp_all add: buildGrid_def)

lemma render_positions_stored:
  assumes "positions_grid p \<noteq> None"
  shows "prevDataJSON (render_positions product data p) = Some (snapshot_fingerprint data)"
    and "positions_grid (render_positions product data p) \<noteq> None"
  using assms by (auto simp: render_positions_def Let_def split: option.splits)

lemma render_positions_same:
  assumes "prevDataJSON p = Some (snapshot_fingerprint data)"
  shows "render_positions product data p =
           (if positions_grid p = None
            then p\<lparr>console := console p @ [''positions-grid container not found in DOM'']\<rparr>
            else p)"
  using assms by (auto simp: render_positions_def Let_def split: option.splits)

lemma render_positions_no_container:
  assumes "positions_grid p = None"
  shows "render_positions product data p =
           p\<lparr>console := console p @ [''positions-grid container not found in DOM'']\<rparr>"
  using assms by (simp add: render_positions_def)

lemma loading_failed_frame [simp]:
  "prevDataJSON (loading_failed msg p) = prevDataJSON p"
  "selectedCells (loading_failed msg p) = selectedCells p"
  "selection_panel (loading_failed msg p) = selection_panel p"
  "elements (loading_failed msg p) = elements p"
  "product_select (loading_failed msg p) = product_select p"
  "isLoading (loading_failed msg p) = isLoading p"
  "in_flight (loading_failed msg p) = in_flight p"
  "timers (loading_failed msg p) = timers p"
  "requests (loading_failed msg p) = requests p"
  by (simp_all add: loading_failed_def split: option.splits)

lemma loadPositions_start_frame [simp]:
  "prevDataJSON (loadPositions_start who p) = prevDataJSON p"
  "positions_grid (loadPositions_start who p) = positions_grid p"
  "selectedCells (loadPositions_start who p) = selectedCells p"
  "selection_panel (loadPositions_start who p) = selection_panel p"
  "elements (loadPositions_start who p) = elements p"
  "product_select (loadPositions_start who p) = product_select p"
  "isLoading (loadPositions_start who p) = isLoading p"
  "timers (loadPositions_start who p) = timers p"
  "alerts (loadPositions_start who p) = alerts p"
  "console (loadPositions_start who p) = console p"
  by (simp_all add: loadPositions_start_def)

lemma hedge_failed_frame [simp]:
  "prevDataJSON (hedge_failed msg p) = prevDataJSON p"
  "positions_grid (hedge_failed msg p) = positions_grid p"
  "selectedCells (hedge_failed msg p) = selectedCells p"
  "selection_panel (hedge_failed msg p) = selection_panel p"
  "elements (hedge_failed msg p) = elements p"
  "product_select (hedge_failed msg p) = product_select p"
  "isLoading (hedge_failed msg p) = isLoading p"
  "in_flight (hedge_failed msg p) = in_flight p"
  "timers (hedge_failed msg p) = timers p"
  "requests (hedge_failed msg p) = requests p"
  by (simp_all add: hedge_failed_def)

lemma render_positions_frame [simp]:
  "product_select (render_positions product data p) = product_select p"
  "isLoading (render_positions product data p) = isLoading p"
  "in_flight (render_positions product data p) = in_flight p"
  "timers (render_positions product data p) = timers p"
  "alerts (render_positions product data p) = alerts p"
  "requests (render_positions product data p) = requests p"
  by (simp_all add: render_positions_def Let_def split: option.splits)

lemma render_positions_fingerprint:
  "prevDataJSON (render_positions product data p) = prevDataJSON p
   \<or> prevDataJSON (render_positions product data p) = Some (snapshot_fingerprint data)"
  by (simp add: render_positions_def Let_def split: option.splits)

lemma loadPositions_resume_frame [simp]:
  "product_select (loadPositions_resume product resp p) = product_select p"
  "isLoading (loadPositions_resume product resp p) = isLoading p"
  "in_flight (loadPositions_resume product resp p) = in_flight p"
  "timers (loadPositions_resume product resp p) = timers p"
  "requests (loadPositions_resume product resp p) = requests p"
  by (simp_all add: loadPositions_resume_def split: http.splits body.splits)

lemma render_positions_fingerprint_reset:
  "prevDataJSON (render_positions product data p) = None \<Longrightarrow> prevDataJSON p = None"
  using render_positions_fingerprint [of product data p] by auto

lemma loadPositions_resume_fingerprint:
  "prevDataJSON (loadPositions_resume product resp p) = None \<Longrightarrow> prevDataJSON p = None"
  by (auto simp: loadPositions_resume_def split: http.splits body.splits if_splits
           dest: render_positions_fingerprint_reset)

lemma apply_onclick_fingerprint [simp]:
  "prevDataJSON (apply_onclick env p) = prevDataJSON p"
  by (simp add: apply_onclick_def Let_def split: option.splits sum.splits)

lemma fetch_completes_fingerprint:
  "prevDataJSON (fetch_completes i resp p) = None \<Longrightarrow> prevDataJSON p = None"
  using loadPositions_resume_fingerprint [of "snd (in_flight p ! i)" resp "p\<lparr>in_flight := remove_nth i (in_flight p)\<rparr>"]
  by (auto simp: fetch_completes_def Let_def split: if_splits origin.splits)

lemma timer_callback_fingerprint [simp]:
  "prevDataJSON (timer_callback p) = prevDataJSON p"
  by (simp add: timer_callback_def)

lemma step_fingerprint_reset:
  assumes "prevDataJSON (step e p) = None"
  shows "prevDataJSON p = None \<or> (\<exists>v. e = Product_changed v)"
  using assms fetch_completes_fingerprint [of _ _ p]
  by (cases e) (auto split: if_splits)

section \<open>The requests of a run\<close>

lemma create_missing_append:
  assumes "snd (create_missing env i xs) = None"
  shows "create_missing env i (xs @ ys) =
           (fst (create_missing env i xs) @ fst (create_missing env (i + length xs) ys),
            snd (create_missing env (i + length xs) ys))"
  using assms
proof (induction xs arbitrary: i)
  case Nil
  then show ?case by simp
next
  case (Cons x xs)
  then show ?case
    by (auto split: option.splits)
qed

lemma created_names_resolved:
  assumes "snd (create_missing env i xs) = None"
  shows "created_names (fst (create_missing env i xs)) = xs"
  using assms
  by (induction xs arbitrary: i) (auto simp: created_names_def split: option.splits)

lemma hedge_posts_created [simp]:
  "hedge_posts (fst (create_missing env i xs)) = []"
  by (induction xs arbitrary: i) (auto simp: hedge_posts_def split: option.splits)

lemma hedge_posts_append [simp]:
  "hedge_posts (xs @ ys) = hedge_posts xs @ hedge_posts ys"
  by (simp add: hedge_posts_def)

lemma hedge_posts_Cons [simp]:
  "hedge_posts (Implement_hedge pl # rs) = pl # hedge_posts rs"
  "hedge_posts (Create_strategy n pat # rs) = hedge_posts rs"
  "hedge_posts (Get_positions pr # rs) = hedge_posts rs"
  "hedge_posts [] = []"
  by (simp_all add: hedge_posts_def)

lemma create_missing_stops:
  assumes "k < length ms"
      and "snd (create_missing env 0 (take k ms)) = None"
  shows "create_missing env 0 ms =
           (fst (create_missing env 0 (take k ms)) @ fst (create_missing env k (ms ! k # drop (Suc k) ms)),
            snd (create_missing env k (ms ! k # drop (Suc k) ms)))"
proof -
  have split: "ms = take k ms @ (ms ! k # drop (Suc k) ms)"
    using assms(1) by (simp add: id_take_nth_drop [symmetric])
  have len: "length (take k ms) = k" using assms(1) by simp
  show ?thesis
    using create_missing_append [OF assms(2), of "ms ! k # drop (Suc k) ms"] split len
    by (metis add_0)
qed

lemma submit_hedge_resolved:
  assumes "first_response env = Response False (Decoded data)"
      and "recovery_resolved env data"
  shows "submit_hedge env pl =
           (Implement_hedge pl # recovery_requests env data @ [Implement_hedge pl],
            retry_result (retry_response env))"
  using assms
  by (auto simp: submit_hedge_def recovery_resolved_def recovery_requests_def missing_names_def
           split: option.splits if_splits prod.splits)

lemma submit_hedge_declined:
  assumes "first_response env = Response False (Decoded data)"
      and "declined env data k"
  shows "submit_hedge env pl =
           (Implement_hedge pl # fst (create_missing env 0 (take k (missing_names data))),
            Inl ''Operation cancelled by user'')"
proof (cases "hd_error data = Some ''missing_strategies''")
  case True
  with assms(2) obtain ms where ms: "hd_missing data = Some ms" "k < length ms"
      "snd (create_missing env 0 (take k ms)) = None" "prompt_answer env k = None"
    by (auto simp: declined_def split: option.splits)
  have "create_missing env 0 ms =
          (fst (create_missing env 0 (take k ms)), Some ''Operation cancelled by user'')"
    using create_missing_stops [OF ms(2,3)] ms(4) by simp
  then show ?thesis
    using assms(1) True ms(1) by (simp add: submit_hedge_def missing_names_def)
next
  case False
  with assms(2) show ?thesis
    using assms(1)
    by (auto simp: declined_def submit_hedge_def missing_names_def split: if_splits)
qed

lemma submit_hedge_invalid:
  assumes "first_response env = Response False (Decoded data)"
      and "invalid_pattern_at env data k"
  shows "submit_hedge env pl =
           (Implement_hedge pl # fst (create_missing env 0 (take k (missing_names data))),
            Inl (''Invalid pattern provided for '' @ missing_names data ! k))"
proof -
  from assms(2) obtain ms userInput where ms: "hd_error data = Some ''missing_strategies''"
      "hd_missing data = Some ms" "k < length ms"
      "snd (create_missing env 0 (take k ms)) = None" "prompt_answer env k = Some userInput"
      "eval_pattern env userInput = None"
    by (auto simp: invalid_pattern_at_def eval_pattern_def split: option.splits js_value.splits)
  have "create_missing env 0 ms =
          (fst (create_missing env 0 (take k ms)), Some (''Invalid pattern provided for '' @ ms ! k))"
    using create_missing_stops [OF ms(3,4)] ms(5,6) by simp
  then show ?thesis
    using assms(1) ms(1,2) by (simp add: submit_hedge_def missing_names_def)
qed

lemma retry_result_Inr:
  "(retry_result r = Inr d) = (r = Response True (Decoded d))"
  by (auto simp: retry_result_def split: http.splits body.splits)

lemma submit_hedge_accepted:
  assumes "accepted env data"
  shows "snd (submit_hedge env pl) = Inr data"
proof (cases "first_response env")
  case (Rejected msg)
  with assms show ?thesis by (simp add: accepted_def)
next
  case (Response ok b)
  show ?thesis
  proof (cases b)
    case (Undecodable msg)
    with assms Response show ?thesis by (simp add: accepted_def)
  next
    case (Decoded d0)
    show ?thesis
    proof (cases ok)
      case True
      with assms Response Decoded show ?thesis by (simp add: accepted_def submit_hedge_def)
    next
      case False
      with assms Response Decoded have r: "recovery_resolved env d0"
        "retry_response env = Response True (Decoded data)"
        by (simp_all add: accepted_def)
      have "first_response env = Response False (Decoded d0)"
        using Response Decoded False by simp
      from submit_hedge_resolved [OF this r(1), of pl] r(2) show ?thesis
        by (simp add: retry_result_def)
    qed
  qed
qed

lemma submit_hedge_first_request:
  "\<exists>rest. fst (submit_hedge env pl) = Implement_hedge pl # rest"
  by (auto simp: submit_hedge_def Let_def split: http.splits body.splits option.splits prod.splits)


lemma create_missing_length:
  assumes "snd (create_missing env i xs) = None"
  shows "length (fst (create_missing env i xs)) = length xs"
  using assms
  by (induction xs arbitrary: i) (auto split: option.splits if_splits)

lemma create_missing_array:
  assumes "prompt_answer env i = Some userInput"
      and "js_eval env userInput = Some (JArr xs)"
      and "list_all json_printable xs"
  shows "\<exists>more. fst (create_missing env i (name # rest)) = Create_strategy name (JArr xs) # more"
  using assms by (auto simp: eval_pattern_def split: option.splits)

lemma create_missing_unprintable:
  assumes "prompt_answer env i = Some userInput"
      and "js_eval env userInput = Some (JArr xs)"
      and "\<not> list_all json_printable xs"
  shows "create_missing env i (name # rest) = ([], Some (stringify_error env))"
  using assms by (auto simp: eval_pattern_def split: option.splits)

lemma submit_hedge_missing:
  assumes "first_response env = Response False (Decoded data)"
      and "hd_error data = Some ''missing_strategies''"
      and "hd_missing data = Some ms"
  shows "\<exists>more. fst (submit_hedge env pl) = Implement_hedge pl # fst (create_missing env 0 ms) @ more"
  using assms
  by (cases "create_missing env 0 ms"; cases "snd (create_missing env 0 ms)")
     (auto simp: submit_hedge_def)

lemma submit_hedge_array:
  assumes "first_response env = Response False (Decoded data)"
      and "array_given_at env data k xs"
      and "list_all json_printable xs"
  shows "\<exists>more. fst (submit_hedge env pl) =
           Implement_hedge pl # fst (create_missing env 0 (take k (missing_names data)))
             @ Create_strategy (missing_names data ! k) (JArr xs) # more"
proof -
  from assms(2) obtain ms userInput where ms: "hd_error data = Some ''missing_strategies''"
      "hd_missing data = Some ms" "k < length ms"
      "snd (create_missing env 0 (take k ms)) = None" "prompt_answer env k = Some userInput"
      "js_eval env userInput = Some (JArr xs)"
    by (auto simp: array_given_at_def split: option.splits)
  obtain more where more: "fst (create_missing env k (ms ! k # drop (Suc k) ms)) =
      Create_strategy (ms ! k) (JArr xs) # more"
    using create_missing_array [OF ms(5,6) assms(3)] by blast
  have "fst (create_missing env 0 ms) =
          fst (create_missing env 0 (take k ms)) @ Create_strategy (ms ! k) (JArr xs) # more"
    using create_missing_stops [OF ms(3,4)] more by simp
  then show ?thesis
    using submit_hedge_missing [OF assms(1) ms(1,2), of pl] ms(1,2)
    by (auto simp: missing_names_def)
qed

lemma submit_hedge_unprintable:
  assumes "first_response env = Response False (Decoded data)"
      and "array_given_at env data k xs"
      and "\<not> list_all json_printable xs"
  shows "submit_hedge env pl =
           (Implement_hedge pl # fst (create_missing env 0 (take k (missing_names data))),
            Inl (stringify_error env))"
proof -
  from assms(2) obtain ms userInput where ms: "hd_error data = Some ''missing_strategies''"
      "hd_missing data = Some ms" "k < length ms"
      "snd (create_missing env 0 (take k ms)) = None" "prompt_answer env k = Some userInput"
      "js_eval env userInput = Some (JArr xs)"
    by (auto simp: array_given_at_def split: option.splits)
  have "create_missing env 0 ms =
          (fst (create_missing env 0 (take k ms)), Some (stringify_error env))"
    using create_missing_stops [OF ms(3,4)] create_missing_unprintable [OF ms(5,6) assms(3)]
    by simp
  then show ?thesis
    using assms(1) ms(1,2) by (simp add: submit_hedge_def missing_names_def)
qed
section \<open>Lemmas on the hedge application\<close>

lemma hedge_posts_recovery [simp]:
  "hedge_posts (recovery_requests env data) = []"
  by (simp add: recovery_requests_def split: option.splits)

lemma missing_names_declined:
  assumes "declined env data k"
  shows "snd (create_missing env 0 (take k (missing_names data))) = None"
  using assms by (auto simp: declined_def missing_names_def split: option.splits if_splits)

lemma missing_names_invalid:
  assumes "invalid_pattern_at env data k"
  shows "snd (create_missing env 0 (take k (missing_names data))) = None"
  using assms by (auto simp: invalid_pattern_at_def missing_names_def split: option.splits)

lemma missing_names_array:
  assumes "array_given_at env data k xs"
  shows "snd (create_missing env 0 (take k (missing_names data))) = None"
    and "k < length (missing_names data)"
  using assms by (auto simp: array_given_at_def missing_names_def split: option.splits)

lemma applyHedgeFromSelection_thrown:
  assumes "selectedCells p \<noteq> []"
      and "product_select p = Some product"
      and "submit_hedge env (build_payload product (selectedCells p)) = (sent, Inl msg)"
  shows "applyHedgeFromSelection env refresh p =
           p\<lparr>requests := requests p @ sent,
             alerts := alerts p @ [''Error: '' @ msg],
             console := console p @ [msg]\<rparr>"
  using assms by (simp add: applyHedgeFromSelection_def hedge_failed_def)

lemma attachCellSelectionHandlers_empty:
  "selectedCells p = [] \<Longrightarrow> selectedCells (attachCellSelectionHandlers p) = []"
  by (simp add: attachCellSelectionHandlers_def split: option.splits)

lemma render_positions_empty_selection:
  "selectedCells p = [] \<Longrightarrow> selectedCells (render_positions product data p) = []"
  by (simp add: render_positions_def Let_def buildGrid_def attachCellSelectionHandlers_empty
           split: option.splits)

lemma loadPositions_resume_empty_selection:
  "selectedCells p = [] \<Longrightarrow> selectedCells (loadPositions_resume product resp p) = []"
  by (simp add: loadPositions_resume_def render_positions_empty_selection
           split: http.splits body.splits)

lemma loadPositions_requests [simp]:
  "requests (loadPositions resp p) = requests p @ [Get_positions (current_product p)]"
  by (simp add: loadPositions_def)

lemma loadPositions_empty_selection:
  "selectedCells p = [] \<Longrightarrow> selectedCells (loadPositions resp p) = []"
  by (simp add: loadPositions_def loadPositions_resume_empty_selection)

lemma loadPositions_same_fingerprint:
  assumes "prevDataJSON p = Some (snapshot_fingerprint d)"
  shows "positions_grid (loadPositions (Response True (Decoded d)) p) = positions_grid p"
    and "elements (loadPositions (Response True (Decoded d)) p) = elements p"
    and "prevDataJSON (loadPositions (Response True (Decoded d)) p) = prevDataJSON p"
  using assms
  by (simp_all add: loadPositions_def loadPositions_resume_def render_positions_def Let_def
               split: option.splits)

lemma loadPositions_other_fingerprint:
  assumes "prevDataJSON p \<noteq> Some (snapshot_fingerprint d)"
      and "positions_grid p = Some view"
  shows "prevDataJSON (loadPositions (Response True (Decoded d)) p) = Some (snapshot_fingerprint d)"
    and "positions_grid (loadPositions (Response True (Decoded d)) p) =
           (if contracts_or_empty d = [] \<and> rows_or_empty d = []
            then Some (No_positions (current_product p))
            else Some (Grid \<lparr>headers = contracts_or_empty d,
                              body_rows = place_rows (length (elements p)) (rows_or_empty d),
                              scrollLeft = (case view of Grid g \<Rightarrow> scrollLeft g | _ \<Rightarrow> 0)\<rparr>))"
  using assms
  by (simp_all add: loadPositions_def loadPositions_resume_def render_positions_def Let_def)

lemma clearSelection_elements_length [simp]:
  "length (elements (clearSelection p)) = length (elements p)"
proof -
  have "length (fold (\<lambda>s es. update_element (s_element s) (\<lambda>c. c\<lparr>selected := False\<rparr>) es) ss es)
          = length es" for ss es
    by (induction ss arbitrary: es) (simp_all add: update_element_def)
  then show ?thesis by (simp add: clearSelection_def)
qed

text \<open>The run taken in one piece is the listener of the apply button followed at once,
  where it has started a snapshot request, by the response to that request.\<close>

lemma remove_nth_last [simp]: "remove_nth (length xs) (xs @ [x]) = xs"
  by (simp add: remove_nth_def)

lemma applyHedgeFromSelection_as_events:
  "applyHedgeFromSelection env refresh p =
     (if in_flight (apply_onclick env p) = in_flight p then apply_onclick env p
      else fetch_completes (length (in_flight p)) refresh (apply_onclick env p))"
proof (cases "selectedCells p = [] \<or> product_select p = None")
  case True
  then show ?thesis
    by (auto simp: applyHedgeFromSelection_def apply_onclick_def)
next
  case False
  then obtain product where prod: "product_select p = Some product" and sel: "selectedCells p \<noteq> []"
    by auto
  show ?thesis
  proof (cases "snd (submit_hedge env (build_payload product (selectedCells p)))")
    case (Inl msg)
    then show ?thesis
      using prod sel by (simp add: applyHedgeFromSelection_def apply_onclick_def Let_def)
  next
    case (Inr data)
    then show ?thesis
      using prod sel
      by (simp add: applyHedgeFromSelection_def apply_onclick_def Let_def loadPositions_start_def
          fetch_completes_def loadPositions_def nth_append current_product_def clearSelection_def)
  qed
qed


lemma applyHedgeFromSelection_requests:
  assumes "selectedCells p \<noteq> []"
      and "product_select p = Some product"
  shows "\<exists>rest. requests (applyHedgeFromSelection env refresh p) =
           requests p @ fst (submit_hedge env (build_payload product (selectedCells p))) @ rest"
  using assms
  by (cases "snd (submit_hedge env (build_payload product (selectedCells p)))")
     (auto simp: applyHedgeFromSelection_def Let_def hedge_failed_def)
section \<open>The selection invariant\<close>

lemma update_element_length [simp]:
  "length (update_element a f es) = length es"
  by (simp add: update_element_def)

lemma update_element_nth:
  "i < length es \<Longrightarrow> update_element a f es ! i = (if i = a then f (es ! i) else es ! i)"
  by (simp add: update_element_def)

lemma fold_update_length [simp]:
  "length (fold (\<lambda>x es. update_element (g x) (f x) es) xs es) = length es"
  by (induction xs arbitrary: es) simp_all

lemma keeps_structure_refl [simp]: "keeps_structure es es"
  by (simp add: keeps_structure_def)

lemma keeps_structure_trans:
  "keeps_structure es es' \<Longrightarrow> keeps_structure es' es'' \<Longrightarrow> keeps_structure es es''"
  by (auto simp: keeps_structure_def)

lemma keeps_structure_update:
  assumes "\<And>c. dataset_structure (f c) = dataset_structure c"
  shows "keeps_structure es (update_element a f es)"
  using assms by (simp add: keeps_structure_def update_element_nth)

lemma keeps_structure_fold:
  assumes "\<And>x c. dataset_structure (f x c) = dataset_structure c"
  shows "keeps_structure es (fold (\<lambda>x es. update_element (g x) (f x) es) xs es)"
proof (induction xs arbitrary: es)
  case Nil
  show ?case by simp
next
  case (Cons x xs)
  have "keeps_structure es (update_element (g x) (f x) es)"
    using assms by (rule keeps_structure_update)
  from keeps_structure_trans [OF this Cons.IH] show ?case by simp
qed

lemma keeps_structure_append [simp]: "keeps_structure es (es @ new)"
  by (simp add: keeps_structure_def nth_append)

lemma entry_of_cell_kept:
  "keeps_structure es es' \<Longrightarrow> entry_of_cell es s \<Longrightarrow> entry_of_cell es' s"
  by (auto simp: keeps_structure_def entry_of_cell_def)

lemma entries_kept:
  "keeps_structure es es' \<Longrightarrow> list_all (entry_of_cell es) ss \<Longrightarrow> list_all (entry_of_cell es') ss"
  by (auto simp: list_all_iff intro: entry_of_cell_kept)

lemma inert_update:
  assumes "list_all total_cell_inert es"
      and "a < length es \<Longrightarrow> total_cell_inert (f (es ! a))"
  shows "list_all total_cell_inert (update_element a f es)"
proof (cases "a < length es")
  case False
  then show ?thesis using assms(1) by (simp add: update_element_def)
next
  case True
  have "set (es[a := f (es ! a)]) \<subseteq> insert (f (es ! a)) (set es)"
    by (rule set_update_subset_insert)
  then show ?thesis
    using assms True by (auto simp: update_element_def list_all_iff)
qed

lemma inert_fold:
  assumes "\<And>x c. total_cell_inert c \<Longrightarrow> total_cell_inert (f x c)"
      and "list_all total_cell_inert es"
  shows "list_all total_cell_inert (fold (\<lambda>x es. update_element (g x) (f x) es) xs es)"
  using assms(2)
proof (induction xs arbitrary: es)
  case Nil
  then show ?case by simp
next
  case (Cons x xs)
  have "list_all total_cell_inert (update_element (g x) (f x) es)"
    using Cons.prems assms(1) by (intro inert_update) (auto simp: list_all_length)
  from Cons.IH [OF this] show ?case by simp
qed

lemma handler_fold:
  assumes "\<And>x c. click_handler (f x c) = click_handler c"
      and "a < length es"
  shows "click_handler (fold (\<lambda>x es. update_element (g x) (f x) es) xs es ! a) = click_handler (es ! a)"
  using assms(2)
proof (induction xs arbitrary: es)
  case Nil
  show ?case by simp
next
  case (Cons x xs)
  have "click_handler (update_element (g x) (f x) es ! a) = click_handler (es ! a)"
    using Cons.prems assms(1) by (simp add: update_element_nth)
  moreover have "a < length (update_element (g x) (f x) es)" using Cons.prems by simp
  ultimately show ?case using Cons.IH by simp
qed

lemma selection_invariant_frame:
  assumes "elements q = elements p" "selectedCells q = selectedCells p"
          "(selection_panel q = None) = (selection_panel p = None)"
  shows "selection_invariant q = selection_invariant p"
  using assms by (simp add: selection_invariant_def)

lemma inert_deselect: "total_cell_inert c \<Longrightarrow> total_cell_inert (c\<lparr>selected := False\<rparr>)"
  by (simp add: total_cell_inert_def)

lemma inert_attach: "total_cell_inert c \<Longrightarrow> total_cell_inert (attach_cell c)"
  by (simp add: total_cell_inert_def attach_cell_def)

lemma clearSelection_invariant:
  assumes "selection_invariant p"
  shows "selection_invariant (clearSelection p)"
proof -
  have "list_all total_cell_inert
          (fold (\<lambda>s es. update_element (s_element s) (\<lambda>c. c\<lparr>selected := False\<rparr>) es)
             (selectedCells p) (elements p))"
    using assms by (intro inert_fold inert_deselect) (simp_all add: selection_invariant_def)
  then show ?thesis
    by (simp add: selection_invariant_def clearSelection_def)
qed

lemma clearSelection_handler:
  assumes "a < length (elements p)"
  shows "click_handler (elements (clearSelection p) ! a) = click_handler (elements p ! a)"
    and "length (elements (clearSelection p)) = length (elements p)"
  using assms handler_fold [of "\<lambda>s c. c\<lparr>selected := False\<rparr>" a "elements p" s_element "selectedCells p"]
  by (simp_all add: clearSelection_def)

lemma renderSelectionPanel_invariant:
  "selection_invariant (renderSelectionPanel p) = selection_invariant p"
  by (rule selection_invariant_frame) (simp_all add: renderSelectionPanel_panel)

lemma list_all_remove_nth:
  "list_all P xs \<Longrightarrow> list_all P (remove_nth i xs)"
  by (auto simp: remove_nth_def list_all_iff dest: in_set_takeD in_set_dropD)

lemma findIndex_Some:
  "findIndex P xs = Some i \<Longrightarrow> i < length xs \<and> P (xs ! i)"
  by (induction xs arbitrary: i) (auto split: if_splits)

lemma toggleCellSelection_invariant:
  assumes "selection_invariant p"
      and "a < length (elements p)"
      and "click_handler (elements p ! a)"
  shows "selection_invariant (toggleCellSelection a p)"
proof (cases "selection_panel p")
  case None
  then show ?thesis using assms(1) by (simp add: toggleCellSelection_def)
next
  case (Some pv)
  let ?c = "elements p ! a"
  let ?k = "dataset_structure ?c @ ''||'' @ dataset_contract ?c"
  have inert: "list_all total_cell_inert (elements p)"
    and entries: "list_all (entry_of_cell (elements p)) (selectedCells p)"
    using assms(1) by (simp_all add: selection_invariant_def)
  have not_total: "dataset_structure ?c \<noteq> ''Total''"
    using inert assms(2,3) by (auto simp: list_all_length total_cell_inert_def)
  show ?thesis
  proof (cases "findIndex (\<lambda>s. s_key s = ?k) (selectedCells p)")
    case None
    let ?es = "update_element a (\<lambda>c. c\<lparr>selected := True\<rparr>) (elements p)"
    let ?new = "\<lparr>s_key = ?k, s_structure = dataset_structure ?c,
                  s_contract = dataset_contract ?c, s_element = a,
                  s_value = js_trim (span_text ?c)\<rparr>"
    have keep: "keeps_structure (elements p) ?es"
      by (rule keeps_structure_update) simp
    have 1: "list_all total_cell_inert ?es"
      using inert not_total by (intro inert_update) (simp_all add: total_cell_inert_def)
    have 2: "list_all (entry_of_cell ?es) (selectedCells p)"
      using entries_kept [OF keep entries] .
    have 3: "entry_of_cell ?es ?new"
      using not_total assms(2) by (simp add: entry_of_cell_def update_element_nth)
    have "selection_invariant
            (p\<lparr>elements := ?es, selectedCells := selectedCells p @ [?new]\<rparr>)"
      using 1 2 3 Some by (simp add: selection_invariant_def)
    then show ?thesis
      using Some None by (simp add: toggleCellSelection_def Let_def renderSelectionPanel_invariant)
  next
    case (Some idx)
    let ?es = "update_element (s_element (selectedCells p ! idx))
                 (\<lambda>c. c\<lparr>selected := False\<rparr>) (elements p)"
    have keep: "keeps_structure (elements p) ?es"
      by (rule keeps_structure_update) simp
    have 1: "list_all total_cell_inert ?es"
      using inert by (intro inert_update) (auto simp: list_all_length intro: inert_deselect)
    have 2: "list_all (entry_of_cell ?es) (remove_nth idx (selectedCells p))"
      using entries_kept [OF keep entries] by (rule list_all_remove_nth)
    have "selection_invariant
            (p\<lparr>elements := ?es, selectedCells := remove_nth idx (selectedCells p)\<rparr>)"
      using 1 2 \<open>selection_panel p = Some pv\<close> by (simp add: selection_invariant_def)
    then show ?thesis
      using Some \<open>selection_panel p = Some pv\<close>
      by (simp add: toggleCellSelection_def Let_def renderSelectionPanel_invariant)
  qed
qed

lemma cell_onclick_invariant:
  assumes "selection_invariant p"
      and "a < length (elements p)"
      and "click_handler (elements p ! a)"
  shows "selection_invariant (cell_onclick a ctrlKey p)"
proof (cases ctrlKey)
  case True
  then show ?thesis
    using toggleCellSelection_invariant [OF assms] by (simp add: cell_onclick_def)
next
  case False
  have "selection_invariant (toggleCellSelection a (clearSelection p))"
    using clearSelection_invariant [OF assms(1)] clearSelection_handler [OF assms(2)] assms(2,3)
    by (intro toggleCellSelection_invariant) simp_all
  then show ?thesis using False by (simp add: cell_onclick_def)
qed

lemma oninput_invariant:
  assumes "selection_invariant p"
      and "i < length (selectedCells p)"
  shows "selection_invariant (oninput i v p)"
proof -
  let ?s = "selectedCells p ! i"
  let ?f = "\<lambda>c. c\<lparr>span_text := (if is_zero (oninput_valNum v) then '''' else js_String (oninput_valNum v)),
                    span_class := (if is_zero (oninput_valNum v) then CSS_zero
                                   else if is_positive (oninput_valNum v) then CSS_positive
                                   else CSS_negative)\<rparr>"
  let ?es = "update_element (s_element ?s) ?f (elements p)"
  have inert: "list_all total_cell_inert (elements p)"
    and entries: "list_all (entry_of_cell (elements p)) (selectedCells p)"
    and panel: "selection_panel p = None \<longrightarrow> selectedCells p = []"
    using assms(1) by (simp_all add: selection_invariant_def)
  have keep: "keeps_structure (elements p) ?es"
    by (rule keeps_structure_update) simp
  have 1: "list_all total_cell_inert ?es"
    using inert by (intro inert_update) (auto simp: list_all_length total_cell_inert_def)
  have 2: "list_all (entry_of_cell ?es) (selectedCells p)"
    using entries_kept [OF keep entries] .
  have "entry_of_cell ?es (?s\<lparr>s_value := v\<rparr>)"
    using 2 assms(2) by (auto simp: list_all_length entry_of_cell_def)
  then have 3: "list_all (entry_of_cell ?es) ((selectedCells p)[i := ?s\<lparr>s_value := v\<rparr>])"
    using 2 set_update_subset_insert [of "selectedCells p" i "?s\<lparr>s_value := v\<rparr>"]
    by (auto simp: list_all_iff)
  have 4: "selection_panel p \<noteq> None" using panel assms(2) by auto
  show ?thesis
    using 1 3 4 by (auto simp: selection_invariant_def oninput_def Let_def split: panel_view.splits)
qed

lemma remove_onclick_invariant:
  assumes "selection_invariant p"
  shows "selection_invariant (remove_onclick i p)"
proof -
  let ?s = "selectedCells p ! i"
  let ?es = "update_element (s_element ?s) (\<lambda>c. c\<lparr>selected := False\<rparr>) (elements p)"
  have inert: "list_all total_cell_inert (elements p)"
    and entries: "list_all (entry_of_cell (elements p)) (selectedCells p)"
    and panel: "selection_panel p = None \<longrightarrow> selectedCells p = []"
    using assms(1) by (simp_all add: selection_invariant_def)
  have keep: "keeps_structure (elements p) ?es"
    by (rule keeps_structure_update) simp
  have 1: "list_all total_cell_inert ?es"
    using inert by (intro inert_update) (auto simp: list_all_length intro: inert_deselect)
  have 2: "list_all (entry_of_cell ?es) (filter (\<lambda>x. s_key x \<noteq> s_key ?s) (selectedCells p))"
    using entries_kept [OF keep entries] by (auto simp: list_all_iff)
  have "selection_invariant
          (p\<lparr>elements := ?es, selectedCells := filter (\<lambda>x. s_key x \<noteq> s_key ?s) (selectedCells p)\<rparr>)"
    using 1 2 panel by (auto simp: selection_invariant_def)
  then show ?thesis
    by (simp add: remove_onclick_def Let_def renderSelectionPanel_invariant)
qed

lemma attachCellSelectionHandlers_invariant:
  assumes "list_all total_cell_inert (elements p)"
      and "selection_panel p = None \<longrightarrow> selectedCells p = []"
  shows "selection_invariant (attachCellSelectionHandlers p)"
proof (cases "selection_panel p")
  case None
  then show ?thesis
    using assms by (simp add: attachCellSelectionHandlers_def selection_invariant_def)
next
  case (Some pv)
  have "list_all total_cell_inert
          (fold (\<lambda>a es. update_element a attach_cell es) (displayed_cells p) (elements p))"
    using assms(1) inert_fold [of "\<lambda>a. attach_cell" "elements p" "\<lambda>a. a" "displayed_cells p"]
    by (simp add: inert_attach)
  then show ?thesis
    using Some by (simp add: attachCellSelectionHandlers_def selection_invariant_def)
qed

lemma row_cells_inert: "list_all total_cell_inert (row_cells contracts r)"
  by (simp add: row_cells_def list_all_iff total_cell_inert_def make_cell_def split: prod.splits)

lemma buildGrid_invariant:
  assumes "selection_invariant p"
  shows "selection_invariant (buildGrid contracts rows sl p)"
proof -
  have "list_all total_cell_inert (concat (map (row_cells contracts) rows))"
    using row_cells_inert by (auto simp: list_all_iff)
  then show ?thesis
    using assms unfolding buildGrid_def
    by (intro attachCellSelectionHandlers_invariant) (simp_all add: selection_invariant_def)
qed

lemma render_positions_invariant:
  assumes "selection_invariant p"
  shows "selection_invariant (render_positions product data p)"
proof -
  have upd: "selection_invariant (q\<lparr>prevDataJSON := x\<rparr>) = selection_invariant q" for q x
    by (simp add: selection_invariant_def)
  have upd2: "selection_invariant (q\<lparr>positions_grid := y, prevDataJSON := x\<rparr>) = selection_invariant q" for q x y
    by (simp add: selection_invariant_def)
  have upd3: "selection_invariant (q\<lparr>console := z\<rparr>) = selection_invariant q" for q z
    by (simp add: selection_invariant_def)
  have upd4: "selection_invariant (q\<lparr>positions_grid := y\<rparr>) = selection_invariant q" for q y
    by (simp add: selection_invariant_def)
  show ?thesis
    using assms buildGrid_invariant [OF assms]
    by (simp add: render_positions_def Let_def upd upd2 upd3 upd4 split: option.splits)
qed

lemma loading_failed_invariant:
  "selection_invariant (loading_failed msg p) = selection_invariant p"
  by (rule selection_invariant_frame) simp_all

lemma loadPositions_resume_invariant:
  assumes "selection_invariant p"
  shows "selection_invariant (loadPositions_resume product resp p)"
  using assms
  by (simp add: loadPositions_resume_def loading_failed_invariant render_positions_invariant
           split: http.splits body.splits)

lemma fetch_completes_invariant:
  assumes "selection_invariant p"
  shows "selection_invariant (fetch_completes i resp p)"
proof -
  have "selection_invariant (p\<lparr>in_flight := remove_nth i (in_flight p)\<rparr>)"
    using assms by (simp add: selection_invariant_def)
  from loadPositions_resume_invariant [OF this, of "snd (in_flight p ! i)" resp]
  show ?thesis
    using assms
    by (simp add: fetch_completes_def Let_def selection_invariant_def split: origin.splits)
qed

lemma loadPositions_start_invariant:
  "selection_invariant (loadPositions_start who p) = selection_invariant p"
  by (rule selection_invariant_frame) simp_all

lemma apply_onclick_invariant:
  assumes "selection_invariant p"
  shows "selection_invariant (apply_onclick env p)"
proof -
  have req: "selection_invariant (p\<lparr>requests := r\<rparr>) = selection_invariant p" for r
    by (simp add: selection_invariant_def)
  have failed: "selection_invariant (hedge_failed msg q) = selection_invariant q" for msg q
    by (rule selection_invariant_frame) simp_all
  show ?thesis
    using assms clearSelection_invariant [of "p\<lparr>requests := r\<rparr>" for r]
    by (simp add: apply_onclick_def Let_def req failed loadPositions_start_invariant
             split: option.splits sum.splits)
qed

lemma step_invariant:
  assumes "selection_invariant p"
  shows "selection_invariant (step e p)"
proof (cases e)
  case (Fetch_completes i resp)
  then show ?thesis using fetch_completes_invariant [OF assms] by simp
next
  case Timer_fires
  have "selection_invariant (timer_callback p) = selection_invariant p"
    by (rule selection_invariant_frame) (simp_all add: timer_callback_def)
  then show ?thesis using assms Timer_fires by simp
next
  case (Product_changed v)
  have "selection_invariant (selector_onchange (p\<lparr>product_select := Some v\<rparr>)) = selection_invariant p"
    by (rule selection_invariant_frame) (simp_all add: selector_onchange_def split: option.splits)
  then show ?thesis using assms Product_changed by (simp split: option.splits)
next
  case (Cell_clicked a c)
  then show ?thesis using assms cell_onclick_invariant [OF assms] by simp
next
  case (Input_edited i v)
  then show ?thesis using assms oninput_invariant [OF assms] by simp
next
  case (Remove_clicked i)
  then show ?thesis using assms remove_onclick_invariant [OF assms] by simp
next
  case (Apply_clicked env)
  then show ?thesis using assms apply_onclick_invariant [OF assms] by simp
qed

lemma run_events_invariant:
  "selection_invariant p \<Longrightarrow> selection_invariant (run_events es p)"
  unfolding run_events_def
  by (induction es arbitrary: p) (simp_all add: step_invariant)

lemma DOMContentLoaded_invariant:
  "selection_invariant (DOMContentLoaded selector has_grid has_panel)"
  by (simp add: DOMContentLoaded_def pollLoop_def loadPositions_start_def selection_invariant_def)

section \<open>Change detection\<close>

text \<open>
  C6. Two snapshots with equal fingerprints are fetched one after the other. Whatever
  the operator does to the selection between the two responses (clicks on cells, edits
  in the panel, removals), handling the second response changes nothing on the page:
  container and scroll offset, cell elements, selection, panel and stored fingerprint
  are what they were. (A document without the container has nothing to render into;
  there each response only writes its console error.)
\<close>

theorem equal_fingerprints_no_rerender:
  assumes "snapshot_fingerprint S1 = snapshot_fingerprint S2"
      and "list_all operator_edit es"
  shows "loadPositions_resume prod2 (Response True (Decoded S2))
           (run_events es (loadPositions_resume prod1 (Response True (Decoded S1)) p)) =
         (if positions_grid p = None
          then (run_events es (loadPositions_resume prod1 (Response True (Decoded S1)) p))
                 \<lparr>console :=
                    console (run_events es (loadPositions_resume prod1 (Response True (Decoded S1)) p))
                      @ [''positions-grid container not found in DOM'']\<rparr>
          else run_events es (loadPositions_resume prod1 (Response True (Decoded S1)) p))"
proof (cases "positions_grid p")
  case None
  let ?q1 = "loadPositions_resume prod1 (Response True (Decoded S1)) p"
  have "positions_grid ?q1 = None"
    using None by (simp add: loadPositions_resume_def render_positions_no_container)
  then have "positions_grid (run_events es ?q1) = None"
    using operator_edits_frame [OF assms(2), of ?q1] by simp
  then show ?thesis
    using None by (simp add: loadPositions_resume_def render_positions_no_container)
next
  case (Some view)
  let ?q1 = "loadPositions_resume prod1 (Response True (Decoded S1)) p"
  have stored: "prevDataJSON ?q1 = Some (snapshot_fingerprint S1)" "positions_grid ?q1 \<noteq> None"
    using Some render_positions_stored [of p prod1 S1] by (simp_all add: loadPositions_resume_def)
  have "prevDataJSON (run_events es ?q1) = Some (snapshot_fingerprint S2)"
       "positions_grid (run_events es ?q1) \<noteq> None"
    using operator_edits_frame [OF assms(2), of ?q1] assms(1) stored by simp_all
  then show ?thesis
    using Some by (simp add: loadPositions_resume_def render_positions_same)
qed

theorem equal_fingerprints_no_rerender_witness:
  "snapshot_fingerprint example_snapshot = snapshot_fingerprint (example_snapshot\<lparr>data_contracts := Some [''F26'', ''G26'']\<rparr>)
   \<and> list_all operator_edit [Cell_clicked 0 False, Input_edited 0 ''7'']
   \<and> positions_grid (DOMContentLoaded (Some ''CL'') True True) \<noteq> None
   \<and> loadPositions_resume ''CL''
        (Response True (Decoded (example_snapshot\<lparr>data_contracts := Some [''F26'', ''G26'']\<rparr>)))
        (run_events [Cell_clicked 0 False, Input_edited 0 ''7'']
           (loadPositions_resume ''CL'' (Response True (Decoded example_snapshot))
              (DOMContentLoaded (Some ''CL'') True True))) =
      run_events [Cell_clicked 0 False, Input_edited 0 ''7'']
        (loadPositions_resume ''CL'' (Response True (Decoded example_snapshot))
           (DOMContentLoaded (Some ''CL'') True True))"
proof -
  have fp: "snapshot_fingerprint example_snapshot =
            snapshot_fingerprint (example_snapshot\<lparr>data_contracts := Some [''F26'', ''G26'']\<rparr>)"
    by (simp add: snapshot_fingerprint_def contracts_or_empty_def rows_or_empty_def example_snapshot_def)
  have es: "list_all operator_edit [Cell_clicked 0 False, Input_edited 0 ''7'']"
    by (simp add: operator_edit_def)
  have grid: "positions_grid (DOMContentLoaded (Some ''CL'') True True) \<noteq> None"
    by (simp add: DOMContentLoaded_def pollLoop_def loadPositions_start_def)
  show ?thesis
    using fp es grid
      equal_fingerprints_no_rerender [OF fp es, of "''CL''" "''CL''" "DOMContentLoaded (Some ''CL'') True True"]
    by simp
qed

text \<open>
  C7 (as the script has it). The stored fingerprint is one slot of the page. It is none
  when the page has loaded. A change of the product selection resets it to none.
  Rendering a decoded snapshot, the empty result included, stores that snapshot's
  fingerprint in it. Nothing else resets it: an event after which the slot is none is a
  change of the product selection, or the slot was none before.
\<close>

theorem fingerprint_slot:
  "prevDataJSON (DOMContentLoaded selector has_grid has_panel) = None
   \<and> (product_select p \<noteq> None \<longrightarrow> prevDataJSON (step (Product_changed v) p) = None)
   \<and> (positions_grid p \<noteq> None \<longrightarrow>
        prevDataJSON (loadPositions_resume product (Response True (Decoded data)) p)
          = Some (snapshot_fingerprint data))
   \<and> (prevDataJSON (step e p) = None \<longrightarrow> prevDataJSON p = None \<or> (\<exists>v. e = Product_changed v))"
proof -
  have a: "prevDataJSON (DOMContentLoaded selector has_grid has_panel) = None"
    by (simp add: DOMContentLoaded_def pollLoop_def)
  have b: "product_select p \<noteq> None \<longrightarrow> prevDataJSON (step (Product_changed v) p) = None"
    by (auto simp: selector_onchange_def split: option.splits)
  have c: "positions_grid p \<noteq> None \<longrightarrow>
        prevDataJSON (loadPositions_resume product (Response True (Decoded data)) p)
          = Some (snapshot_fingerprint data)"
    using render_positions_stored(1) [of p product data] by (simp add: loadPositions_resume_def)
  show ?thesis using a b c step_fingerprint_reset [of e p] by blast
qed

theorem fingerprint_slot_witness:
  "product_select example_page \<noteq> None
   \<and> prevDataJSON (step (Product_changed ''NG'') example_page) = None
   \<and> positions_grid example_page \<noteq> None
   \<and> prevDataJSON (loadPositions_resume ''CL'' (Response True (Decoded empty_snapshot)) example_page)
       = Some (snapshot_fingerprint empty_snapshot)
   \<and> prevDataJSON example_page \<noteq> None"
proof -
  have sel: "product_select example_page \<noteq> None" by code_simp
  have grid: "positions_grid example_page \<noteq> None" by code_simp
  have prev: "prevDataJSON example_page \<noteq> None" by code_simp
  show ?thesis
    using sel grid prev
      fingerprint_slot [of "Some ''CL''" True True example_page "''NG''" "''CL''" empty_snapshot
                           "Product_changed ''NG''"]
    by simp
qed

text \<open>
  C7 as stated fails where it says that rendering an empty result clears the slot: when
  the first response of the poll loop is the empty snapshot, the placeholder is shown
  and the slot holds the fingerprint of the empty snapshot.
\<close>

theorem empty_result_stores_fingerprint:
  "positions_grid (step (Fetch_completes 0 (Response True (Decoded empty_snapshot)))
                     (DOMContentLoaded (Some ''CL'') True True))
     = Some (No_positions ''CL'')
   \<and> prevDataJSON (step (Fetch_completes 0 (Response True (Decoded empty_snapshot)))
                     (DOMContentLoaded (Some ''CL'') True True))
     = Some (Fingerprint [] [])"
  by code_simp

section \<open>The hedge application protocol\<close>

text \<open>
  C1 (as the script has it). For every hedge submission that the backend accepts, on the
  first submit or on the retry, the run empties the selection, always sends a new
  snapshot request, and writes to the console a confirmation made of the hedge name, the
  base contract and the lots. The response to that request goes through the ordinary
  fingerprint test: with the stored fingerprint the container, the cell elements and the
  slot stay as they are; with another fingerprint the snapshot is rendered (the
  placeholder for the empty result, a new grid otherwise) and its fingerprint stored.
\<close>

theorem accepted_hedge_effects:
  assumes "selectedCells p \<noteq> []"
      and "product_select p = Some product"
      and "accepted env data"
  shows "selectedCells (applyHedgeFromSelection env refresh p) = []
       \<and> requests (applyHedgeFromSelection env refresh p) =
           requests p @ fst (submit_hedge env (build_payload product (selectedCells p)))
             @ [Get_positions product]
       \<and> last (console (applyHedgeFromSelection env refresh p)) =
           ''Hedge applied: '' @ hedged_name data @ '' @ '' @ base_contract data @
           '' (+'' @ js_String (Decimal (hedged_lots data) 0) @ '')''
       \<and> (\<forall>d. refresh = Response True (Decoded d) \<and> prevDataJSON p = Some (snapshot_fingerprint d) \<longrightarrow>
              positions_grid (applyHedgeFromSelection env refresh p) = positions_grid p
            \<and> elements (applyHedgeFromSelection env refresh p) = elements (clearSelection p)
            \<and> prevDataJSON (applyHedgeFromSelection env refresh p) = prevDataJSON p)
       \<and> (\<forall>d view. refresh = Response True (Decoded d) \<and> prevDataJSON p \<noteq> Some (snapshot_fingerprint d)
                  \<and> positions_grid p = Some view \<longrightarrow>
              prevDataJSON (applyHedgeFromSelection env refresh p) = Some (snapshot_fingerprint d)
            \<and> positions_grid (applyHedgeFromSelection env refresh p) =
                (if contracts_or_empty d = [] \<and> rows_or_empty d = []
                 then Some (No_positions product)
                 else Some (Grid \<lparr>headers = contracts_or_empty d,
                                   body_rows = place_rows (length (elements p)) (rows_or_empty d),
                                   scrollLeft = (case view of Grid g \<Rightarrow> scrollLeft g | _ \<Rightarrow> 0)\<rparr>)))"
proof -
  let ?pl = "build_payload product (selectedCells p)"
  let ?p1 = "p\<lparr>requests := requests p @ fst (submit_hedge env ?pl)\<rparr>"
  let ?p2 = "loadPositions refresh (clearSelection ?p1)"
  have run: "applyHedgeFromSelection env refresh p =
               ?p2\<lparr>console := console ?p2 @ [hedge_confirmation data]\<rparr>"
    using assms(1,2) submit_hedge_accepted [OF assms(3), of ?pl]
    by (simp add: applyHedgeFromSelection_def Let_def)
  have prod: "current_product (clearSelection ?p1) = product"
    using assms(2) by (simp add: current_product_def)
  have els: "elements (clearSelection ?p1) = elements (clearSelection p)"
    by (simp add: clearSelection_def)
  have a: "selectedCells (applyHedgeFromSelection env refresh p) = []"
    unfolding run by (simp add: loadPositions_empty_selection)
  have b: "requests (applyHedgeFromSelection env refresh p) =
             requests p @ fst (submit_hedge env ?pl) @ [Get_positions product]"
    unfolding run using prod by simp
  have c: "last (console (applyHedgeFromSelection env refresh p)) =
           ''Hedge applied: '' @ hedged_name data @ '' @ '' @ base_contract data @
           '' (+'' @ js_String (Decimal (hedged_lots data) 0) @ '')''"
    unfolding run by (simp add: hedge_confirmation_def)
  have d: "positions_grid (applyHedgeFromSelection env refresh p) = positions_grid p
            \<and> elements (applyHedgeFromSelection env refresh p) = elements (clearSelection p)
            \<and> prevDataJSON (applyHedgeFromSelection env refresh p) = prevDataJSON p"
    if "refresh = Response True (Decoded d)" "prevDataJSON p = Some (snapshot_fingerprint d)" for d
  proof -
    have "prevDataJSON (clearSelection ?p1) = Some (snapshot_fingerprint d)"
      using that(2) by simp
    from loadPositions_same_fingerprint [OF this] show ?thesis
      using run that(1) els by simp
  qed
  have e: "prevDataJSON (applyHedgeFromSelection env refresh p) = Some (snapshot_fingerprint d)
            \<and> positions_grid (applyHedgeFromSelection env refresh p) =
                (if contracts_or_empty d = [] \<and> rows_or_empty d = []
                 then Some (No_positions product)
                 else Some (Grid \<lparr>headers = contracts_or_empty d,
                                   body_rows = place_rows (length (elements p)) (rows_or_empty d),
                                   scrollLeft = (case view of Grid g \<Rightarrow> scrollLeft g | _ \<Rightarrow> 0)\<rparr>))"
    if "refresh = Response True (Decoded d)" "prevDataJSON p \<noteq> Some (snapshot_fingerprint d)"
       "positions_grid p = Some view" for d view
  proof -
    have 1: "prevDataJSON (clearSelection ?p1) \<noteq> Some (snapshot_fingerprint d)"
      using that(2) by simp
    have 2: "positions_grid (clearSelection ?p1) = Some view"
      using that(3) by simp
    from loadPositions_other_fingerprint [OF 1 2] show ?thesis
      using run that(1) prod by simp
  qed
  show ?thesis using a b c d e by blast
qed

theorem accepted_hedge_effects_witness:
  "selectedCells example_selection \<noteq> []
   \<and> product_select example_selection = Some ''CL''
   \<and> accepted (example_world (Some ''[1,-1]'') (Response True (Decoded applied_hedge))) applied_hedge
   \<and> prevDataJSON example_selection = Some (snapshot_fingerprint example_snapshot)
   \<and> prevDataJSON example_selection \<noteq> Some (snapshot_fingerprint empty_snapshot)
   \<and> positions_grid example_selection = Some (Grid \<lparr>headers = [''F26'', ''G26''],
         body_rows = [(''Fly'', [0, 1]), (''Total'', [2, 3])], scrollLeft = 0\<rparr>)
   \<and> selectedCells (applyHedgeFromSelection
         (example_world (Some ''[1,-1]'') (Response True (Decoded applied_hedge)))
         (Response True (Decoded example_snapshot)) example_selection) = []
   \<and> positions_grid (applyHedgeFromSelection
         (example_world (Some ''[1,-1]'') (Response True (Decoded applied_hedge)))
         (Response True (Decoded example_snapshot)) example_selection) = positions_grid example_selection
   \<and> prevDataJSON (applyHedgeFromSelection
         (example_world (Some ''[1,-1]'') (Response True (Decoded applied_hedge)))
         (Response True (Decoded empty_snapshot)) example_selection) = Some (snapshot_fingerprint empty_snapshot)"
proof -
  let ?env = "example_world (Some ''[1,-1]'') (Response True (Decoded applied_hedge))"
  let ?view = "Grid \<lparr>headers = [''F26'', ''G26''],
         body_rows = [(''Fly'', [0, 1]), (''Total'', [2, 3])], scrollLeft = 0\<rparr>"
  have sel: "selectedCells example_selection \<noteq> []" by code_simp
  have prod: "product_select example_selection = Some ''CL''" by code_simp
  have acc: "accepted ?env applied_hedge" by code_simp
  have same: "prevDataJSON example_selection = Some (snapshot_fingerprint example_snapshot)"
    by code_simp
  have other: "prevDataJSON example_selection \<noteq> Some (snapshot_fingerprint empty_snapshot)"
    by code_simp
  have view: "positions_grid example_selection = Some ?view" by code_simp
  note t1 = accepted_hedge_effects [OF sel prod acc, of "Response True (Decoded example_snapshot)"]
  note t2 = accepted_hedge_effects [OF sel prod acc, of "Response True (Decoded empty_snapshot)"]
  have c1: "selectedCells (applyHedgeFromSelection ?env
              (Response True (Decoded example_snapshot)) example_selection) = []"
    using t1 by blast
  have c2: "positions_grid (applyHedgeFromSelection ?env
              (Response True (Decoded example_snapshot)) example_selection) = positions_grid example_selection"
    using t1 same by blast
  have c3: "prevDataJSON (applyHedgeFromSelection ?env
              (Response True (Decoded empty_snapshot)) example_selection) = Some (snapshot_fingerprint empty_snapshot)"
    using t2 other view by blast
  show ?thesis using sel prod acc same other view c1 c2 c3 by blast
qed

text \<open>
  C1 as stated fails where it says that the refresh bypasses the fingerprint test. The
  operator selects the cell of Fly at F26, which shows 2, and types 7, which the cell
  then shows. The backend accepts the hedge and the snapshot request is answered by the
  snapshot already rendered. The grid is not rendered again: it has the same four cells
  and the first still shows 7.
\<close>

theorem accepted_hedge_not_rerendered:
  "accepted accepting_world applied_hedge
   \<and> span_text (elements example_page ! 0) = ''2''
   \<and> span_text (elements example_selection ! 0) = ''7''
   \<and> displayed_cells (applyHedgeFromSelection accepting_world
        (Response True (Decoded example_snapshot)) example_selection) = [0, 1, 2, 3]
   \<and> span_text (elements (applyHedgeFromSelection accepting_world
        (Response True (Decoded example_snapshot)) example_selection) ! 0) = ''7''
   \<and> length (elements (applyHedgeFromSelection accepting_world
        (Response True (Decoded example_snapshot)) example_selection)) = 4
   \<and> selectedCells (applyHedgeFromSelection accepting_world
        (Response True (Decoded example_snapshot)) example_selection) = []"
  by code_simp

text \<open>
  C2. The first response is a rejection that puts the run into a recovery state, and the
  recovery is resolved. Then the original payload is posted once more: the run posts it
  twice in all, whatever the retry brings. When the retry fails, the run ends there: the
  operator gets an alert with the error, and the page is otherwise what it was, the
  selection included. The retry fails when its fetch is rejected, when the body of its
  response does not decode, and when its response is not ok; the error is then the
  \<^verbatim>\<open>error\<close> of the body, or ``Implement hedge failed on retry'' without one.
\<close>

theorem retry_once_then_final_error:
  assumes "selectedCells p \<noteq> []"
      and "product_select p = Some product"
      and "first_response env = Response False (Decoded data)"
      and "recovery_resolved env data"
  shows "hedge_posts (requests (applyHedgeFromSelection env refresh p)) =
           hedge_posts (requests p)
             @ [build_payload product (selectedCells p), build_payload product (selectedCells p)]
       \<and> (\<forall>msg. retry_response env = Rejected msg \<longrightarrow>
             applyHedgeFromSelection env refresh p =
               p\<lparr>requests := requests p
                      @ Implement_hedge (build_payload product (selectedCells p))
                        # recovery_requests env data
                        @ [Implement_hedge (build_payload product (selectedCells p))],
                 alerts := alerts p @ [''Error: '' @ msg],
                 console := console p @ [msg]\<rparr>
           \<and> selectedCells (applyHedgeFromSelection env refresh p) = selectedCells p)
       \<and> (\<forall>ok msg. retry_response env = Response ok (Undecodable msg) \<longrightarrow>
             applyHedgeFromSelection env refresh p =
               p\<lparr>requests := requests p
                      @ Implement_hedge (build_payload product (selectedCells p))
                        # recovery_requests env data
                        @ [Implement_hedge (build_payload product (selectedCells p))],
                 alerts := alerts p @ [''Error: '' @ msg],
                 console := console p @ [msg]\<rparr>
           \<and> selectedCells (applyHedgeFromSelection env refresh p) = selectedCells p)
       \<and> (\<forall>d. retry_response env = Response False (Decoded d) \<longrightarrow>
             applyHedgeFromSelection env refresh p =
               p\<lparr>requests := requests p
                      @ Implement_hedge (build_payload product (selectedCells p))
                        # recovery_requests env data
                        @ [Implement_hedge (build_payload product (selectedCells p))],
                 alerts := alerts p
                      @ [''Error: '' @ or_default (hd_error d) ''Implement hedge failed on retry''],
                 console := console p
                      @ [or_default (hd_error d) ''Implement hedge failed on retry'']\<rparr>
           \<and> selectedCells (applyHedgeFromSelection env refresh p) = selectedCells p)"
proof -
  let ?pl = "build_payload product (selectedCells p)"
  let ?sent = "Implement_hedge ?pl # recovery_requests env data @ [Implement_hedge ?pl]"
  have sub: "submit_hedge env ?pl = (?sent, retry_result (retry_response env))"
    using submit_hedge_resolved [OF assms(3,4), of ?pl] .
  have failed: "applyHedgeFromSelection env refresh p =
               p\<lparr>requests := requests p @ ?sent,
                 alerts := alerts p @ [''Error: '' @ msg],
                 console := console p @ [msg]\<rparr>"
    if "retry_result (retry_response env) = Inl msg" for msg
    using applyHedgeFromSelection_thrown [OF assms(1,2), of env ?sent msg refresh] sub that by simp
  have posts: "hedge_posts (requests (applyHedgeFromSelection env refresh p)) =
                 hedge_posts (requests p) @ [?pl, ?pl]"
  proof (cases "retry_result (retry_response env)")
    case (Inl msg)
    from failed [OF this] show ?thesis by simp
  next
    case (Inr d)
    then show ?thesis
      using assms(1,2) sub
      by (simp add: applyHedgeFromSelection_def Let_def)
  qed
  have rejected: "applyHedgeFromSelection env refresh p =
               p\<lparr>requests := requests p @ ?sent,
                 alerts := alerts p @ [''Error: '' @ msg],
                 console := console p @ [msg]\<rparr>
           \<and> selectedCells (applyHedgeFromSelection env refresh p) = selectedCells p"
    if "retry_response env = Rejected msg" for msg
  proof -
    have "retry_result (retry_response env) = Inl msg"
      using that by (simp add: retry_result_def)
    from failed [OF this] show ?thesis by simp
  qed
  have undecodable: "applyHedgeFromSelection env refresh p =
               p\<lparr>requests := requests p @ ?sent,
                 alerts := alerts p @ [''Error: '' @ msg],
                 console := console p @ [msg]\<rparr>
           \<and> selectedCells (applyHedgeFromSelection env refresh p) = selectedCells p"
    if "retry_response env = Response ok (Undecodable msg)" for ok msg
  proof -
    have "retry_result (retry_response env) = Inl msg"
      using that by (simp add: retry_result_def)
    from failed [OF this] show ?thesis by simp
  qed
  have not_ok: "applyHedgeFromSelection env refresh p =
               p\<lparr>requests := requests p @ ?sent,
                 alerts := alerts p
                      @ [''Error: '' @ or_default (hd_error d) ''Implement hedge failed on retry''],
                 console := console p
                      @ [or_default (hd_error d) ''Implement hedge failed on retry'']\<rparr>
           \<and> selectedCells (applyHedgeFromSelection env refresh p) = selectedCells p"
    if "retry_response env = Response False (Decoded d)" for d
  proof -
    have "retry_result (retry_response env) =
            Inl (or_default (hd_error d) ''Implement hedge failed on retry'')"
      using that by (simp add: retry_result_def)
    from failed [OF this] show ?thesis by simp
  qed
  show ?thesis using posts rejected undecodable not_ok by blast
qed

theorem retry_once_then_final_error_witness:
  "selectedCells example_selection \<noteq> []
   \<and> product_select example_selection = Some ''CL''
   \<and> first_response (example_world (Some ''[1,-1]'') (Response False (Decoded applied_hedge)))
       = Response False (Decoded missing_X)
   \<and> recovery_resolved (example_world (Some ''[1,-1]'') (Response False (Decoded applied_hedge))) missing_X
   \<and> retry_response (example_world (Some ''[1,-1]'') (Response False (Decoded applied_hedge)))
       = Response False (Decoded applied_hedge)
   \<and> hedge_posts (requests (applyHedgeFromSelection
         (example_world (Some ''[1,-1]'') (Response False (Decoded applied_hedge)))
         (Response True (Decoded example_snapshot)) example_selection)) =
       hedge_posts (requests example_selection)
         @ [build_payload ''CL'' (selectedCells example_selection),
            build_payload ''CL'' (selectedCells example_selection)]
   \<and> selectedCells (applyHedgeFromSelection
         (example_world (Some ''[1,-1]'') (Response False (Decoded applied_hedge)))
         (Response True (Decoded example_snapshot)) example_selection) = selectedCells example_selection
   \<and> alerts (applyHedgeFromSelection
         (example_world (Some ''[1,-1]'') (Response False (Decoded applied_hedge)))
         (Response True (Decoded example_snapshot)) example_selection) =
       alerts example_selection
         @ [''Error: '' @ or_default (hd_error applied_hedge) ''Implement hedge failed on retry'']
   \<and> selectedCells (applyHedgeFromSelection
         (example_world (Some ''[1,-1]'') (Rejected ''Failed to fetch''))
         (Response True (Decoded example_snapshot)) example_selection) = selectedCells example_selection
   \<and> selectedCells (applyHedgeFromSelection
         (example_world (Some ''[1,-1]'') (Response True (Undecodable ''Unexpected token <'')))
         (Response True (Decoded example_snapshot)) example_selection) = selectedCells example_selection"
proof -
  let ?env = "example_world (Some ''[1,-1]'') (Response False (Decoded applied_hedge))"
  let ?env2 = "example_world (Some ''[1,-1]'') (Rejected ''Failed to fetch'')"
  let ?env3 = "example_world (Some ''[1,-1]'') (Response True (Undecodable ''Unexpected token <''))"
  have sel: "selectedCells example_selection \<noteq> []" by code_simp
  have prod: "product_select example_selection = Some ''CL''" by code_simp
  have first: "first_response ?env = Response False (Decoded missing_X)"
              "first_response ?env2 = Response False (Decoded missing_X)"
              "first_response ?env3 = Response False (Decoded missing_X)"
    by (simp_all add: example_world_def)
  have res: "recovery_resolved ?env missing_X" "recovery_resolved ?env2 missing_X"
            "recovery_resolved ?env3 missing_X"
    by code_simp+
  have retry: "retry_response ?env = Response False (Decoded applied_hedge)"
              "retry_response ?env2 = Rejected ''Failed to fetch''"
              "retry_response ?env3 = Response True (Undecodable ''Unexpected token <'')"
    by (simp_all add: example_world_def)
  note t = retry_once_then_final_error [OF sel prod first(1) res(1), of "Response True (Decoded example_snapshot)"]
  note t2 = retry_once_then_final_error [OF sel prod first(2) res(2), of "Response True (Decoded example_snapshot)"]
  note t3 = retry_once_then_final_error [OF sel prod first(3) res(3), of "Response True (Decoded example_snapshot)"]
  have c1: "hedge_posts (requests (applyHedgeFromSelection ?env
              (Response True (Decoded example_snapshot)) example_selection)) =
            hedge_posts (requests example_selection)
              @ [build_payload ''CL'' (selectedCells example_selection),
                 build_payload ''CL'' (selectedCells example_selection)]"
    using t by blast
  have run: "applyHedgeFromSelection ?env (Response True (Decoded example_snapshot)) example_selection =
               example_selection\<lparr>requests := requests example_selection
                      @ Implement_hedge (build_payload ''CL'' (selectedCells example_selection))
                        # recovery_requests ?env missing_X
                        @ [Implement_hedge (build_payload ''CL'' (selectedCells example_selection))],
                 alerts := alerts example_selection
                      @ [''Error: '' @ or_default (hd_error applied_hedge) ''Implement hedge failed on retry''],
                 console := console example_selection
                      @ [or_default (hd_error applied_hedge) ''Implement hedge failed on retry'']\<rparr>"
            "selectedCells (applyHedgeFromSelection ?env
               (Response True (Decoded example_snapshot)) example_selection) = selectedCells example_selection"
    using t retry(1) by blast+
  have c2: "alerts (applyHedgeFromSelection ?env
              (Response True (Decoded example_snapshot)) example_selection) =
            alerts example_selection
              @ [''Error: '' @ or_default (hd_error applied_hedge) ''Implement hedge failed on retry'']"
    unfolding run(1) by simp
  have c3: "selectedCells (applyHedgeFromSelection ?env2
               (Response True (Decoded example_snapshot)) example_selection) = selectedCells example_selection"
    using t2 retry(2) by blast
  have c4: "selectedCells (applyHedgeFromSelection ?env3
               (Response True (Decoded example_snapshot)) example_selection) = selectedCells example_selection"
    using t3 retry(3) by blast
  show ?thesis using sel prod first(1) res(1) retry(1) c1 run(2) c2 c3 c4 by blast
qed

text \<open>
  C3. The operator declines a prompt of the recovery. The run ends with the alert
  ``Error: Operation cancelled by user''. Besides the first post it has sent the
  create-strategy requests of the names before the declined one and no other request:
  none for the declined name, none for a later one, no retry. The page is otherwise what
  it was: selection, panel, grid and cells.
\<close>

theorem decline_aborts:
  assumes "selectedCells p \<noteq> []"
      and "product_select p = Some product"
      and "first_response env = Response False (Decoded data)"
      and "declined env data k"
  shows "applyHedgeFromSelection env refresh p =
           p\<lparr>requests := requests p
                  @ Implement_hedge (build_payload product (selectedCells p))
                    # fst (create_missing env 0 (take k (missing_names data))),
             alerts := alerts p @ [''Error: Operation cancelled by user''],
             console := console p @ [''Operation cancelled by user'']\<rparr>
       \<and> created_names (fst (create_missing env 0 (take k (missing_names data)))) =
           take k (missing_names data)
       \<and> hedge_posts (requests (applyHedgeFromSelection env refresh p)) =
           hedge_posts (requests p) @ [build_payload product (selectedCells p)]"
proof -
  let ?pl = "build_payload product (selectedCells p)"
  from applyHedgeFromSelection_thrown [OF assms(1,2) submit_hedge_declined [OF assms(3,4), of ?pl], of refresh]
  show ?thesis
    using created_names_resolved [OF missing_names_declined [OF assms(4)]] by simp
qed

theorem decline_aborts_witness:
  "selectedCells example_selection \<noteq> []
   \<and> product_select example_selection = Some ''CL''
   \<and> first_response (example_world None (Response True (Decoded applied_hedge)))
       = Response False (Decoded missing_X)
   \<and> declined (example_world None (Response True (Decoded applied_hedge))) missing_X 0
   \<and> hedge_posts (requests (applyHedgeFromSelection
         (example_world None (Response True (Decoded applied_hedge)))
         (Response True (Decoded example_snapshot)) example_selection)) =
       hedge_posts (requests example_selection) @ [build_payload ''CL'' (selectedCells example_selection)]
   \<and> created_names (fst (create_missing (example_world None (Response True (Decoded applied_hedge))) 0
         (take 0 (missing_names missing_X)))) = take 0 (missing_names missing_X)"
proof -
  let ?env = "example_world None (Response True (Decoded applied_hedge))"
  have sel: "selectedCells example_selection \<noteq> []" by code_simp
  have prod: "product_select example_selection = Some ''CL''" by code_simp
  have first: "first_response ?env = Response False (Decoded missing_X)"
    by (simp add: example_world_def)
  have dec: "declined ?env missing_X 0" by code_simp
  show ?thesis
    using sel prod first dec
      decline_aborts [OF sel prod first dec, of "Response True (Decoded example_snapshot)"]
    by blast
qed

text \<open>
  C4 (as the script has it). In the missing-strategies state the operator's text is
  evaluated as JavaScript. When the evaluation throws or its value is not an array, the
  run ends with the alert ``Error: Invalid pattern provided for'' and the name, having
  sent create-strategy requests for the names before it only; the page is otherwise
  what it was. When the value is an array, nothing is asked of its elements but that
  \<^verbatim>\<open>JSON.stringify\<close> can print them: then the next request of the run is the
  create-strategy request for the name with that array as the pattern. When it cannot
  (a BigInt or a cycle in the array), the run ends with the message of the TypeError as
  the alert and no request for the name.
\<close>

theorem invalid_pattern_aborts:
  assumes "selectedCells p \<noteq> []"
      and "product_select p = Some product"
      and "first_response env = Response False (Decoded data)"
  shows "(invalid_pattern_at env data k \<longrightarrow>
            applyHedgeFromSelection env refresh p =
              p\<lparr>requests := requests p
                     @ Implement_hedge (build_payload product (selectedCells p))
                       # fst (create_missing env 0 (take k (missing_names data))),
                alerts := alerts p @ [''Error: Invalid pattern provided for '' @ missing_names data ! k],
                console := console p @ [''Invalid pattern provided for '' @ missing_names data ! k]\<rparr>
          \<and> created_names (fst (create_missing env 0 (take k (missing_names data)))) =
              take k (missing_names data))
       \<and> (\<forall>xs. array_given_at env data k xs \<and> list_all json_printable xs \<longrightarrow>
            take (length (requests p) + k + 2) (requests (applyHedgeFromSelection env refresh p)) =
              requests p
                @ Implement_hedge (build_payload product (selectedCells p))
                  # fst (create_missing env 0 (take k (missing_names data)))
                  @ [Create_strategy (missing_names data ! k) (JArr xs)]
          \<and> created_names (fst (create_missing env 0 (take k (missing_names data)))) =
              take k (missing_names data))
       \<and> (\<forall>xs. array_given_at env data k xs \<and> \<not> list_all json_printable xs \<longrightarrow>
            applyHedgeFromSelection env refresh p =
              p\<lparr>requests := requests p
                     @ Implement_hedge (build_payload product (selectedCells p))
                       # fst (create_missing env 0 (take k (missing_names data))),
                alerts := alerts p @ [''Error: '' @ stringify_error env],
                console := console p @ [stringify_error env]\<rparr>
          \<and> created_names (fst (create_missing env 0 (take k (missing_names data)))) =
              take k (missing_names data))"
proof -
  let ?pl = "build_payload product (selectedCells p)"
  let ?before = "fst (create_missing env 0 (take k (missing_names data)))"
  have invalid: "applyHedgeFromSelection env refresh p =
              p\<lparr>requests := requests p @ Implement_hedge ?pl # ?before,
                alerts := alerts p @ [''Error: Invalid pattern provided for '' @ missing_names data ! k],
                console := console p @ [''Invalid pattern provided for '' @ missing_names data ! k]\<rparr>
          \<and> created_names ?before = take k (missing_names data)"
    if inv: "invalid_pattern_at env data k"
    using applyHedgeFromSelection_thrown [OF assms(1,2) submit_hedge_invalid [OF assms(3) inv, of ?pl], of refresh]
      created_names_resolved [OF missing_names_invalid [OF inv]]
    by simp
  have sent: "take (length (requests p) + k + 2) (requests (applyHedgeFromSelection env refresh p)) =
              requests p @ Implement_hedge ?pl # ?before
                @ [Create_strategy (missing_names data ! k) (JArr xs)]
          \<and> created_names ?before = take k (missing_names data)"
    if given: "array_given_at env data k xs" and printable: "list_all json_printable xs" for xs
  proof -
    obtain more where more: "fst (submit_hedge env ?pl) =
        Implement_hedge ?pl # ?before @ Create_strategy (missing_names data ! k) (JArr xs) # more"
      using submit_hedge_array [OF assms(3) given printable, of ?pl] by blast
    obtain rest where rest: "requests (applyHedgeFromSelection env refresh p) =
        requests p @ fst (submit_hedge env ?pl) @ rest"
      using applyHedgeFromSelection_requests [OF assms(1,2), of env refresh] by blast
    have len: "length ?before = k"
      using create_missing_length [OF missing_names_array(1) [OF given]] missing_names_array(2) [OF given]
      by simp
    have "take (length (requests p) + k + 2) (requests (applyHedgeFromSelection env refresh p)) =
            requests p @ Implement_hedge ?pl # ?before
              @ [Create_strategy (missing_names data ! k) (JArr xs)]"
      unfolding rest more using len by simp
    then show ?thesis
      using created_names_resolved [OF missing_names_array(1) [OF given]] by simp
  qed
  have thrown: "applyHedgeFromSelection env refresh p =
              p\<lparr>requests := requests p @ Implement_hedge ?pl # ?before,
                alerts := alerts p @ [''Error: '' @ stringify_error env],
                console := console p @ [stringify_error env]\<rparr>
          \<and> created_names ?before = take k (missing_names data)"
    if given: "array_given_at env data k xs" and unprintable: "\<not> list_all json_printable xs" for xs
    using applyHedgeFromSelection_thrown [OF assms(1,2)
        submit_hedge_unprintable [OF assms(3) given unprintable, of ?pl], of refresh]
      created_names_resolved [OF missing_names_array(1) [OF given]]
    by simp
  show ?thesis using invalid sent thrown by blast
qed

theorem invalid_pattern_aborts_witness:
  "selectedCells example_selection \<noteq> []
   \<and> product_select example_selection = Some ''CL''
   \<and> first_response (example_world (Some ''7'') (Response True (Decoded applied_hedge)))
       = Response False (Decoded missing_X)
   \<and> invalid_pattern_at (example_world (Some ''7'') (Response True (Decoded applied_hedge))) missing_X 0
   \<and> applyHedgeFromSelection (example_world (Some ''7'') (Response True (Decoded applied_hedge)))
         (Response True (Decoded example_snapshot)) example_selection =
       example_selection
         \<lparr>requests := requests example_selection
             @ Implement_hedge (build_payload ''CL'' (selectedCells example_selection))
               # fst (create_missing (example_world (Some ''7'') (Response True (Decoded applied_hedge))) 0
                       (take 0 (missing_names missing_X))),
          alerts := alerts example_selection
             @ [''Error: Invalid pattern provided for '' @ missing_names missing_X ! 0],
          console := console example_selection
             @ [''Invalid pattern provided for '' @ missing_names missing_X ! 0]\<rparr>
   \<and> array_given_at (example_world (Some ''[true,null]'') (Response True (Decoded applied_hedge)))
        missing_X 0 [JBool True, JNull]
   \<and> list_all json_printable [JBool True, JNull]
   \<and> take (length (requests example_selection) + 0 + 2)
        (requests (applyHedgeFromSelection
           (example_world (Some ''[true,null]'') (Response True (Decoded applied_hedge)))
           (Response True (Decoded example_snapshot)) example_selection)) =
       requests example_selection
         @ Implement_hedge (build_payload ''CL'' (selectedCells example_selection))
           # fst (create_missing
                   (example_world (Some ''[true,null]'') (Response True (Decoded applied_hedge))) 0
                   (take 0 (missing_names missing_X)))
           @ [Create_strategy (missing_names missing_X ! 0) (JArr [JBool True, JNull])]
   \<and> array_given_at (example_world (Some ''[1n]'') (Response True (Decoded applied_hedge)))
        missing_X 0 [JBigInt 1]
   \<and> \<not> list_all json_printable [JBigInt 1]
   \<and> applyHedgeFromSelection (example_world (Some ''[1n]'') (Response True (Decoded applied_hedge)))
         (Response True (Decoded example_snapshot)) example_selection =
       example_selection
         \<lparr>requests := requests example_selection
             @ Implement_hedge (build_payload ''CL'' (selectedCells example_selection))
               # fst (create_missing (example_world (Some ''[1n]'') (Response True (Decoded applied_hedge))) 0
                       (take 0 (missing_names missing_X))),
          alerts := alerts example_selection
             @ [''Error: '' @ stringify_error
                  (example_world (Some ''[1n]'') (Response True (Decoded applied_hedge)))],
          console := console example_selection
             @ [stringify_error
                  (example_world (Some ''[1n]'') (Response True (Decoded applied_hedge)))]\<rparr>"
proof -
  let ?env = "example_world (Some ''7'') (Response True (Decoded applied_hedge))"
  let ?env2 = "example_world (Some ''[true,null]'') (Response True (Decoded applied_hedge))"
  let ?env3 = "example_world (Some ''[1n]'') (Response True (Decoded applied_hedge))"
  have sel: "selectedCells example_selection \<noteq> []" by code_simp
  have prod: "product_select example_selection = Some ''CL''" by code_simp
  have first: "first_response ?env = Response False (Decoded missing_X)"
              "first_response ?env2 = Response False (Decoded missing_X)"
              "first_response ?env3 = Response False (Decoded missing_X)"
    by (simp_all add: example_world_def)
  have inv: "invalid_pattern_at ?env missing_X 0" by code_simp
  have given: "array_given_at ?env2 missing_X 0 [JBool True, JNull]" by code_simp
  have printable: "list_all json_printable [JBool True, JNull]" by simp
  have given3: "array_given_at ?env3 missing_X 0 [JBigInt 1]" by code_simp
  have unprintable: "\<not> list_all json_printable [JBigInt 1]" by simp
  note t = invalid_pattern_aborts [OF sel prod first(1), of 0 "Response True (Decoded example_snapshot)"]
  note t2 = invalid_pattern_aborts [OF sel prod first(2), of 0 "Response True (Decoded example_snapshot)"]
  note t3 = invalid_pattern_aborts [OF sel prod first(3), of 0 "Response True (Decoded example_snapshot)"]
  have c1: "applyHedgeFromSelection ?env (Response True (Decoded example_snapshot)) example_selection =
       example_selection
         \<lparr>requests := requests example_selection
             @ Implement_hedge (build_payload ''CL'' (selectedCells example_selection))
               # fst (create_missing ?env 0 (take 0 (missing_names missing_X))),
          alerts := alerts example_selection
             @ [''Error: Invalid pattern provided for '' @ missing_names missing_X ! 0],
          console := console example_selection
             @ [''Invalid pattern provided for '' @ missing_names missing_X ! 0]\<rparr>"
    using t inv by blast
  have c2: "take (length (requests example_selection) + 0 + 2)
        (requests (applyHedgeFromSelection ?env2
           (Response True (Decoded example_snapshot)) example_selection)) =
       requests example_selection
         @ Implement_hedge (build_payload ''CL'' (selectedCells example_selection))
           # fst (create_missing ?env2 0 (take 0 (missing_names missing_X)))
           @ [Create_strategy (missing_names missing_X ! 0) (JArr [JBool True, JNull])]"
    using t2 given printable by blast
  have c3: "applyHedgeFromSelection ?env3 (Response True (Decoded example_snapshot)) example_selection =
       example_selection
         \<lparr>requests := requests example_selection
             @ Implement_hedge (build_payload ''CL'' (selectedCells example_selection))
               # fst (create_missing ?env3 0 (take 0 (missing_names missing_X))),
          alerts := alerts example_selection @ [''Error: '' @ stringify_error ?env3],
          console := console example_selection @ [stringify_error ?env3]\<rparr>"
    using t3 given3 unprintable by blast
  show ?thesis
    using sel prod first(1) inv c1 given printable c2 given3 unprintable c3 by blast
qed

text \<open>
  C4 as stated fails where it says that the text is parsed as a strict numeric array.
  The operator answers \<^verbatim>\<open>[true,null]\<close>, an array without a number in it: the
  strategy X is created with that pattern, the hedge is retried, and no error is shown.
\<close>

theorem non_numeric_array_is_sent:
  "prompt_answer (example_world (Some ''[true,null]'') (Response True (Decoded applied_hedge))) 0
     = Some ''[true,null]''
   \<and> js_eval (example_world (Some ''[true,null]'') (Response True (Decoded applied_hedge))) ''[true,null]''
     = Some (JArr [JBool True, JNull])
   \<and> requests (applyHedgeFromSelection
        (example_world (Some ''[true,null]'') (Response True (Decoded applied_hedge)))
        (Response True (Decoded example_snapshot)) example_selection) =
      [Get_positions ''CL'',
       Implement_hedge (build_payload ''CL'' (selectedCells example_selection)),
       Create_strategy ''X'' (JArr [JBool True, JNull]),
       Implement_hedge (build_payload ''CL'' (selectedCells example_selection)),
       Get_positions ''CL'']
   \<and> alerts (applyHedgeFromSelection
        (example_world (Some ''[true,null]'') (Response True (Decoded applied_hedge)))
        (Response True (Decoded example_snapshot)) example_selection) = []"
  by code_simp

section \<open>Reading numbers: the payload and the panel\<close>

lemma digit_not_ws: "is_digit c \<Longrightarrow> \<not> is_ws c"
  by (auto simp: is_digit_def is_ws_def)

lemma digit_not_sign: "is_digit c \<Longrightarrow> c \<noteq> CHR ''+'' \<and> c \<noteq> CHR ''-'' \<and> c \<noteq> CHR ''.''"
  by (auto simp: is_digit_def)

lemma sign_not_ws: "\<not> is_ws (CHR ''+'')" "\<not> is_ws (CHR ''-'')"
  by (simp_all add: is_ws_def)

lemma sign_not_digit: "\<not> is_digit (CHR ''+'')" "\<not> is_digit (CHR ''-'')"
  by (simp_all add: is_digit_def)

lemma bitlen_le: "n < 2 ^ k \<Longrightarrow> bitlen n \<le> k"
proof (induction k arbitrary: n)
  case 0
  then show ?case by (simp add: bitlen.simps)
next
  case (Suc k)
  have "n div 2 < 2 ^ k" using Suc.prems by auto
  from Suc.IH [OF this] show ?case by (subst bitlen.simps) simp
qed

lemma round_to_double_exact:
  assumes "\<bar>n\<bar> < 2 ^ 53"
  shows "round_to_double n = Decimal n 0"
proof -
  have a: "nat \<bar>n\<bar> < 2 ^ 53" using assms by (simp add: nat_less_iff)
  have e: "bitlen (nat \<bar>n\<bar>) - 53 = 0" using bitlen_le [OF a] by simp
  have small: "\<not> 1024 < bitlen (nat \<bar>n\<bar>)" using bitlen_le [OF a] by simp
  show ?thesis
    unfolding round_to_double_def Let_def e using small by auto
qed

lemma bitlen_ge: "2 ^ k \<le> n \<Longrightarrow> k < bitlen n"
proof (induction k arbitrary: n)
  case 0
  then show ?case by (subst bitlen.simps) simp
next
  case (Suc k)
  have "2 ^ k \<le> n div 2" using Suc.prems by auto
  have "0 < (2::nat) ^ Suc k" by simp
  then have "0 < n" using Suc.prems by linarith
  then show ?case using Suc.IH [OF \<open>2 ^ k \<le> n div 2\<close>] by (subst bitlen.simps) simp
qed

lemma bitlen_lower: "0 < n \<Longrightarrow> 2 ^ (bitlen n - 1) \<le> n"
proof (induction n rule: bitlen.induct)
  case (1 n)
  show ?case
  proof (cases "n div 2 = 0")
    case True
    then have "bitlen (n div 2) = 0" by (simp add: bitlen.simps)
    then show ?thesis using 1(2) by (subst bitlen.simps) simp
  next
    case False
    then have pos: "0 < n div 2" by simp
    have ih: "2 ^ (bitlen (n div 2) - 1) \<le> n div 2"
      using 1(1) [OF _ pos] 1(2) by simp
    have b: "0 < bitlen (n div 2)" using False by (subst bitlen.simps) simp
    have "bitlen n - 1 = Suc (bitlen (n div 2) - 1)"
      using 1(2) b by (subst bitlen.simps) simp
    then show ?thesis using ih by (simp add: power_Suc) 
  qed
qed

lemma round_to_double_overflow:
  assumes "2 ^ 1024 \<le> n"
  shows "round_to_double (int n) = Infinity"
    and "round_to_double (- int n) = Neg_Infinity"
proof -
  define e where "e = bitlen n - 53"
  have big: "1024 < bitlen n" using bitlen_ge [OF assms] .
  have "0 < (2::nat) ^ 1024" by simp
  then have pos: "0 < n" using assms by linarith
  have low: "2 ^ (bitlen n - 1) \<le> n" using bitlen_lower [OF pos] .
  have split: "bitlen n - 1 = 52 + e" using big by (simp add: e_def)
  have "2 ^ 52 * 2 ^ e \<le> n" using low unfolding split by (simp add: power_add)
  then have q: "2 ^ 52 \<le> n div 2 ^ e"
    by (simp add: less_eq_div_iff_mult_less_eq)
  have m: "2 ^ 1024 \<le> q' * 2 ^ e" if "n div 2 ^ e \<le> q'" for q'
  proof -
    have "(2::nat) ^ 1024 \<le> 2 ^ (bitlen n - 1)" using big by (intro power_increasing) simp_all
    also have "\<dots> = 2 ^ 52 * 2 ^ e" unfolding split by (simp add: power_add)
    also have "\<dots> \<le> q' * 2 ^ e" using q that by (intro mult_right_mono) simp_all
    finally show ?thesis .
  qed
  have over: "1024 < bitlen (q' * 2 ^ e)" if "n div 2 ^ e \<le> q'" for q'
    using bitlen_ge [OF m [OF that]] .
  have a: "nat \<bar>int n\<bar> = n" "nat \<bar>- int n\<bar> = n" by simp_all
  have neg: "- int n < 0" "\<not> int n < 0" using pos by simp_all
  show "round_to_double (int n) = Infinity"
    unfolding round_to_double_def Let_def a e_def [symmetric]
    using over [of "n div 2 ^ e"] over [of "n div 2 ^ e + 1"] neg by auto
  show "round_to_double (- int n) = Neg_Infinity"
    unfolding round_to_double_def Let_def a e_def [symmetric]
    using over [of "n div 2 ^ e"] over [of "n div 2 ^ e + 1"] neg by auto
qed

lemma dropWhile_ws_append:
  assumes "list_all is_ws ws" "x = [] \<or> \<not> is_ws (hd x)"
  shows "dropWhile is_ws (ws @ x) = x"
  using assms by (induction ws) (auto simp: dropWhile_eq_self_iff)

lemma takeWhile_digits_append:
  assumes "list_all is_digit ds" "rest = [] \<or> \<not> is_digit (hd rest)"
  shows "takeWhile is_digit (ds @ rest) = ds"
  using assms by (induction ds) (auto simp: takeWhile_eq_Nil_iff)

lemma js_parseInt10_drop: "js_parseInt10 (dropWhile is_ws s) = js_parseInt10 s"
  by (simp add: js_parseInt10_def)

lemma js_parseInt10_trailing:
  assumes "list_all is_ws w"
  shows "js_parseInt10 (x @ w) = js_parseInt10 x"
proof (cases "dropWhile is_ws x")
  case Nil
  then have "\<forall>y\<in>set x. is_ws y" by simp
  moreover have "\<forall>y\<in>set w. is_ws y" using assms by (simp add: list_all_iff)
  ultimately have dxw: "dropWhile is_ws (x @ w) = []" by simp
  show ?thesis unfolding js_parseInt10_def Let_def Nil dxw by simp
next
  case (Cons c r)
  then obtain y where y: "y \<in> set x" "\<not> is_ws y"
    by (metis dropWhile_eq_Nil_conv list.distinct(1))
  have dw: "dropWhile is_ws (x @ w) = c # r @ w"
    using dropWhile_append1 [of y x is_ws w] y Cons by simp
  have w: "w = [] \<or> \<not> is_digit (hd w)"
    using assms digit_not_ws by (cases w) auto
  have tw: "takeWhile is_digit (y @ w) = takeWhile is_digit y" for y
    using w by (induction y) (auto simp: takeWhile_eq_Nil_iff)
  have u: "(case c # r @ w of [] \<Rightarrow> c # r @ w
            | c' # r' \<Rightarrow> if c' = CHR ''+'' \<or> c' = CHR ''-'' then r' else c # r @ w) =
           (case c # r of [] \<Rightarrow> c # r
            | c' # r' \<Rightarrow> if c' = CHR ''+'' \<or> c' = CHR ''-'' then r' else c # r) @ w"
    by simp
  show ?thesis
    unfolding js_parseInt10_def Let_def dw Cons u tw by simp
qed

lemma js_trim_split:
  "\<exists>w. list_all is_ws w \<and> dropWhile is_ws s = js_trim s @ w"
proof -
  let ?t = "dropWhile is_ws s"
  have "rev (dropWhile is_ws (rev ?t)) @ rev (takeWhile is_ws (rev ?t)) = ?t"
    by (metis rev_append rev_rev_ident takeWhile_dropWhile_id)
  moreover have "list_all is_ws (rev (takeWhile is_ws (rev ?t)))"
    by (simp add: list_all_iff) (metis set_takeWhileD)
  ultimately show ?thesis unfolding js_trim_def by metis
qed

lemma parse_lots_untrimmed: "parse_lots v = or_zero (js_parseInt10 v)"
proof -
  obtain w where w: "list_all is_ws w" "dropWhile is_ws v = js_trim v @ w"
    using js_trim_split by blast
  have "js_parseInt10 v = js_parseInt10 (js_trim v @ w)"
    using js_parseInt10_drop [of v] w(2) by simp
  also have "\<dots> = js_parseInt10 (js_trim v)" using js_parseInt10_trailing [OF w(1)] .
  finally show ?thesis by (simp add: parse_lots_def)
qed

lemma js_parseInt10_no_digit:
  assumes "list_all is_ws ws" "rest = [] \<or> \<not> is_digit (hd rest)"
  shows "js_parseInt10 (ws @ CHR ''+'' # rest) = NaN"
    and "js_parseInt10 (ws @ CHR ''-'' # rest) = NaN"
    and "rest = [] \<or> (\<not> is_ws (hd rest) \<and> hd rest \<noteq> CHR ''+'' \<and> hd rest \<noteq> CHR ''-'')
         \<Longrightarrow> js_parseInt10 (ws @ rest) = NaN"
proof -
  have tw: "takeWhile is_digit rest = []"
    using assms(2) by (cases rest) auto
  show "js_parseInt10 (ws @ CHR ''+'' # rest) = NaN"
    unfolding js_parseInt10_def Let_def
    using dropWhile_ws_append [OF assms(1), of "CHR ''+'' # rest"] sign_not_ws tw by simp
  show "js_parseInt10 (ws @ CHR ''-'' # rest) = NaN"
    unfolding js_parseInt10_def Let_def
    using dropWhile_ws_append [OF assms(1), of "CHR ''-'' # rest"] sign_not_ws tw by simp
  assume r: "rest = [] \<or> (\<not> is_ws (hd rest) \<and> hd rest \<noteq> CHR ''+'' \<and> hd rest \<noteq> CHR ''-'')"
  then have dw: "dropWhile is_ws (ws @ rest) = rest"
    using dropWhile_ws_append [OF assms(1), of rest] by blast
  show "js_parseInt10 (ws @ rest) = NaN"
    unfolding js_parseInt10_def Let_def dw using r tw by (cases rest) auto
qed

lemma js_parseInt10_digits:
  assumes "list_all is_ws ws" "ds \<noteq> []" "list_all is_digit ds" "rest = [] \<or> \<not> is_digit (hd rest)"
  shows "js_parseInt10 (ws @ ds @ rest) = round_to_double (int (digits_val ds))"
    and "js_parseInt10 (ws @ CHR ''+'' # ds @ rest) = round_to_double (int (digits_val ds))"
    and "js_parseInt10 (ws @ CHR ''-'' # ds @ rest) = round_to_double (- int (digits_val ds))"
proof -
  obtain c cs where ds: "ds = c # cs" using assms(2) by (cases ds) auto
  have c: "is_digit c" using assms(3) ds by simp
  have c': "\<not> is_ws c" "c \<noteq> CHR ''+''" "c \<noteq> CHR ''-''"
    using c digit_not_ws digit_not_sign by auto
  have tw: "takeWhile is_digit (ds @ rest) = ds"
    using takeWhile_digits_append [OF assms(3,4)] .
  have dw: "dropWhile is_ws (ws @ ds @ rest) = ds @ rest"
    using dropWhile_ws_append [OF assms(1), of "ds @ rest"] c' ds by simp
  show "js_parseInt10 (ws @ ds @ rest) = round_to_double (int (digits_val ds))"
    unfolding js_parseInt10_def Let_def dw using tw c' assms(2) by (simp add: ds)
  have dwp: "dropWhile is_ws (ws @ CHR ''+'' # ds @ rest) = CHR ''+'' # ds @ rest"
    using dropWhile_ws_append [OF assms(1), of "CHR ''+'' # ds @ rest"] sign_not_ws by simp
  show "js_parseInt10 (ws @ CHR ''+'' # ds @ rest) = round_to_double (int (digits_val ds))"
    unfolding js_parseInt10_def Let_def dwp using tw assms(2) by simp
  have dwm: "dropWhile is_ws (ws @ CHR ''-'' # ds @ rest) = CHR ''-'' # ds @ rest"
    using dropWhile_ws_append [OF assms(1), of "CHR ''-'' # ds @ rest"] sign_not_ws by simp
  show "js_parseInt10 (ws @ CHR ''-'' # ds @ rest) = round_to_double (- int (digits_val ds))"
    unfolding js_parseInt10_def Let_def dwm using tw assms(2) by simp
qed

lemma js_trim_digits:
  assumes "ds \<noteq> []" "list_all is_digit ds"
  shows "js_trim ds = ds" "js_trim (CHR ''-'' # ds) = CHR ''-'' # ds"
proof -
  obtain c cs where ds: "ds = c # cs" using assms(1) by (cases ds) auto
  have first: "\<not> is_ws c" using assms(2) ds by (simp add: digit_not_ws)
  have lst: "\<not> is_ws (last ds)"
    using assms by (metis digit_not_ws last_in_set list_all_iff)
  have "dropWhile is_ws (rev ds) = rev ds"
    using lst assms(1) by (simp add: dropWhile_eq_self_iff hd_rev)
  then show "js_trim ds = ds"
    using ds first by (simp add: js_trim_def)
  have m: "\<not> is_ws (CHR ''-'')" by (simp add: is_ws_def)
  have "dropWhile is_ws (rev (CHR ''-'' # ds)) = rev (CHR ''-'' # ds)"
    using lst assms(1) by (simp add: dropWhile_eq_self_iff hd_rev hd_append)
  then show "js_trim (CHR ''-'' # ds) = CHR ''-'' # ds"
    using m by (simp add: js_trim_def)
qed

lemma takeWhile_digits:
  "list_all is_digit ds \<Longrightarrow> takeWhile is_digit ds = ds \<and> dropWhile is_digit ds = []"
  by (simp add: list_all_iff)

lemma str_decimal_digits:
  assumes "ds \<noteq> []" "list_all is_digit ds"
  shows "str_decimal ds = Decimal (int (digits_val ds)) 0"
    and "str_decimal (CHR ''-'' # ds) = Decimal (- int (digits_val ds)) 0"
proof -
  obtain c cs where ds: "ds = c # cs" using assms(1) by (cases ds) auto
  have c: "c \<noteq> CHR ''+''" "c \<noteq> CHR ''-''"
    using assms(2) ds digit_not_sign by auto
  have tw: "takeWhile is_digit (c # cs) = c # cs" "dropWhile is_digit (c # cs) = []"
    using takeWhile_digits [OF assms(2)] ds by simp_all
  show "str_decimal ds = Decimal (int (digits_val ds)) 0"
    unfolding str_decimal_def using c tw by (simp add: ds Let_def exponent_part_def)
  show "str_decimal (CHR ''-'' # ds) = Decimal (- int (digits_val ds)) 0"
    unfolding str_decimal_def using tw by (simp add: ds Let_def exponent_part_def)
qed

lemma js_Number_digits:
  assumes "ds \<noteq> []" "list_all is_digit ds"
  shows "js_Number ds = Decimal (int (digits_val ds)) 0"
    and "js_Number (CHR ''-'' # ds) = Decimal (- int (digits_val ds)) 0"
proof -
  obtain c cs where ds: "ds = c # cs" using assms(1) by (cases ds) auto
  have c: "is_digit c" using assms(2) ds by simp
  have notI: "c \<noteq> CHR ''I''" "c \<noteq> CHR ''+''" "c \<noteq> CHR ''-''"
    using c by (auto simp: is_digit_def)
  have second: "cs = [] \<or> is_digit (hd cs)"
    using assms(2) ds by (cases cs) auto
  have no_prefix: "take 2 ds \<noteq> ''0x''" "take 2 ds \<noteq> ''0X''" "take 2 ds \<noteq> ''0o''"
      "take 2 ds \<noteq> ''0O''" "take 2 ds \<noteq> ''0b''" "take 2 ds \<noteq> ''0B''"
    using second ds by (cases cs; auto simp: is_digit_def)+
  show "js_Number ds = Decimal (int (digits_val ds)) 0"
    unfolding js_Number_def js_trim_digits(1) [OF assms] Let_def
    using no_prefix notI assms(1) str_decimal_digits(1) [OF assms] by (auto simp: ds)
  have no_prefix': "take 2 (CHR ''-'' # ds) \<noteq> ''0x''" "take 2 (CHR ''-'' # ds) \<noteq> ''0X''"
      "take 2 (CHR ''-'' # ds) \<noteq> ''0o''" "take 2 (CHR ''-'' # ds) \<noteq> ''0O''"
      "take 2 (CHR ''-'' # ds) \<noteq> ''0b''" "take 2 (CHR ''-'' # ds) \<noteq> ''0B''"
    by simp_all
  have notInf: "CHR ''-'' # ds \<noteq> ''-Infinity''"
    using notI ds by auto
  show "js_Number (CHR ''-'' # ds) = Decimal (- int (digits_val ds)) 0"
    unfolding js_Number_def js_trim_digits(2) [OF assms] Let_def
    using no_prefix' notInf str_decimal_digits(2) [OF assms] by simp
qed

lemma oninput_valNum_empty: "oninput_valNum [] = Decimal 0 0"
  by (simp add: oninput_valNum_def js_Number_def js_trim_def or_zero_def)

lemma digits_val_example: "digits_val ''9007199254740993'' = 9007199254740993"
  by (simp add: digits_val_def digit_val_def)
lemma bitlen_example: "bitlen 9007199254740993 = 54" "bitlen 9007199254740992 = 54"
  by (simp_all add: bitlen.simps)
lemma round_to_double_example: "round_to_double 9007199254740993 = Decimal 9007199254740992 0"
proof -
  have a: "nat \<bar>9007199254740993::int\<bar> = 9007199254740993" by simp
  show ?thesis
    unfolding round_to_double_def Let_def a bitlen_example by (simp add: bitlen_example)
qed
lemma parse_lots_example: "parse_lots ''9007199254740993'' = Decimal 9007199254740992 0"
proof -
  have ds: "list_all is_digit ''9007199254740993''" by (simp add: is_digit_def)
  have "js_parseInt10 ''9007199254740993'' = round_to_double 9007199254740993"
    using js_parseInt10_digits(1) [of "[]" "''9007199254740993''" "[]"] ds digits_val_example by simp
  then show ?thesis
    by (simp add: parse_lots_untrimmed round_to_double_example or_zero_def)
qed

lemma overflowing_text_digits:
  "overflowing_text \<noteq> []" "list_all is_digit overflowing_text"
  by (simp_all add: overflowing_text_def is_digit_def)

lemma overflowing_text_val: "2 ^ 1024 \<le> digits_val overflowing_text"
  by (simp add: overflowing_text_def digits_val_def digit_val_def)

lemma parse_lots_no_digit:
  assumes "list_all is_ws ws" "rest = [] \<or> \<not> is_digit (hd rest)"
  shows "parse_lots (ws @ CHR ''+'' # rest) = Decimal 0 0"
    and "parse_lots (ws @ CHR ''-'' # rest) = Decimal 0 0"
    and "rest = [] \<or> (\<not> is_ws (hd rest) \<and> hd rest \<noteq> CHR ''+'' \<and> hd rest \<noteq> CHR ''-'')
         \<Longrightarrow> parse_lots (ws @ rest) = Decimal 0 0"
  using js_parseInt10_no_digit [OF assms]
  by (simp_all add: parse_lots_untrimmed or_zero_def)

lemma parse_lots_digits:
  assumes "list_all is_ws ws" "ds \<noteq> []" "list_all is_digit ds" "rest = [] \<or> \<not> is_digit (hd rest)"
  shows "parse_lots (ws @ ds @ rest) = or_zero (round_to_double (int (digits_val ds)))"
    and "parse_lots (ws @ CHR ''+'' # ds @ rest) = or_zero (round_to_double (int (digits_val ds)))"
    and "parse_lots (ws @ CHR ''-'' # ds @ rest) = or_zero (round_to_double (- int (digits_val ds)))"
  using js_parseInt10_digits [OF assms]
  by (simp_all add: parse_lots_untrimmed)

lemma or_zero_exact:
  assumes "digits_val ds < 2 ^ 53"
  shows "or_zero (round_to_double (int (digits_val ds))) = Decimal (int (digits_val ds)) 0"
    and "or_zero (round_to_double (- int (digits_val ds))) = Decimal (- int (digits_val ds)) 0"
proof -
  have "int (digits_val ds) < 2 ^ 53"
    using assms by (metis of_nat_less_iff of_nat_numeral of_nat_power)
  then have b: "\<bar>int (digits_val ds)\<bar> < 2 ^ 53" "\<bar>- int (digits_val ds)\<bar> < 2 ^ 53"
    by simp_all
  show "or_zero (round_to_double (int (digits_val ds))) = Decimal (int (digits_val ds)) 0"
    unfolding round_to_double_exact [OF b(1)] by (simp add: or_zero_def)
  show "or_zero (round_to_double (- int (digits_val ds))) = Decimal (- int (digits_val ds)) 0"
    unfolding round_to_double_exact [OF b(2)] by (simp add: or_zero_def)
qed

lemma oninput_agrees_on_integers:
  assumes "ds \<noteq> []" "list_all is_digit ds" "digits_val ds < 2 ^ 53"
  shows "oninput_valNum ds = parse_lots ds"
    and "oninput_valNum (CHR ''-'' # ds) = parse_lots (CHR ''-'' # ds)"
proof -
  have p: "parse_lots ds = Decimal (int (digits_val ds)) 0"
          "parse_lots (CHR ''-'' # ds) = Decimal (- int (digits_val ds)) 0"
    using parse_lots_digits(1,3) [of "[]" ds "[]"] assms(1,2) or_zero_exact [OF assms(3)]
    by simp_all
  show "oninput_valNum ds = parse_lots ds"
    unfolding p oninput_valNum_def js_Number_digits(1) [OF assms(1,2)]
    by (simp add: or_zero_def)
  show "oninput_valNum (CHR ''-'' # ds) = parse_lots (CHR ''-'' # ds)"
    unfolding p oninput_valNum_def js_Number_digits(2) [OF assms(1,2)]
    by (simp add: or_zero_def)
qed

text \<open>
  C9 (as the script has it). At submission the three arrays of the payload have one
  entry per entry of the selection, in its order: the structure, the contract, and
  \<^verbatim>\<open>parseInt(value.trim(), 10) || 0\<close> of the raw value. That number is read from
  the start of the text: after any white space and an optional sign, it is 0 when no
  digit stands there (the empty text, a sign alone, a letter, a sign after a sign);
  otherwise it is the integer written by the digits that stand there, up to the first
  character that is not a digit and whatever comes after it, rounded to the nearest
  double. Below \<open>2 ^ 53\<close> the rounding changes nothing, and there, on a text of digits
  with or without a minus sign, and on the empty text, the panel's reading of an edit
  (\<^verbatim>\<open>Number(value) || 0\<close>) gives the same number. Above it does:
  \<^verbatim>\<open>9007199254740993\<close> is submitted as 9007199254740992, and digits that write
  \<open>2 ^ 1024\<close> or more are read as an infinity.
\<close>

theorem payload_from_selection:
  "length (lis_structure_names (build_payload product ss)) = length ss
   \<and> length (lis_starting_contracts (build_payload product ss)) = length ss
   \<and> length (lis_num_lots (build_payload product ss)) = length ss
   \<and> (\<forall>i<length ss.
         lis_structure_names (build_payload product ss) ! i = s_structure (ss ! i)
       \<and> lis_starting_contracts (build_payload product ss) ! i = s_contract (ss ! i)
       \<and> lis_num_lots (build_payload product ss) ! i = parse_lots (s_value (ss ! i)))
   \<and> (list_all is_ws ws \<and> (rest = [] \<or> \<not> is_digit (hd rest)) \<longrightarrow>
         parse_lots (ws @ CHR ''+'' # rest) = Decimal 0 0
       \<and> parse_lots (ws @ CHR ''-'' # rest) = Decimal 0 0
       \<and> (rest = [] \<or> (\<not> is_ws (hd rest) \<and> hd rest \<noteq> CHR ''+'' \<and> hd rest \<noteq> CHR ''-'') \<longrightarrow>
            parse_lots (ws @ rest) = Decimal 0 0))
   \<and> (list_all is_ws ws \<and> ds \<noteq> [] \<and> list_all is_digit ds
        \<and> (rest = [] \<or> \<not> is_digit (hd rest)) \<longrightarrow>
         parse_lots (ws @ ds @ rest) = or_zero (round_to_double (int (digits_val ds)))
       \<and> parse_lots (ws @ CHR ''+'' # ds @ rest) = or_zero (round_to_double (int (digits_val ds)))
       \<and> parse_lots (ws @ CHR ''-'' # ds @ rest) = or_zero (round_to_double (- int (digits_val ds)))
       \<and> (digits_val ds < 2 ^ 53 \<longrightarrow>
            parse_lots (ws @ ds @ rest) = Decimal (int (digits_val ds)) 0
          \<and> parse_lots (ws @ CHR ''+'' # ds @ rest) = Decimal (int (digits_val ds)) 0
          \<and> parse_lots (ws @ CHR ''-'' # ds @ rest) = Decimal (- int (digits_val ds)) 0
          \<and> oninput_valNum ds = parse_lots ds
          \<and> oninput_valNum (CHR ''-'' # ds) = parse_lots (CHR ''-'' # ds))
       \<and> (2 ^ 1024 \<le> digits_val ds \<longrightarrow>
            parse_lots (ws @ ds @ rest) = Infinity
          \<and> parse_lots (ws @ CHR ''+'' # ds @ rest) = Infinity
          \<and> parse_lots (ws @ CHR ''-'' # ds @ rest) = Neg_Infinity))
   \<and> oninput_valNum [] = parse_lots []
   \<and> parse_lots ''9007199254740993'' = Decimal 9007199254740992 0"
proof -
  have align: "length (lis_structure_names (build_payload product ss)) = length ss
     \<and> length (lis_starting_contracts (build_payload product ss)) = length ss
     \<and> length (lis_num_lots (build_payload product ss)) = length ss
     \<and> (\<forall>i<length ss.
           lis_structure_names (build_payload product ss) ! i = s_structure (ss ! i)
         \<and> lis_starting_contracts (build_payload product ss) ! i = s_contract (ss ! i)
         \<and> lis_num_lots (build_payload product ss) ! i = parse_lots (s_value (ss ! i)))"
    by (simp add: build_payload_def)
  have none: "parse_lots (ws @ CHR ''+'' # rest) = Decimal 0 0
       \<and> parse_lots (ws @ CHR ''-'' # rest) = Decimal 0 0
       \<and> (rest = [] \<or> (\<not> is_ws (hd rest) \<and> hd rest \<noteq> CHR ''+'' \<and> hd rest \<noteq> CHR ''-'') \<longrightarrow>
            parse_lots (ws @ rest) = Decimal 0 0)"
    if "list_all is_ws ws" "rest = [] \<or> \<not> is_digit (hd rest)"
    using parse_lots_no_digit [OF that] by blast
  have some: "parse_lots (ws @ ds @ rest) = or_zero (round_to_double (int (digits_val ds)))
       \<and> parse_lots (ws @ CHR ''+'' # ds @ rest) = or_zero (round_to_double (int (digits_val ds)))
       \<and> parse_lots (ws @ CHR ''-'' # ds @ rest) = or_zero (round_to_double (- int (digits_val ds)))
       \<and> (digits_val ds < 2 ^ 53 \<longrightarrow>
            parse_lots (ws @ ds @ rest) = Decimal (int (digits_val ds)) 0
          \<and> parse_lots (ws @ CHR ''+'' # ds @ rest) = Decimal (int (digits_val ds)) 0
          \<and> parse_lots (ws @ CHR ''-'' # ds @ rest) = Decimal (- int (digits_val ds)) 0
          \<and> oninput_valNum ds = parse_lots ds
          \<and> oninput_valNum (CHR ''-'' # ds) = parse_lots (CHR ''-'' # ds))
       \<and> (2 ^ 1024 \<le> digits_val ds \<longrightarrow>
            parse_lots (ws @ ds @ rest) = Infinity
          \<and> parse_lots (ws @ CHR ''+'' # ds @ rest) = Infinity
          \<and> parse_lots (ws @ CHR ''-'' # ds @ rest) = Neg_Infinity)"
    if "list_all is_ws ws" "ds \<noteq> []" "list_all is_digit ds" "rest = [] \<or> \<not> is_digit (hd rest)"
    using parse_lots_digits [OF that] or_zero_exact [of ds]
      oninput_agrees_on_integers [OF that(2,3)] round_to_double_overflow [of "digits_val ds"]
    by (simp add: or_zero_def)
  have empty: "oninput_valNum [] = parse_lots []"
    using parse_lots_no_digit(3) [of "[]" "[]"] by (simp add: oninput_valNum_empty)
  show ?thesis
    using align none some empty parse_lots_example by blast
qed

theorem payload_from_selection_witness:
  "0 < length (selectedCells example_selection)
   \<and> lis_num_lots (build_payload ''CL'' (selectedCells example_selection)) ! 0 =
       parse_lots (s_value (selectedCells example_selection ! 0))
   \<and> list_all is_ws '' '' \<and> \<not> is_digit (hd ''x'')
   \<and> \<not> is_ws (hd ''x'') \<and> hd ''x'' \<noteq> CHR ''+'' \<and> hd ''x'' \<noteq> CHR ''-''
   \<and> parse_lots '' x'' = Decimal 0 0
   \<and> parse_lots '' -x'' = Decimal 0 0
   \<and> parse_lots ''+'' = Decimal 0 0
   \<and> list_all is_digit ''12'' \<and> digits_val ''12'' < 2 ^ 53
   \<and> parse_lots '' 12x'' = Decimal (int (digits_val ''12'')) 0
   \<and> parse_lots '' -12x'' = Decimal (- int (digits_val ''12'')) 0
   \<and> parse_lots '' -12x'' = or_zero (round_to_double (- int (digits_val ''12'')))
   \<and> oninput_valNum ''-12'' = parse_lots ''-12''
   \<and> list_all is_digit overflowing_text \<and> 2 ^ 1024 \<le> digits_val overflowing_text
   \<and> parse_lots overflowing_text = Infinity"
proof -
  have len: "0 < length (selectedCells example_selection)" by code_simp
  have ws: "list_all is_ws '' ''" "list_all is_ws []" by (simp_all add: is_ws_def)
  have x: "\<not> is_digit (hd ''x'')" "\<not> is_ws (hd ''x'')" "hd ''x'' \<noteq> CHR ''+''" "hd ''x'' \<noteq> CHR ''-''"
    by (simp_all add: is_ws_def is_digit_def)
  have ds: "''12'' \<noteq> []" "list_all is_digit ''12''" "digits_val ''12'' < 2 ^ 53"
    by (simp_all add: is_digit_def digits_val_def digit_val_def)
  note t1 = payload_from_selection [of "''CL''" "selectedCells example_selection" "'' ''" "''x''" "''12''"]
  note t2 = payload_from_selection [of "''CL''" "selectedCells example_selection" "[]" "[]" "''12''"]
  have c1: "lis_num_lots (build_payload ''CL'' (selectedCells example_selection)) ! 0 =
              parse_lots (s_value (selectedCells example_selection ! 0))"
    using t1 len by blast
  have c2: "parse_lots ('' '' @ ''x'') = Decimal 0 0"
           "parse_lots ('' '' @ CHR ''-'' # ''x'') = Decimal 0 0"
    using t1 ws(1) x by blast+
  have c3: "parse_lots ([] @ CHR ''+'' # []) = Decimal 0 0"
    using t2 ws(2) by blast
  have c4: "parse_lots ('' '' @ ''12'' @ ''x'') = Decimal (int (digits_val ''12'')) 0"
           "parse_lots ('' '' @ CHR ''-'' # ''12'' @ ''x'') = Decimal (- int (digits_val ''12'')) 0"
           "parse_lots ('' '' @ CHR ''-'' # ''12'' @ ''x'') = or_zero (round_to_double (- int (digits_val ''12'')))"
           "oninput_valNum (CHR ''-'' # ''12'') = parse_lots (CHR ''-'' # ''12'')"
    using t1 ws(1) x(1) ds by blast+
  note t3 = payload_from_selection [of "''CL''" "selectedCells example_selection" "[]" "[]" overflowing_text]
  have c5: "parse_lots ([] @ overflowing_text @ []) = Infinity"
    using t3 ws(2) overflowing_text_digits overflowing_text_val by blast
  show ?thesis
    using len ws(1) x ds(2,3) c1 c2 c3 c4 c5 overflowing_text_digits(2) overflowing_text_val by simp
qed

text \<open>
  C9 as stated fails where it says that the submission reads the text by the policy of
  the panel's edits. The operator types \<^verbatim>\<open>1e3\<close> into the number input of the
  selected cell: the cell shows 1000, the payload carries 1. With \<^verbatim>\<open>1.5\<close> the cell
  shows 1.5 and the payload carries 1.
\<close>

theorem submitted_lots_differ_from_edit:
  "s_value (selectedCells (run_events [Cell_clicked 0 False, Input_edited 0 ''1e3''] example_page) ! 0) = ''1e3''
   \<and> span_text (elements (run_events [Cell_clicked 0 False, Input_edited 0 ''1e3''] example_page) ! 0) = ''1000''
   \<and> lis_num_lots (build_payload ''CL''
        (selectedCells (run_events [Cell_clicked 0 False, Input_edited 0 ''1e3''] example_page))) = [Decimal 1 0]
   \<and> span_text (elements (run_events [Cell_clicked 0 False, Input_edited 0 ''1.5''] example_page) ! 0) = ''1.5''
   \<and> lis_num_lots (build_payload ''CL''
        (selectedCells (run_events [Cell_clicked 0 False, Input_edited 0 ''1.5''] example_page))) = [Decimal 1 0]"
  by code_simp
section \<open>The poll loop\<close>

lemma filter_remove_nth:
  assumes "i < length xs"
  shows "length (filter P (remove_nth i xs)) + (if P (xs ! i) then 1 else 0) = length (filter P xs)"
proof -
  have "xs = take i xs @ xs ! i # drop (Suc i) xs"
    using assms by (simp add: id_take_nth_drop [symmetric])
  then have "filter P xs = filter P (take i xs) @ filter P [xs ! i] @ filter P (drop (Suc i) xs)"
    by (metis append_Cons append_Nil filter_append)
  then show ?thesis by (simp add: remove_nth_def)
qed

lemma poll_guard_frame:
  assumes "in_flight q = in_flight p" "isLoading q = isLoading p" "timers q = timers p"
  shows "poll_guard q = poll_guard p"
  using assms by (simp add: poll_guard_def timer_fetches_def)

lemma fetch_completes_poll:
  assumes "i < length (in_flight p)"
  shows "in_flight (fetch_completes i resp p) = remove_nth i (in_flight p)"
    and "isLoading (fetch_completes i resp p) =
           (if started_by_timer (in_flight p ! i) then False else isLoading p)"
    and "timers (fetch_completes i resp p) =
           (if started_by_pollLoop (in_flight p ! i) then Suc (timers p) else timers p)"
  using assms
  by (simp_all add: fetch_completes_def Let_def started_by_timer_def started_by_pollLoop_def
               split: origin.splits)

lemma poll_guard_fetch_completes:
  assumes "poll_guard p"
  shows "poll_guard (fetch_completes i resp p)"
proof (cases "i < length (in_flight p)")
  case False
  then show ?thesis using assms by (simp add: fetch_completes_def)
next
  case True
  define T where "T = length (filter started_by_timer (in_flight p))"
  define T' where "T' = length (filter started_by_timer (remove_nth i (in_flight p)))"
  define L where "L = length (filter started_by_pollLoop (in_flight p))"
  define L' where "L' = length (filter started_by_pollLoop (remove_nth i (in_flight p)))"
  have t: "T' + (if started_by_timer (in_flight p ! i) then 1 else 0) = T"
    unfolding T_def T'_def by (rule filter_remove_nth [OF True])
  have l: "L' + (if started_by_pollLoop (in_flight p ! i) then 1 else 0) = L"
    unfolding L_def L'_def by (rule filter_remove_nth [OF True])
  have excl: "\<not> (started_by_timer (in_flight p ! i) \<and> started_by_pollLoop (in_flight p ! i))"
    by (simp add: started_by_timer_def started_by_pollLoop_def split: origin.splits)
  have g: "T = (if isLoading p then 1 else 0)" "timers p + L = 1"
    using assms by (simp_all add: poll_guard_def timer_fetches_def T_def L_def)
  have "T' = (if isLoading (fetch_completes i resp p) then 1 else 0)
        \<and> timers (fetch_completes i resp p) + L' = 1"
    unfolding fetch_completes_poll(2,3) [OF True]
    using t l g excl by (cases "started_by_timer (in_flight p ! i)";
                         cases "started_by_pollLoop (in_flight p ! i)";
                         cases "isLoading p"; simp)
  then show ?thesis
    by (simp add: poll_guard_def timer_fetches_def fetch_completes_poll(1) [OF True] T'_def L'_def)
qed

lemma apply_onclick_poll:
  "isLoading (apply_onclick env p) = isLoading p"
  "timers (apply_onclick env p) = timers p"
  "in_flight (apply_onclick env p) = in_flight p
   \<or> (\<exists>d. in_flight (apply_onclick env p) = in_flight p @ [(After_hedge d, current_product p)])"
  by (auto simp: apply_onclick_def Let_def loadPositions_start_def current_product_def
           split: option.splits sum.splits)

lemma poll_guard_append:
  assumes "in_flight q = in_flight p @ [f]" "\<not> started_by_timer f" "\<not> started_by_pollLoop f"
          "isLoading q = isLoading p" "timers q = timers p"
  shows "poll_guard q = poll_guard p"
  using assms by (simp add: poll_guard_def timer_fetches_def)

lemma poll_guard_step:
  assumes "poll_guard p"
  shows "poll_guard (step e p)"
proof (cases e)
  case (Fetch_completes i resp)
  then show ?thesis using poll_guard_fetch_completes [OF assms] by simp
next
  case Timer_fires
  show ?thesis
  proof (cases "timers p = 0 \<or> isLoading p")
    case True
    then show ?thesis using assms Timer_fires by (auto simp: timer_callback_def)
  next
    case False
    then have "step e p = loadPositions_start Timer_tick (p\<lparr>isLoading := True\<rparr>)"
      using Timer_fires by (simp add: timer_callback_def)
    then show ?thesis
      using assms False
      by (simp add: poll_guard_def timer_fetches_def loadPositions_start_def
          started_by_timer_def started_by_pollLoop_def)
  qed
next
  case (Product_changed v)
  have "poll_guard (step (Product_changed v) p) = poll_guard p"
  proof (cases "product_select p = None \<or> positions_grid p = None")
    case True
    then show ?thesis
      by (intro poll_guard_frame) (auto simp: selector_onchange_def split: option.splits)
  next
    case False
    then show ?thesis
      by (intro poll_guard_append [where f = "(Product_change, v)"])
         (auto simp: selector_onchange_def loadPositions_start_def current_product_def
               started_by_timer_def started_by_pollLoop_def split: option.splits)
  qed
  then show ?thesis using assms Product_changed by simp
next
  case (Cell_clicked a c)
  have "operator_edit e" using Cell_clicked by (simp add: operator_edit_def)
  from operator_edit_step_frame [OF this, of p] show ?thesis
    using assms poll_guard_frame [of "step e p" p] by simp
next
  case (Input_edited i v)
  have "operator_edit e" using Input_edited by (simp add: operator_edit_def)
  from operator_edit_step_frame [OF this, of p] show ?thesis
    using assms poll_guard_frame [of "step e p" p] by simp
next
  case (Remove_clicked i)
  have "operator_edit e" using Remove_clicked by (simp add: operator_edit_def)
  from operator_edit_step_frame [OF this, of p] show ?thesis
    using assms poll_guard_frame [of "step e p" p] by simp
next
  case (Apply_clicked env)
  have "poll_guard (apply_onclick env p) = poll_guard p"
    using apply_onclick_poll [of env p]
  proof (elim disjE exE)
    assume "in_flight (apply_onclick env p) = in_flight p"
    then show ?thesis
      by (intro poll_guard_frame) (simp_all add: apply_onclick_poll)
  next
    fix d assume "in_flight (apply_onclick env p) = in_flight p @ [(After_hedge d, current_product p)]"
    then show ?thesis
      by (intro poll_guard_append [where f = "(After_hedge d, current_product p)"])
         (simp_all add: apply_onclick_poll started_by_timer_def started_by_pollLoop_def)
  qed
  then show ?thesis using assms Apply_clicked by simp
qed

lemma poll_guard_run:
  "poll_guard p \<Longrightarrow> poll_guard (run_events es p)"
  unfolding run_events_def
  by (induction es arbitrary: p) (simp_all add: poll_guard_step)

lemma poll_guard_start:
  "poll_guard (DOMContentLoaded selector has_grid has_panel)"
  by (simp add: poll_guard_def DOMContentLoaded_def pollLoop_def loadPositions_start_def timer_fetches_def
      started_by_timer_def started_by_pollLoop_def)

text \<open>
  C5 (as the script has it). Let \<open>p\<close> be the page after any sequence of events. At most
  one fetch started by the timer is in flight, and \<^verbatim>\<open>_isLoading\<close> is set exactly then.
  A tick while the flag is set changes nothing: no request, nothing queued. A tick while
  it is not set starts a fetch. There is at most one interval timer. A change of the
  product leaves the timer and the flag alone and, where the page has the selector and
  the container, starts one more fetch whatever is in flight.
\<close>

theorem single_flight_of_timer:
  assumes "p = run_events es (DOMContentLoaded selector has_grid has_panel)"
  shows "timer_fetches p \<le> 1
       \<and> isLoading p = (timer_fetches p = 1)
       \<and> timers p \<le> 1
       \<and> (isLoading p \<longrightarrow> step Timer_fires p = p)
       \<and> (\<not> isLoading p \<and> timers p = 1 \<longrightarrow>
            in_flight (step Timer_fires p) = in_flight p @ [(Timer_tick, current_product p)])
       \<and> timers (step (Product_changed v) p) = timers p
       \<and> isLoading (step (Product_changed v) p) = isLoading p
       \<and> (product_select p \<noteq> None \<and> positions_grid p \<noteq> None \<longrightarrow>
            in_flight (step (Product_changed v) p) = in_flight p @ [(Product_change, v)])"
proof -
  have g: "poll_guard p"
    using assms poll_guard_run [OF poll_guard_start] by simp
  have a: "timer_fetches p \<le> 1" "isLoading p = (timer_fetches p = 1)" "timers p \<le> 1"
    using g by (auto simp: poll_guard_def split: if_splits)
  have b: "isLoading p \<longrightarrow> step Timer_fires p = p"
    by (simp add: timer_callback_def)
  have c: "\<not> isLoading p \<and> timers p = 1 \<longrightarrow>
            in_flight (step Timer_fires p) = in_flight p @ [(Timer_tick, current_product p)]"
    by (simp add: timer_callback_def loadPositions_start_def current_product_def)
  have d: "timers (step (Product_changed v) p) = timers p"
          "isLoading (step (Product_changed v) p) = isLoading p"
    by (simp_all add: selector_onchange_def split: option.splits)
  have e: "product_select p \<noteq> None \<and> positions_grid p \<noteq> None \<longrightarrow>
            in_flight (step (Product_changed v) p) = in_flight p @ [(Product_change, v)]"
    by (auto simp: selector_onchange_def loadPositions_start_def current_product_def
             split: option.splits)
  show ?thesis using a b c d e by blast
qed

theorem single_flight_of_timer_witness:
  "isLoading (run_events [Fetch_completes 0 (Response True (Decoded example_snapshot)), Timer_fires]
               (DOMContentLoaded (Some ''CL'') True True))
   \<and> step Timer_fires
         (run_events [Fetch_completes 0 (Response True (Decoded example_snapshot)), Timer_fires]
            (DOMContentLoaded (Some ''CL'') True True)) =
       run_events [Fetch_completes 0 (Response True (Decoded example_snapshot)), Timer_fires]
         (DOMContentLoaded (Some ''CL'') True True)
   \<and> timer_fetches (run_events [Fetch_completes 0 (Response True (Decoded example_snapshot)), Timer_fires]
                     (DOMContentLoaded (Some ''CL'') True True)) \<le> 1
   \<and> \<not> isLoading example_page \<and> timers example_page = 1
   \<and> in_flight (step Timer_fires example_page) =
       in_flight example_page @ [(Timer_tick, current_product example_page)]
   \<and> product_select example_page \<noteq> None \<and> positions_grid example_page \<noteq> None
   \<and> in_flight (step (Product_changed ''NG'') example_page) =
       in_flight example_page @ [(Product_change, ''NG'')]"
proof -
  let ?es = "[Fetch_completes 0 (Response True (Decoded example_snapshot)), Timer_fires]"
  let ?p = "run_events ?es (DOMContentLoaded (Some ''CL'') True True)"
  have loading: "isLoading ?p" by code_simp
  have idle: "\<not> isLoading example_page" "timers example_page = 1" by code_simp+
  have els: "product_select example_page \<noteq> None" "positions_grid example_page \<noteq> None"
    by code_simp+
  have ex: "example_page =
              run_events [Fetch_completes 0 (Response True (Decoded example_snapshot))]
                (DOMContentLoaded (Some ''CL'') True True)"
    by (simp add: example_page_def run_events_def)
  note t1 = single_flight_of_timer [of ?p ?es "Some ''CL''" True True "''NG''", OF refl]
  note t2 = single_flight_of_timer [OF ex, of "''NG''"]
  have c1: "step Timer_fires ?p = ?p" "timer_fetches ?p \<le> 1"
    using t1 loading by blast+
  have c2: "in_flight (step Timer_fires example_page) =
              in_flight example_page @ [(Timer_tick, current_product example_page)]"
    using t2 idle by blast
  have c3: "in_flight (step (Product_changed ''NG'') example_page) =
              in_flight example_page @ [(Product_change, ''NG'')]"
    using t2 els by blast
  show ?thesis using loading idle els c1 c2 c3 by blast
qed

text \<open>
  C5 as stated fails where it says that at most one snapshot fetch is in flight, and
  that a tick during a fetch is skipped. The guard is read and set by the timer callback
  only. After a tick has started a fetch, a change of the product starts a second one
  beside it; and while the fetch of a product change is in flight, a tick starts another.
\<close>

theorem two_fetches_in_flight:
  "in_flight (run_events
      [Fetch_completes 0 (Response True (Decoded example_snapshot)), Timer_fires, Product_changed ''NG'']
      (DOMContentLoaded (Some ''CL'') True True))
     = [(Timer_tick, ''CL''), (Product_change, ''NG'')]
   \<and> in_flight (run_events
      [Fetch_completes 0 (Response True (Decoded example_snapshot)), Product_changed ''NG'', Timer_fires]
      (DOMContentLoaded (Some ''CL'') True True))
     = [(Product_change, ''NG''), (Timer_tick, ''NG'')]"
  by code_simp

section \<open>The Total row, and the selection across a re-render\<close>

lemma place_rows_new:
  "list_all (\<lambda>a. base \<le> a) (concat (map snd (place_rows base rows)))"
proof (induction rows arbitrary: base)
  case Nil
  show ?case by simp
next
  case (Cons r rs)
  have "list_all (\<lambda>a. base \<le> a) (concat (map snd (place_rows (base + length (lots_of r)) rs)))"
    using Cons.IH [of "base + length (lots_of r)"] by (fastforce simp: list_all_iff)
  then show ?case by (auto simp: list_all_iff)
qed

lemma render_positions_rebuilds:
  assumes "positions_grid p \<noteq> None"
      and "prevDataJSON p \<noteq> Some (snapshot_fingerprint data)"
      and "contracts_or_empty data \<noteq> [] \<or> rows_or_empty data \<noteq> []"
  shows "render_positions product data p =
           (buildGrid (contracts_or_empty data) (rows_or_empty data)
              (case positions_grid p of Some (Grid g) \<Rightarrow> scrollLeft g | _ \<Rightarrow> 0) p)
             \<lparr>prevDataJSON := Some (snapshot_fingerprint data)\<rparr>"
  using assms
  by (auto simp: render_positions_def Let_def split: option.splits container_view.splits)

lemma buildGrid_selection:
  "selectedCells (buildGrid cs rs sl p) = (if selection_panel p = None then selectedCells p else [])"
  "selection_panel (buildGrid cs rs sl p) = (if selection_panel p = None then None else Some (Panel [] None))"
  "displayed_cells (buildGrid cs rs sl p) = concat (map snd (place_rows (length (elements p)) rs))"
  by (auto simp: buildGrid_def attachCellSelectionHandlers_def displayed_cells_def split: option.splits)

text \<open>
  C8. Let \<open>p\<close> be the page after any sequence of events, and \<open>a\<close> a cell element of the
  row named Total. A click on it, with or without Ctrl, leaves the page as it is: the
  selection is what it was and no class is added. The cell has no click listener and is
  not marked selected, and no entry of the selection is an entry of that cell: none has
  its structure, none refers to it, and the key of each is made of a structure other
  than Total and a contract.
\<close>

theorem total_cells_never_selected:
  assumes "p = run_events es (DOMContentLoaded selector has_grid has_panel)"
      and "a < length (elements p)"
      and "dataset_structure (elements p ! a) = ''Total''"
  shows "step (Cell_clicked a ctrlKey) p = p
       \<and> \<not> selected (elements p ! a)
       \<and> \<not> click_handler (elements p ! a)
       \<and> list_all (\<lambda>s. s_structure s \<noteq> dataset_structure (elements p ! a)
                      \<and> s_key s = s_structure s @ ''||'' @ s_contract s
                      \<and> s_element s \<noteq> a)
           (selectedCells p)"
proof -
  have inv: "selection_invariant p"
    using assms(1) run_events_invariant [OF DOMContentLoaded_invariant] by simp
  then have "total_cell_inert (elements p ! a)"
    using assms(2) by (simp add: selection_invariant_def list_all_length)
  then have inert: "\<not> click_handler (elements p ! a)" "\<not> selected (elements p ! a)"
    using assms(3) by (simp_all add: total_cell_inert_def)
  have "list_all (entry_of_cell (elements p)) (selectedCells p)"
    using inv by (simp add: selection_invariant_def)
  then have entries: "list_all (\<lambda>s. s_structure s \<noteq> dataset_structure (elements p ! a)
                      \<and> s_key s = s_structure s @ ''||'' @ s_contract s
                      \<and> s_element s \<noteq> a)
           (selectedCells p)"
    using assms(3) by (auto simp: list_all_iff entry_of_cell_def)
  show ?thesis using inert entries by simp
qed

theorem total_cells_never_selected_witness:
  "2 < length (elements (run_events [Fetch_completes 0 (Response True (Decoded example_snapshot)),
                     Cell_clicked 0 False]
                    (DOMContentLoaded (Some ''CL'') True True)))
   \<and> dataset_structure (elements (run_events [Fetch_completes 0 (Response True (Decoded example_snapshot)),
                     Cell_clicked 0 False]
                    (DOMContentLoaded (Some ''CL'') True True)) ! 2) = ''Total''
   \<and> List.member (displayed_cells (run_events [Fetch_completes 0 (Response True (Decoded example_snapshot)),
                     Cell_clicked 0 False]
                    (DOMContentLoaded (Some ''CL'') True True))) 2
   \<and> length (selectedCells (run_events [Fetch_completes 0 (Response True (Decoded example_snapshot)),
                     Cell_clicked 0 False]
                    (DOMContentLoaded (Some ''CL'') True True))) = 1
   \<and> step (Cell_clicked 2 True)
        (run_events [Fetch_completes 0 (Response True (Decoded example_snapshot)), Cell_clicked 0 False]
           (DOMContentLoaded (Some ''CL'') True True)) =
      run_events [Fetch_completes 0 (Response True (Decoded example_snapshot)), Cell_clicked 0 False]
        (DOMContentLoaded (Some ''CL'') True True)
   \<and> step (Cell_clicked 2 False)
        (run_events [Fetch_completes 0 (Response True (Decoded example_snapshot)), Cell_clicked 0 False]
           (DOMContentLoaded (Some ''CL'') True True)) =
      run_events [Fetch_completes 0 (Response True (Decoded example_snapshot)), Cell_clicked 0 False]
        (DOMContentLoaded (Some ''CL'') True True)"
proof -
  let ?es = "[Fetch_completes 0 (Response True (Decoded example_snapshot)), Cell_clicked 0 False]"
  let ?p = "run_events ?es (DOMContentLoaded (Some ''CL'') True True)"
  have len: "2 < length (elements ?p)" by code_simp
  have tot: "dataset_structure (elements ?p ! 2) = ''Total''" by code_simp
  have disp: "List.member (displayed_cells ?p) 2" by code_simp
  have one: "length (selectedCells ?p) = 1" by code_simp
  show ?thesis
    using len tot disp one
      total_cells_never_selected [OF refl len tot, of True]
      total_cells_never_selected [OF refl len tot, of False]
    by blast
qed

text \<open>
  C10 (as the script has it). Let \<open>p\<close> be the page after any sequence of events, with
  the container. When a snapshot that is not the empty result arrives with a fingerprint
  other than the stored one, the grid is built again: the selection is empty afterwards,
  the panel (where the document has one) is empty, and every cell in the document is a
  new element, whatever cells the snapshot has.
\<close>

theorem grid_rerender_resets_selection:
  assumes "p = run_events es (DOMContentLoaded selector has_grid has_panel)"
      and "positions_grid p \<noteq> None"
      and "prevDataJSON p \<noteq> Some (snapshot_fingerprint data)"
      and "contracts_or_empty data \<noteq> [] \<or> rows_or_empty data \<noteq> []"
  shows "selectedCells (loadPositions_resume product (Response True (Decoded data)) p) = []
       \<and> selection_panel (loadPositions_resume product (Response True (Decoded data)) p) =
           (if selection_panel p = None then None else Some (Panel [] None))
       \<and> list_all (\<lambda>a. length (elements p) \<le> a)
           (displayed_cells (loadPositions_resume product (Response True (Decoded data)) p))"
proof -
  have "selection_invariant p"
    using assms(1) run_events_invariant [OF DOMContentLoaded_invariant] by simp
  then have none: "selection_panel p = None \<longrightarrow> selectedCells p = []"
    by (simp add: selection_invariant_def)
  have run: "loadPositions_resume product (Response True (Decoded data)) p =
           (buildGrid (contracts_or_empty data) (rows_or_empty data)
              (case positions_grid p of Some (Grid g) \<Rightarrow> scrollLeft g | _ \<Rightarrow> 0) p)
             \<lparr>prevDataJSON := Some (snapshot_fingerprint data)\<rparr>"
    using render_positions_rebuilds [OF assms(2,3,4)] by (simp add: loadPositions_resume_def)
  have disp: "displayed_cells (q\<lparr>prevDataJSON := x\<rparr>) = displayed_cells q" for q x
    by (simp add: displayed_cells_def)
  show ?thesis
    unfolding run using none place_rows_new [of "length (elements p)" "rows_or_empty data"]
    by (simp add: buildGrid_selection disp)
qed

theorem grid_rerender_resets_selection_witness:
  "positions_grid (run_events [Fetch_completes 0 (Response True (Decoded example_snapshot)),
                     Cell_clicked 0 False, Input_edited 0 ''7'']
                    (DOMContentLoaded (Some ''CL'') True True)) \<noteq> None
   \<and> prevDataJSON (run_events [Fetch_completes 0 (Response True (Decoded example_snapshot)),
                     Cell_clicked 0 False, Input_edited 0 ''7'']
                    (DOMContentLoaded (Some ''CL'') True True)) \<noteq> Some (snapshot_fingerprint changed_snapshot)
   \<and> rows_or_empty changed_snapshot \<noteq> []
   \<and> selectedCells (run_events [Fetch_completes 0 (Response True (Decoded example_snapshot)),
                     Cell_clicked 0 False, Input_edited 0 ''7'']
                    (DOMContentLoaded (Some ''CL'') True True)) \<noteq> []
   \<and> selectedCells (loadPositions_resume ''CL'' (Response True (Decoded changed_snapshot))
        (run_events [Fetch_completes 0 (Response True (Decoded example_snapshot)),
                     Cell_clicked 0 False, Input_edited 0 ''7'']
           (DOMContentLoaded (Some ''CL'') True True))) = []"
proof -
  let ?es = "[Fetch_completes 0 (Response True (Decoded example_snapshot)),
              Cell_clicked 0 False, Input_edited 0 ''7'']"
  let ?p = "run_events ?es (DOMContentLoaded (Some ''CL'') True True)"
  have grid: "positions_grid ?p \<noteq> None" by code_simp
  have fp: "prevDataJSON ?p \<noteq> Some (snapshot_fingerprint changed_snapshot)" by code_simp
  have rows: "rows_or_empty changed_snapshot \<noteq> []" by code_simp
  have sel: "selectedCells ?p \<noteq> []" by code_simp
  have ne: "contracts_or_empty changed_snapshot \<noteq> [] \<or> rows_or_empty changed_snapshot \<noteq> []"
    using rows by simp
  show ?thesis
    using grid fp rows sel
      grid_rerender_resets_selection [OF refl grid fp ne, of "''CL''"]
    by blast
qed

text \<open>
  C10 as stated fails for the empty result. The cell of Fly at F26 is selected and
  edited to 7 when the empty snapshot arrives. Its fingerprint differs from the stored
  one, so it is rendered: the container shows the placeholder and the slot holds the new
  fingerprint. But \<open>buildGrid\<close> is not called: the selection still has its entry and
  the panel its item.
\<close>

theorem empty_result_keeps_selection:
  "prevDataJSON example_selection \<noteq> Some (snapshot_fingerprint empty_snapshot)
   \<and> positions_grid (loadPositions_resume ''CL'' (Response True (Decoded empty_snapshot)) example_selection)
       = Some (No_positions ''CL'')
   \<and> prevDataJSON (loadPositions_resume ''CL'' (Response True (Decoded empty_snapshot)) example_selection)
       = Some (snapshot_fingerprint empty_snapshot)
   \<and> selectedCells (loadPositions_resume ''CL'' (Response True (Decoded empty_snapshot)) example_selection)
       = [\<lparr>s_key = ''Fly||F26'', s_structure = ''Fly'', s_contract = ''F26'', s_element = 0,
           s_value = ''7''\<rparr>]
   \<and> selection_panel (loadPositions_resume ''CL'' (Response True (Decoded empty_snapshot)) example_selection)
       = Some (Panel [\<lparr>item_structure = ''Fly'', item_contract = ''F26'', input_value = ''7''\<rparr>]
                 (Some ''Apply Hedge (CL)''))"
  by code_simp

end
